(* ===== verification/JOS_Prelude.thy ===== *)
theory JOS_Prelude
  imports Main "HOL-Library.Word" "HOL-Library.Monad_Syntax"
begin

unbundle bit_operations_syntax

section \<open>Prelude: integer types, error codes, linked free lists\<close>

text \<open>
  Shared vocabulary of the development:
  \<^item> the C integer types of \<^verbatim>\<open>inc/types.h\<close> as machine words, the rounding macros
    \<open>ROUNDDOWN\<close> and \<open>ROUNDUP\<close>, the error codes of \<^verbatim>\<open>inc/error.h\<close>;
  \<^item> generic lemmas on words (masks as \<open>take_bit\<close>);
  \<^item> intrusive singly linked lists: a list threaded through a link field of the array
    elements themselves, which is how the kernel keeps its free pages
    (\<^verbatim>\<open>pp_link\<close>) and its free environments (\<^verbatim>\<open>env_link\<close>).

  A computation of the kernel or of a user library that may panic (or fail an assertion, or
  dereference a null pointer) is a value of type \<open>'a option\<close>: \<open>None\<close> is the panic and
  \<open>Some\<close> holds the result, usually a pair of the C return value and the new state.
\<close>

subsection \<open>Integer types\<close>

type_synonym u8 = "8 word"
type_synonym u16 = "16 word"
type_synonym u32 = "32 word"
type_synonym u64 = "64 word"
type_synonym envid_t = "32 word"

named_theorems jos_consts \<open>the numeric constants of the headers\<close>
named_theorems jos_defs \<open>definitions that component proofs unfold\<close>

subsection \<open>Rounding (\<^verbatim>\<open>inc/types.h\<close>)\<close>

definition ROUNDDOWN :: "u64 \<Rightarrow> u64 \<Rightarrow> u64" where
  "ROUNDDOWN a n = a - a mod n"

definition ROUNDUP :: "u64 \<Rightarrow> u64 \<Rightarrow> u64" where
  "ROUNDUP a n = ROUNDDOWN (a + n - 1) n"

subsection \<open>Error codes (\<^verbatim>\<open>inc/error.h\<close>)\<close>

datatype jos_error =
    E_UNSPECIFIED | E_BAD_ENV | E_INVAL | E_NO_MEM | E_NO_FREE_ENV | E_FAULT | E_NO_SYS
  | E_IPC_NOT_RECV | E_EOF | E_NO_DISK | E_MAX_OPEN | E_NOT_FOUND | E_BAD_PATH
  | E_FILE_EXISTS | E_NOT_EXEC | E_NOT_SUPP | E_NO_VMX | E_NO_EPT | E_VMX_ON
  | E_VMCS_INIT | E_NO_ENT

fun errno :: "jos_error \<Rightarrow> int" where
  "errno E_UNSPECIFIED = 1"
| "errno E_BAD_ENV = 2"
| "errno E_INVAL = 3"
| "errno E_NO_MEM = 4"
| "errno E_NO_FREE_ENV = 5"
| "errno E_FAULT = 6"
| "errno E_NO_SYS = 7"
| "errno E_IPC_NOT_RECV = 8"
| "errno E_EOF = 9"
| "errno E_NO_DISK = 10"
| "errno E_MAX_OPEN = 11"
| "errno E_NOT_FOUND = 12"
| "errno E_BAD_PATH = 13"
| "errno E_FILE_EXISTS = 14"
| "errno E_NOT_EXEC = 15"
| "errno E_NOT_SUPP = 16"
| "errno E_NO_VMX = 17"
| "errno E_NO_EPT = 18"
| "errno E_VMX_ON = 19"
| "errno E_VMCS_INIT = 20"
| "errno E_NO_ENT = 21"

definition MAXERROR :: int where [jos_consts]: "MAXERROR = 22"

text \<open>An error return of a C function: the negated code.\<close>

abbreviation err :: "jos_error \<Rightarrow> int" where
  "err e \<equiv> - errno e"

subsection \<open>Words\<close>

lemma and_0x1FF: "(x :: u64) AND 0x1FF = take_bit 9 x"
  by (simp add: take_bit_eq_mask mask_eq_exp_minus_1)

lemma and_0xFFF: "(x :: u64) AND 0xFFF = take_bit 12 x"
  by (simp add: take_bit_eq_mask mask_eq_exp_minus_1)

lemma bit_hi_zero:
  assumes "unat (x :: u64) < 2 ^ k" and "k \<le> n"
  shows "\<not> bit x n"
proof -
  have "take_bit k x = x"
    using assms(1) by (metis take_bit_nat_eq_self unsigned_take_bit_eq unsigned_word_eqI)
  with assms(2) show ?thesis
    by (metis bit_take_bit_iff leD)
qed

lemma unat_take_bit_less: "unat (take_bit k (x :: u64)) < 2 ^ k"
  by (simp add: unsigned_take_bit_eq)

lemma unat_ROUNDDOWN: "unat (ROUNDDOWN a n) = unat a - unat a mod unat n"
proof -
  have "a mod n \<le> a"
    by (simp add: word_le_nat_alt unat_mod_distrib)
  then show ?thesis
    by (simp add: ROUNDDOWN_def unat_sub unat_mod_distrib)
qed

lemma ROUNDDOWN_le: "ROUNDDOWN a n \<le> a"
  by (simp add: word_le_nat_alt unat_ROUNDDOWN)

lemma ROUNDDOWN_dvd: "unat n dvd unat (ROUNDDOWN a n)"
  by (simp add: unat_ROUNDDOWN dvd_minus_mod)

lemma unat_ROUNDUP:
  assumes "0 < unat n" and "unat a + unat n - 1 < 2 ^ 64"
  shows "unat (ROUNDUP a n) = (unat a + unat n - 1) div unat n * unat n"
proof -
  have "unat (a + n - 1) = unat a + unat n - 1"
  proof -
    have "a + n - 1 = of_nat (unat a + unat n - 1)"
      using assms(1) by (simp add: of_nat_diff)
    then show ?thesis
      using assms(2) by (simp add: unat_of_nat)
  qed
  then show ?thesis
    by (simp add: ROUNDUP_def unat_ROUNDDOWN minus_mod_eq_div_mult)
qed

lemma small_signed:
  assumes "unat (x :: u32) < 2 ^ 31"
  shows "sint x = uint x" "(scast x :: u64) = ucast x"
proof -
  have "int (unat x) < int (2 ^ 31)"
    using assms by (simp only: of_nat_less_iff)
  then have "uint x < 2 ^ 31"
    by simp
  moreover have "- (2 ^ 31) \<le> uint x"
    by (rule order_trans [of _ 0]) simp_all
  ultimately have "signed_take_bit 31 (uint x) = uint x"
    by (intro signed_take_bit_int_eq_self)
  then show s: "sint x = uint x"
    by (simp add: sint_uint)
  show "(scast x :: u64) = ucast x"
    unfolding scast_eq ucast_eq s by simp
qed

lemma sint_of_nat_small: "n < 2 ^ 31 \<Longrightarrow> sint (of_nat n :: u32) = int n"
  by (subst small_signed(1)) (simp_all add: unat_of_nat take_bit_nat_eq_self unsigned_of_nat)

lemma unat_ucast32 [simp]: "unat (ucast (x :: u32) :: u64) = unat x"
proof -
  have "unat x < 2 ^ 32"
    using unsigned_less [of x] by simp
  then show ?thesis
    by (simp add: unsigned_ucast_eq take_bit_nat_eq_self)
qed

lemma scast_of_nat_small: "n < 2 ^ 31 \<Longrightarrow> (scast (of_nat n :: u32) :: u64) = of_nat n"
  by (subst small_signed(2)) (simp_all add: unsigned_of_nat take_bit_nat_eq_self)

lemma sint_nonneg:
  assumes "0 \<le> sint (x :: u32)"
  shows "unat x < 2 ^ 31"
proof -
  have "sint x < 2 ^ 31"
    using sint_less [of x] by simp
  then have "take_bit 32 (sint x) = sint x"
    using assms by (intro take_bit_int_eq_self) simp_all
  then have "uint x = sint x"
    by (simp add: uint_sint)
  with \<open>sint x < 2 ^ 31\<close> have "int (unat x) < int (2 ^ 31)"
    by simp
  then show ?thesis
    by (simp only: of_nat_less_iff)
qed

lemma neg_u32:
  assumes "0 < k" "k \<le> 2 ^ 31"
  shows "sint (- of_nat k :: u32) = - int k" "(scast (- of_nat k :: u32) :: u64) = - of_nat k"
proof -
  have "sint (word_of_int (- int k) :: u32) = signed_take_bit 31 (- int k)"
    unfolding sint_sbintrunc' by simp
  also have "\<dots> = - int k"
    using assms by (intro signed_take_bit_int_eq_self) simp_all
  finally show s: "sint (- of_nat k :: u32) = - int k"
    by simp
  show "(scast (- of_nat k :: u32) :: u64) = - of_nat k"
    unfolding scast_eq s by simp
qed

lemma unat_neg_nat:
  assumes "0 < k" "k < 2 ^ 64"
  shows "unat (- of_nat k :: u64) = 2 ^ 64 - k"
  using assms unat_sub_if' [of 0 "of_nat k :: u64"] by (simp add: unat_of_nat unsigned_of_nat take_bit_nat_eq_self)

lemma div_add_within:
  assumes "(f :: nat) mod n + k < n"
  shows "(f + k) div n = f div n" "(f + k) mod n = f mod n + k"
proof -
  define q r where "q = f div n" and "r = f mod n"
  then have f: "f = r + n * q" and r: "r + k < n"
    using assms by simp_all
  have "f + k = (r + k) + n * q"
    using f by simp
  with r show "(f + k) div n = f div n" "(f + k) mod n = f mod n + k"
    unfolding q_def [symmetric] r_def [symmetric] by (simp_all only: div_mult_self2 mod_mult_self2) simp_all
qed

subsection \<open>Bytes\<close>

text \<open>The little-endian number in \<open>n\<close> bytes from \<open>off\<close> on.\<close>

primrec rd_le :: "nat \<Rightarrow> (nat \<Rightarrow> u8) \<Rightarrow> nat \<Rightarrow> u64" where
  "rd_le 0 b off = 0"
| "rd_le (Suc n) b off = ucast (b off) OR push_bit 8 (rd_le n b (Suc off))"

lemma rd_le_cong: "(\<And>k. k < n \<Longrightarrow> m' (a + k) = m (a + k)) \<Longrightarrow> rd_le n m' a = rd_le n m a"
proof (induction n arbitrary: a)
  case (Suc n)
  have "m' a = m a"
    using Suc.prems [of 0] by simp
  moreover have "rd_le n m' (Suc a) = rd_le n m (Suc a)"
    using Suc.prems [of "Suc k" for k] by (intro Suc.IH) simp
  ultimately show ?case by simp
qed simp

lemma bit_rd_le:
  "n \<le> 8 \<Longrightarrow> bit (rd_le n m a) i \<longleftrightarrow> i < 8 * n \<and> bit (m (a + i div 8)) (i mod 8)"
proof (induction n arbitrary: a i)
  case (Suc n)
  show ?case
  proof (cases "i < 8")
    case True
    then show ?thesis
      by (simp add: bit_simps)
  next
    case False
    then have d: "i div 8 = Suc ((i - 8) div 8)" "i mod 8 = (i - 8) mod 8"
      by (simp_all add: le_div_geq le_mod_geq)
    have "\<not> bit (m a) i"
      using False bit_imp_le_length [of "m a" i] by auto
    then show ?thesis
      using False Suc by (auto simp: bit_simps d)
  qed
qed simp

subsection \<open>Loops that may panic\<close>

text \<open>
  \<open>fold_opt f xs s\<close> runs the body \<open>f\<close> for the elements of \<open>xs\<close> in order, from state \<open>s\<close>, and stops
  with \<open>None\<close> at the first body that does.
\<close>

primrec fold_opt :: "('a \<Rightarrow> 's \<Rightarrow> 's option) \<Rightarrow> 'a list \<Rightarrow> 's \<Rightarrow> 's option" where
  "fold_opt f [] s = Some s"
| "fold_opt f (x # xs) s = do { s1 \<leftarrow> f x s; fold_opt f xs s1 }"

lemma fold_opt_append:
  "fold_opt f (xs @ ys) s = do { s1 \<leftarrow> fold_opt f xs s; fold_opt f ys s1 }"
  by (induction xs arbitrary: s) (simp_all split: Option.bind_split)

lemma fold_opt_inv:
  assumes "fold_opt f xs s = Some s'" and "I s"
    and "\<And>x s s'. x \<in> set xs \<Longrightarrow> I s \<Longrightarrow> f x s = Some s' \<Longrightarrow> I s'"
  shows "I s'"
  using assms
proof (induction xs arbitrary: s)
  case (Cons x xs)
  then obtain s1 where "f x s = Some s1" "fold_opt f xs s1 = Some s'"
    by (auto split: Option.bind_splits)
  with Cons show ?case
    by (meson list.set_intros)
qed simp

lemma fold_opt_total:
  assumes "I s" and "\<And>x s. x \<in> set xs \<Longrightarrow> I s \<Longrightarrow> \<exists>s'. f x s = Some s' \<and> I s'"
  shows "\<exists>s'. fold_opt f xs s = Some s' \<and> I s'"
  using assms
proof (induction xs arbitrary: s)
  case (Cons x xs)
  then obtain s1 where "f x s = Some s1" "I s1"
    by (metis list.set_intros(1))
  with Cons show ?case
    by simp
qed simp

subsection \<open>What holds if a function returns\<close>

text \<open>
  \<open>post m Q\<close>: if the computation \<open>m\<close> does not panic, its result satisfies \<open>Q\<close>. The
  rules \<open>post_intros\<close> follow the structure of the computation.
\<close>

definition post :: "'a option \<Rightarrow> ('a \<Rightarrow> bool) \<Rightarrow> bool" where
  "post m Q \<longleftrightarrow> (\<forall>x. m = Some x \<longrightarrow> Q x)"

named_theorems post_intros

lemma postI: "(\<And>x. m = Some x \<Longrightarrow> Q x) \<Longrightarrow> post m Q"
  by (simp add: post_def)

lemma postD: "post m Q \<Longrightarrow> m = Some x \<Longrightarrow> Q x"
  by (simp add: post_def)

lemma post_Some [simp]: "post (Some x) Q = Q x" and post_None [simp]: "post None Q"
  by (simp_all add: post_def)

lemma post_bind [post_intros]: "(\<And>x. m = Some x \<Longrightarrow> post (f x) Q) \<Longrightarrow> post (Option.bind m f) Q"
  by (auto simp: post_def split: Option.bind_splits)

lemma post_if [post_intros]: "(b \<Longrightarrow> post m Q) \<Longrightarrow> (\<not> b \<Longrightarrow> post n Q) \<Longrightarrow> post (if b then m else n) Q"
  by simp

lemma post_option [post_intros]:
  "(x = None \<Longrightarrow> post m Q) \<Longrightarrow> (\<And>y. x = Some y \<Longrightarrow> post (f y) Q) \<Longrightarrow> post (case x of None \<Rightarrow> m | Some y \<Rightarrow> f y) Q"
  by (cases x) simp_all

lemma post_prod [post_intros]: "(\<And>a b. x = (a, b) \<Longrightarrow> post (f a b) Q) \<Longrightarrow> post (case x of (a, b) \<Rightarrow> f a b) Q"
  by (cases x) simp_all

lemma post_let [post_intros]: "(\<And>x. x = t \<Longrightarrow> post (f x) Q) \<Longrightarrow> post (let x = t in f x) Q"
  by simp
subsection \<open>Intrusive linked lists\<close>

text \<open>
  \<open>chain l h xs\<close>: following the link field \<open>l\<close> from the head \<open>h\<close> visits exactly
  \<open>xs\<close>. The last element's link is null, or points back to the element itself: the page
  allocator uses such a self link to mark a page as free although the list was empty.
\<close>

fun chain :: "('a \<Rightarrow> 'a option) \<Rightarrow> 'a option \<Rightarrow> 'a list \<Rightarrow> bool" where
  "chain l h [] = (h = None)"
| "chain l h [x] = (h = Some x \<and> (l x = None \<or> l x = Some x))"
| "chain l h (x # y # zs) = (h = Some x \<and> chain l (l x) (y # zs))"

lemma chain_head: "chain l h (x # xs) \<Longrightarrow> h = Some x"
  by (cases xs) auto

lemma chain_None [simp]: "chain l None xs \<longleftrightarrow> xs = []"
  by (induction l "None :: 'a option" xs rule: chain.induct) auto

lemma chain_cong:
  "(\<And>x. x \<in> set xs \<Longrightarrow> l x = l' x) \<Longrightarrow> chain l h xs = chain l' h xs"
  by (induction l h xs rule: chain.induct) auto

lemma chain_upd [simp]: "a \<notin> set xs \<Longrightarrow> chain (l(a := v)) h xs = chain l h xs"
  by (rule chain_cong) auto

lemma chain_tail:
  assumes "chain l h (x # xs)" and "distinct (x # xs)"
  shows "chain l (if l x = Some x then None else l x) xs"
proof (cases xs)
  case Nil
  with assms show ?thesis by auto
next
  case (Cons y ys)
  with assms have "chain l (l x) (y # ys)" by simp
  then have "l x = Some y" by (rule chain_head)
  with Cons assms show ?thesis by auto
qed

lemma chain_cons:
  assumes "chain l h xs" and "x \<notin> set xs"
  shows "chain (l(x := if h = None then Some x else h)) (Some x) (x # xs)"
  using assms by (cases xs) (auto simp: chain_head)

lemma chain_iff:
  "chain l h xs \<longleftrightarrow>
     (if xs = [] then h = None
      else h = Some (hd xs) \<and> successively (\<lambda>x y. l x = Some y) xs \<and>
           (l (last xs) = None \<or> l (last xs) = Some (last xs)))"
  by (induction l h xs rule: chain.induct) (auto simp: chain_head)

lemma successively_link_upd:
  "distinct xs \<Longrightarrow> successively (\<lambda>x y. l x = Some y) xs \<Longrightarrow> b \<notin> set (butlast xs) \<Longrightarrow>
   successively (\<lambda>x y. (l(b := v)) x = Some y) xs"
  by (induction xs rule: induct_list012) (auto split: if_splits)

subsection \<open>Pools of resources\<close>

text \<open>
  The contract of an allocator that hands out the elements of a stack: \<open>view s xs\<close> says
  that in state \<open>s\<close> the free elements are \<open>xs\<close>, top first; \<open>idle s x\<close> that \<open>x\<close> is
  not in use and may be given back. \<open>pops\<close> takes \<open>n\<close> elements in a row.
\<close>

primrec pops ::
  "('s \<Rightarrow> ('a option \<times> 's) option) \<Rightarrow> nat \<Rightarrow> 's \<Rightarrow> ('a option list \<times> 's) option" where
  "pops pop 0 s = Some ([], s)"
| "pops pop (Suc n) s =
     do { (x, s1) \<leftarrow> pop s; (xs, s2) \<leftarrow> pops pop n s1; Some (x # xs, s2) }"

locale free_stack =
  fixes view :: "'s \<Rightarrow> 'a list \<Rightarrow> bool"
    and pop :: "'s \<Rightarrow> ('a option \<times> 's) option"
    and push :: "'s \<Rightarrow> 'a \<Rightarrow> 's option"
    and idle :: "'s \<Rightarrow> 'a \<Rightarrow> bool"
  assumes view_distinct: "view s xs \<Longrightarrow> distinct xs"
    and pop_nil: "view s [] \<Longrightarrow> pop s = Some (None, s)"
    and pop_cons: "view s (x # xs) \<Longrightarrow>
      \<exists>s'. pop s = Some (Some x, s') \<and> view s' xs \<and> idle s' x"
    and push_view: "view s xs \<Longrightarrow> idle s x \<Longrightarrow> x \<notin> set xs \<Longrightarrow>
      \<exists>s'. push s x = Some s' \<and> view s' (x # xs)"
begin

text \<open>Taking \<open>n\<close> elements yields the top \<open>n\<close>, all different, then null pointers.\<close>

lemma pops_view:
  "view s xs \<Longrightarrow>
   \<exists>s'. pops pop n s = Some (map Some (take n xs) @ replicate (n - length xs) None, s') \<and>
        view s' (drop n xs)"
proof (induction n arbitrary: s xs)
  case 0
  then show ?case by simp
next
  case (Suc n)
  show ?case
  proof (cases xs)
    case Nil
    then obtain s' where "pops pop n s = Some (replicate n None, s')" "view s' []"
      using Suc.IH [OF Suc.prems] by auto
    with Suc.prems Nil show ?thesis by (simp add: pop_nil)
  next
    case (Cons x ys)
    then obtain s1 where "pop s = Some (Some x, s1)" "view s1 ys"
      using pop_cons Suc.prems by blast
    with Suc.IH [of s1 ys] Cons show ?thesis by auto
  qed
qed

text \<open>An element given back is the next one handed out.\<close>

lemma push_pop:
  assumes "view s xs" "idle s x" "x \<notin> set xs"
  shows "\<exists>s1 s2. push s x = Some s1 \<and> pop s1 = Some (Some x, s2) \<and> view s2 xs"
  using push_view [OF assms] pop_cons by metis

text \<open>Taking an element and giving it back restores the pool.\<close>

lemma pop_push:
  assumes "view s (x # xs)"
  shows "\<exists>s1 s2. pop s = Some (Some x, s1) \<and> push s1 x = Some s2 \<and> view s2 (x # xs)"
proof -
  obtain s1 where "pop s = Some (Some x, s1)" "view s1 xs" "idle s1 x"
    using pop_cons [OF assms] by blast
  moreover have "x \<notin> set xs"
    using view_distinct [OF assms] by simp
  ultimately show ?thesis
    using push_view by blast
qed

end

end
