(* ===== verification/Mmu.thy ===== *)
theory Mmu
  imports JOS_Prelude
begin

section \<open>Linear addresses, page table entries and the memory layout\<close>

text \<open>
  The macros and constants of \<^verbatim>\<open>inc/mmu.h\<close> and \<^verbatim>\<open>inc/memlayout.h\<close>: how a linear
  address decomposes into four 9-bit table indices and a 12-bit offset, how an entry
  decomposes into a physical address and 12 flag bits, and where the regions of the virtual
  address space lie. The lemmas show that the decompositions are lossless.
\<close>

subsection \<open>Sizes, shifts and flags (\<^verbatim>\<open>inc/mmu.h\<close>)\<close>

definition NPMLENTRIES :: nat where [simp]: "NPMLENTRIES = 512"
definition NPTENTRIES :: nat where [simp]: "NPTENTRIES = 512"
definition PGSIZE :: u64 where [simp]: "PGSIZE = 4096"
definition PTSIZE :: u64 where [simp]: "PTSIZE = PGSIZE * 512"

definition PTE_P :: u64 where [simp]: "PTE_P = 0x001"
definition PTE_W :: u64 where [simp]: "PTE_W = 0x002"
definition PTE_U :: u64 where [simp]: "PTE_U = 0x004"
definition PTE_PWT :: u64 where [simp]: "PTE_PWT = 0x008"
definition PTE_PCD :: u64 where [simp]: "PTE_PCD = 0x010"
definition PTE_D :: u64 where [simp]: "PTE_D = 0x040"
definition PTE_AVAIL :: u64 where [simp]: "PTE_AVAIL = 0xE00"
definition PTE_SYSCALL :: u64 where [simp]: "PTE_SYSCALL = 0xE07"
definition PTE_USER :: u64 where [simp]: "PTE_USER = 0xE07"

lemma PTE_SYSCALL_flags: "PTE_SYSCALL = (PTE_AVAIL OR PTE_P OR PTE_W OR PTE_U)"
  by simp

subsection \<open>Address decomposition (\<^verbatim>\<open>inc/mmu.h\<close>)\<close>

definition PPN :: "u64 \<Rightarrow> u64" where "PPN pa = drop_bit 12 pa"
definition VPD :: "u64 \<Rightarrow> u64" where "VPD la = drop_bit 21 la"
definition VPDPE :: "u64 \<Rightarrow> u64" where "VPDPE la = drop_bit 30 la"
definition VPML4E :: "u64 \<Rightarrow> u64" where "VPML4E la = drop_bit 39 la"
definition PML4 :: "u64 \<Rightarrow> u64" where "PML4 la = drop_bit 39 la AND 0x1FF"
definition PDPE :: "u64 \<Rightarrow> u64" where "PDPE la = drop_bit 30 la AND 0x1FF"
definition PDX :: "u64 \<Rightarrow> u64" where "PDX la = drop_bit 21 la AND 0x1FF"
definition PTX :: "u64 \<Rightarrow> u64" where "PTX la = drop_bit 12 la AND 0x1FF"
definition PGOFF :: "u64 \<Rightarrow> u64" where "PGOFF la = la AND 0xFFF"

definition PGADDR :: "u64 \<Rightarrow> u64 \<Rightarrow> u64 \<Rightarrow> u64 \<Rightarrow> u64 \<Rightarrow> u64" where
  "PGADDR m p d t off =
     push_bit 39 m OR push_bit 30 p OR push_bit 21 d OR push_bit 12 t OR off"

definition PTE_ADDR :: "u64 \<Rightarrow> u64" where
  "PTE_ADDR pte = pte AND NOT 0xFFF"

subsection \<open>Memory layout (\<^verbatim>\<open>inc/memlayout.h\<close>)\<close>

definition KERNBASE :: u64 where [simp]: "KERNBASE = 0x8004000000"
definition IOPHYSMEM :: u64 where [simp]: "IOPHYSMEM = 0x0A0000"
definition EXTPHYSMEM :: u64 where [simp]: "EXTPHYSMEM = 0x100000"
definition KSTACKTOP :: u64 where [simp]: "KSTACKTOP = KERNBASE"
definition KSTKSIZE :: u64 where [simp]: "KSTKSIZE = 16 * PGSIZE"
definition KSTKGAP :: u64 where [simp]: "KSTKGAP = 8 * PGSIZE"
definition MMIOLIM :: u64 where [simp]: "MMIOLIM = KSTACKTOP - PTSIZE"
definition MMIOBASE :: u64 where [simp]: "MMIOBASE = MMIOLIM - PTSIZE"
definition ULIM :: u64 where [simp]: "ULIM = MMIOBASE"
definition UVPT :: u64 where [simp]: "UVPT = 0x10000000000"
definition UPAGES :: u64 where [simp]: "UPAGES = ULIM - 25 * PTSIZE"
definition UENVS :: u64 where [simp]: "UENVS = UPAGES - PTSIZE"
definition UTOP :: u64 where [simp]: "UTOP = UENVS"
definition UXSTACKTOP :: u64 where [simp]: "UXSTACKTOP = 0xef800000"
definition USTACKTOP :: u64 where [simp]: "USTACKTOP = UXSTACKTOP - 2 * PGSIZE"
definition UTEMP :: u64 where [simp]: "UTEMP = 2 * PTSIZE"
definition PFTEMP :: u64 where [simp]: "PFTEMP = UTEMP + PTSIZE - PGSIZE"
definition GD_KT :: u64 where [simp]: "GD_KT = 0x08"
definition GD_KD :: u64 where [simp]: "GD_KD = 0x10"
definition GD_UT :: u64 where [simp]: "GD_UT = 0x18"
definition GD_UD :: u64 where [simp]: "GD_UD = 0x20"
definition GD_TSS0 :: u64 where [simp]: "GD_TSS0 = 0x28"
definition MPENTRY_PADDR :: u64 where [simp]: "MPENTRY_PADDR = 0x7000"

subsection \<open>Page frames\<close>

text \<open>
  The kernel identifies the physical page with number \<open>f\<close> by its \<^verbatim>\<open>struct PageInfo\<close>
  \<^verbatim>\<open>pages[f]\<close>, by its physical address \<open>page2pa f\<close> and by the kernel virtual address
  \<open>KERNBASE + page2pa f\<close>. The model names all three by the number \<open>f\<close>.
  \<open>pte_frame e\<close> is the frame an entry points to.
\<close>

definition page2pa :: "nat \<Rightarrow> u64" where
  "page2pa f = push_bit 12 (of_nat f)"

definition pte_frame :: "u64 \<Rightarrow> nat" where
  "pte_frame e = unat (PPN (PTE_ADDR e))"

subsection \<open>Lemmas: addresses\<close>

lemma bit_indices:
  "bit (PML4 la) n \<longleftrightarrow> n < 9 \<and> bit la (39 + n)"
  "bit (PDPE la) n \<longleftrightarrow> n < 9 \<and> bit la (30 + n)"
  "bit (PDX la) n \<longleftrightarrow> n < 9 \<and> bit la (21 + n)"
  "bit (PTX la) n \<longleftrightarrow> n < 9 \<and> bit la (12 + n)"
  "bit (PGOFF la) n \<longleftrightarrow> n < 12 \<and> bit la n"
  unfolding PML4_def PDPE_def PDX_def PTX_def PGOFF_def and_0x1FF and_0xFFF
  by (simp_all add: bit_simps)

lemma bit_PGADDR:
  "bit (PGADDR m p d t off) n \<longleftrightarrow> n < 64 \<and>
     (39 \<le> n \<and> bit m (n - 39) \<or> 30 \<le> n \<and> bit p (n - 30) \<or> 21 \<le> n \<and> bit d (n - 21) \<or>
      12 \<le> n \<and> bit t (n - 12) \<or> bit off n)"
  unfolding PGADDR_def by (auto simp: bit_simps dest: bit_imp_le_length)

lemma index_bounds [simp]:
  "unat (PML4 la) < 512" "unat (PDPE la) < 512" "unat (PDX la) < 512" "unat (PTX la) < 512"
  "unat (PGOFF la) < 4096"
  unfolding PML4_def PDPE_def PDX_def PTX_def PGOFF_def and_0x1FF and_0xFFF
  using unat_take_bit_less [of 9] unat_take_bit_less [of 12] by simp_all

lemma PGADDR_decompose:
  assumes "la < 2 ^ 48"
  shows "PGADDR (PML4 la) (PDPE la) (PDX la) (PTX la) (PGOFF la) = la"
proof (rule bit_word_eqI)
  fix n assume "n < LENGTH(64)"
  then have n: "n < 64" by simp
  have "unat la < 2 ^ 48"
    using assms by (simp add: word_less_nat_alt)
  then have hi: "\<not> bit la n" if "48 \<le> n"
    using that bit_hi_zero by blast
  consider "n < 12" | "12 \<le> n" "n < 21" | "21 \<le> n" "n < 30" | "30 \<le> n" "n < 39"
    | "39 \<le> n" "n < 48" | "48 \<le> n"
    by linarith
  then show "bit (PGADDR (PML4 la) (PDPE la) (PDX la) (PTX la) (PGOFF la)) n = bit la n"
    by cases (use n hi in \<open>auto simp add: bit_PGADDR bit_indices\<close>)
qed

lemma indices_PGADDR:
  assumes "unat m < 512" "unat p < 512" "unat d < 512" "unat t < 512" "unat off < 4096"
  shows "PML4 (PGADDR m p d t off) = m" "PDPE (PGADDR m p d t off) = p"
    "PDX (PGADDR m p d t off) = d" "PTX (PGADDR m p d t off) = t"
    "PGOFF (PGADDR m p d t off) = off"
proof -
  have hi: "\<And>n. 9 \<le> n \<Longrightarrow> \<not> bit m n" "\<And>n. 9 \<le> n \<Longrightarrow> \<not> bit p n"
    "\<And>n. 9 \<le> n \<Longrightarrow> \<not> bit d n" "\<And>n. 9 \<le> n \<Longrightarrow> \<not> bit t n"
    "\<And>n. 12 \<le> n \<Longrightarrow> \<not> bit off n"
    using assms bit_hi_zero [of _ 9] bit_hi_zero [of _ 12] by simp_all
  show "PML4 (PGADDR m p d t off) = m"
    using hi(1) by (intro bit_word_eqI) (auto simp: bit_indices bit_PGADDR hi intro: ccontr)
  show "PDPE (PGADDR m p d t off) = p"
    using hi(2) by (intro bit_word_eqI) (auto simp: bit_indices bit_PGADDR hi intro: ccontr)
  show "PDX (PGADDR m p d t off) = d"
    using hi(3) by (intro bit_word_eqI) (auto simp: bit_indices bit_PGADDR hi intro: ccontr)
  show "PTX (PGADDR m p d t off) = t"
    using hi(4) by (intro bit_word_eqI) (auto simp: bit_indices bit_PGADDR hi intro: ccontr)
  show "PGOFF (PGADDR m p d t off) = off"
    using hi(5) by (intro bit_word_eqI) (auto simp: bit_indices bit_PGADDR hi intro: ccontr)
qed

subsection \<open>Lemmas: entries\<close>

lemma bit_PTE_ADDR: "bit (PTE_ADDR e) n \<longleftrightarrow> 12 \<le> n \<and> bit e n"
proof -
  have mask: "(0xFFF :: u64) = mask 12"
    by (simp add: mask_eq_exp_minus_1)
  show ?thesis
    unfolding PTE_ADDR_def mask by (auto simp: bit_simps not_less dest: bit_imp_le_length)
qed

lemma bit_page2pa: "bit (page2pa f) n \<longleftrightarrow> 12 \<le> n \<and> n < 64 \<and> bit f (n - 12)"
  by (auto simp: page2pa_def bit_simps)

lemma PTE_ADDR_idem [simp]: "PTE_ADDR (PTE_ADDR e) = PTE_ADDR e"
  by (rule bit_word_eqI) (simp add: bit_PTE_ADDR)

lemma PTE_ADDR_0 [simp]: "PTE_ADDR 0 = 0"
  by (simp add: PTE_ADDR_def)

lemma PTE_ADDR_or:
  assumes "unat x < 4096"
  shows "PTE_ADDR (a OR x) = PTE_ADDR a"
  using bit_hi_zero [of x 12] assms
  by (intro bit_word_eqI) (auto simp: bit_PTE_ADDR bit_simps)

lemma PTE_ADDR_page2pa [simp]: "PTE_ADDR (page2pa f) = page2pa f"
  by (rule bit_word_eqI) (auto simp: bit_PTE_ADDR bit_page2pa)

lemma unat_PPN_page2pa:
  assumes "f < 2 ^ 52"
  shows "unat (PPN (page2pa f)) = f"
proof -
  have "unat (of_nat f :: u64) = f"
    using assms by (simp add: unat_of_nat)
  moreover from this have "PPN (page2pa f) = of_nat f"
    using bit_hi_zero [of "of_nat f" 52] assms
    by (intro bit_word_eqI) (auto simp: PPN_def page2pa_def bit_simps intro: ccontr)
  ultimately show ?thesis by simp
qed

lemma pte_frame_0 [simp]: "pte_frame 0 = 0"
  by (simp add: pte_frame_def PPN_def)

lemma pte_frame_PTE_ADDR [simp]: "pte_frame (PTE_ADDR e) = pte_frame e"
  by (simp add: pte_frame_def)

lemma pte_frame_or: "unat x < 4096 \<Longrightarrow> pte_frame (a OR x) = pte_frame a"
  by (simp add: pte_frame_def PTE_ADDR_or)

lemma pte_frame_page2pa: "f < 2 ^ 52 \<Longrightarrow> pte_frame (page2pa f) = f"
  by (simp add: pte_frame_def unat_PPN_page2pa)

lemma pte_frame_less: "pte_frame e < 2 ^ 52"
proof -
  have "PPN (PTE_ADDR e) = take_bit 52 (PPN (PTE_ADDR e))"
    by (rule bit_word_eqI) (auto simp: PPN_def bit_simps dest: bit_imp_le_length)
  then show ?thesis
    unfolding pte_frame_def using unat_take_bit_less by metis
qed

lemma page2pa_pte_frame: "page2pa (pte_frame e) = PTE_ADDR e"
  by (rule bit_word_eqI)
    (auto simp: pte_frame_def page2pa_def PPN_def bit_simps bit_PTE_ADDR dest: bit_imp_le_length)

lemma page2pa_inj: "f < 2 ^ 52 \<Longrightarrow> g < 2 ^ 52 \<Longrightarrow> page2pa f = page2pa g \<longleftrightarrow> f = g"
  by (metis unat_PPN_page2pa)

lemma unat_or_less_4096:
  assumes "unat (x :: u64) < 4096" and "unat y < 4096"
  shows "unat (x OR y) < 4096"
proof -
  have "take_bit 12 (x OR y) = x OR y"
    using bit_hi_zero [of x 12] bit_hi_zero [of y 12] assms
    by (intro bit_word_eqI) (auto simp: bit_simps intro: ccontr)
  then show ?thesis
    using unat_take_bit_less [of 12 "x OR y"] by simp
qed

end
