(* ===== verification/Console.thy ===== *)
theory Console
  imports JOS_Prelude
begin

section \<open>The console\<close>

text \<open>
  \<^verbatim>\<open>kern/console.c\<close>: the text screen, the keyboard decoder and the circular input buffer, and
  the line editor of \<^verbatim>\<open>lib/readline.c\<close>. The devices are fields of the record: the bytes that
  wait in the serial port and the scan codes that wait in the keyboard controller, and the
  bytes written to the serial and the parallel port. Waiting for a device to become
  ready has no effect on the state.
\<close>

definition CRT_ROWS :: nat where [simp]: "CRT_ROWS = 25"
definition CRT_COLS :: nat where [simp]: "CRT_COLS = 80"
definition CRT_SIZE :: nat where [simp]: "CRT_SIZE = CRT_ROWS * CRT_COLS"
definition CONSBUFSIZE :: u32 where [simp]: "CONSBUFSIZE = 512"

record console =
  crt_buf :: "nat \<Rightarrow> u16"
  crt_pos :: u16
  crt_cursor :: u16
  kbd_shift :: u32
  rebooting :: bool
  cbuf :: "nat \<Rightarrow> u8"
  cons_rpos :: u32
  cons_wpos :: u32
  serial_exists :: bool
  serial_in :: "u8 list"
  kbd_in :: "u8 list"
  serial_out :: "u8 list"
  lpt_out :: "u8 list"

definition zero_console :: console where
  "zero_console = \<lparr>crt_buf = (\<lambda>_. 0), crt_pos = 0, crt_cursor = 0, kbd_shift = 0, rebooting = False,
     cbuf = (\<lambda>_. 0), cons_rpos = 0, cons_wpos = 0, serial_exists = False, serial_in = [], kbd_in = [],
     serial_out = [], lpt_out = []\<rparr>"

subsection \<open>Output\<close>

definition serial_putc :: "u32 \<Rightarrow> console \<Rightarrow> console" where
  "serial_putc c d = d\<lparr>serial_out := serial_out d @ [ucast c]\<rparr>"

definition lpt_putc :: "u32 \<Rightarrow> console \<Rightarrow> console" where
  "lpt_putc c d = d\<lparr>lpt_out := lpt_out d @ [ucast c]\<rparr>"

text \<open>The end of \<^verbatim>\<open>cga_putc\<close>: scroll if the position has left the screen, and move the cursor.\<close>

definition cga_scroll :: "console \<Rightarrow> console" where
  "cga_scroll d =
     (let d1 = (if unat (crt_pos d) \<ge> CRT_SIZE
                then d\<lparr>crt_buf := (\<lambda>i. if i < CRT_SIZE - CRT_COLS then crt_buf d (i + CRT_COLS)
                                       else if i < CRT_SIZE then 0x0700 OR 0x20 else crt_buf d i),
                       crt_pos := crt_pos d - of_nat CRT_COLS\<rparr>
                else d)
      in d1\<lparr>crt_cursor := crt_pos d1\<rparr>)"

definition cga_attr :: "u32 \<Rightarrow> u32" where
  "cga_attr c = (if c AND NOT 0xFF = 0 then c OR 0x0700 else c)"

definition cga_char :: "u32 \<Rightarrow> console \<Rightarrow> console" where
  "cga_char c d =
     (let c = cga_attr c; ch = c AND 0xFF
      in if ch = 8 then
           (if crt_pos d > 0
            then d\<lparr>crt_pos := crt_pos d - 1,
                   crt_buf := (crt_buf d)(unat (crt_pos d - 1) := ucast ((c AND NOT 0xFF) OR 0x20))\<rparr>
            else d)
         else if ch = 10 then
           (let p = crt_pos d + of_nat CRT_COLS in d\<lparr>crt_pos := p - p mod of_nat CRT_COLS\<rparr>)
         else if ch = 13 then
           d\<lparr>crt_pos := crt_pos d - crt_pos d mod of_nat CRT_COLS\<rparr>
         else
           d\<lparr>crt_buf := (crt_buf d)(unat (crt_pos d) := ucast c), crt_pos := crt_pos d + 1\<rparr>)"

text \<open>
  The tab character calls \<^verbatim>\<open>cons_putc(' ')\<close> five times, which is not recursive any further.
\<close>

definition cons_put_space :: "console \<Rightarrow> console" where
  "cons_put_space d = cga_scroll (cga_char 0x20 (lpt_putc 0x20 (serial_putc 0x20 d)))"

definition cga_putc :: "u32 \<Rightarrow> console \<Rightarrow> console" where
  "cga_putc c d =
     cga_scroll (if c AND 0xFF = 9 then (cons_put_space ^^ 5) d else cga_char c d)"

definition cons_putc :: "u32 \<Rightarrow> console \<Rightarrow> console" where
  "cons_putc c d = cga_putc c (lpt_putc c (serial_putc c d))"

definition cputchar :: "u32 \<Rightarrow> console \<Rightarrow> console" where
  "cputchar c d = cons_putc c d"

subsection \<open>Keyboard\<close>

definition SHIFT :: u32 where [simp]: "SHIFT = 1"
definition CTL :: u32 where [simp]: "CTL = 2"
definition ALT :: u32 where [simp]: "ALT = 4"
definition CAPSLOCK :: u32 where [simp]: "CAPSLOCK = 8"
definition NUMLOCK :: u32 where [simp]: "NUMLOCK = 16"
definition SCROLLLOCK :: u32 where [simp]: "SCROLLLOCK = 32"
definition E0ESC :: u32 where [simp]: "E0ESC = 64"
definition KEY_DEL :: u8 where [simp]: "KEY_DEL = 0xE9"

definition shiftcode :: "u8 \<Rightarrow> u32" where
  "shiftcode k =
     (if k = 0x1D \<or> k = 0x9D then CTL else if k = 0x2A \<or> k = 0x36 then SHIFT
      else if k = 0x38 \<or> k = 0xB8 then ALT else 0)"

definition togglecode :: "u8 \<Rightarrow> u32" where
  "togglecode k =
     (if k = 0x3A then CAPSLOCK else if k = 0x45 then NUMLOCK else if k = 0x46 then SCROLLLOCK else 0)"

text \<open>The key tables: the codes from 0 on, and the extended keys, which are the same for
  the normal and the shifted table.\<close>

definition extended_keys :: "u8 \<rightharpoonup> u8" where
  "extended_keys = map_of [(0xC7, 0xE0), (0x9C, 10), (0xB5, 0x2F), (0xC8, 0xE2), (0xC9, 0xE6), (0xCB, 0xE4),
     (0xCD, 0xE5), (0xCF, 0xE1), (0xD0, 0xE3), (0xD1, 0xE7), (0xD2, 0xE8), (0xD3, KEY_DEL)]"

definition chars :: "string \<Rightarrow> u8 list" where
  "chars cs = map of_char cs"

definition key_table :: "u8 list \<Rightarrow> (u8 \<rightharpoonup> u8) \<Rightarrow> u8 \<Rightarrow> u8" where
  "key_table keys ext k =
     (case ext k of Some c \<Rightarrow> c | None \<Rightarrow> if unat k < length keys then keys ! unat k else 0)"

definition normalmap :: "u8 \<Rightarrow> u8" where
  "normalmap = key_table
     ([0, 0x1B] @ chars ''1234567890-='' @ [8, 9] @ chars ''qwertyuiop[]'' @ [10, 0] @
      chars ''asdfghjkl;'' @ [39] @ chars ''`'' @ [0, 92] @ chars ''zxcvbnm,./'' @ [0] @ chars ''*'' @
      [0] @ chars '' '' @ replicate 13 0 @ chars ''789-456+1230.'') extended_keys"

definition shiftmap :: "u8 \<Rightarrow> u8" where
  "shiftmap = key_table
     ([0, 0x1B] @ chars ''!@#$%^&*()_+'' @ [8, 9] @ chars ''QWERTYUIOP{}'' @ [10, 0] @
      chars ''ASDFGHJKL:'' @ [34] @ chars ''~'' @ [0] @ chars ''|'' @ chars ''ZXCVBNM<>?'' @ [0] @ chars ''*'' @
      [0] @ chars '' '' @ replicate 13 0 @ chars ''789-456+1230.'') extended_keys"

definition ctl_key :: "u8 \<Rightarrow> u8" where
  "ctl_key x = x - 64"

definition ctlmap :: "u8 \<Rightarrow> u8" where
  "ctlmap = key_table
     (replicate 16 0 @ map ctl_key (chars ''QWERTYUIOP'') @ [0, 0, 13, 0] @ map ctl_key (chars ''ASDFGHJKL'') @
      [0, 0, 0, 0, ctl_key 92] @ map ctl_key (chars ''ZXCVBNM'') @ [0, 0, ctl_key 0x2F, 0, 0])
     (map_of [(0x97, 0xE0), (0xB5, ctl_key 0x2F), (0xC8, 0xE2), (0xC9, 0xE6), (0xCB, 0xE4), (0xCD, 0xE5),
        (0xCF, 0xE1), (0xD0, 0xE3), (0xD1, 0xE7), (0xD2, 0xE8), (0xD3, KEY_DEL)])"

definition charcode :: "u32 \<Rightarrow> u8 \<Rightarrow> u8" where
  "charcode sh = (if sh = 0 then normalmap else if sh = 1 then shiftmap else ctlmap)"

text \<open>\<open>None\<close> is the result \<open>-1\<close>: no data.\<close>

definition kbd_proc_data :: "console \<Rightarrow> u8 option \<times> console" where
  "kbd_proc_data d =
     (case kbd_in d of
        [] \<Rightarrow> (None, d)
      | data # rest \<Rightarrow>
          let d = d\<lparr>kbd_in := rest\<rparr>; shift = kbd_shift d
          in if data = 0xE0 then (Some 0, d\<lparr>kbd_shift := shift OR E0ESC\<rparr>)
             else if data AND 0x80 \<noteq> 0 then
               let data = (if shift AND E0ESC \<noteq> 0 then data else data AND 0x7F)
               in (Some 0, d\<lparr>kbd_shift := shift AND NOT (shiftcode data OR E0ESC)\<rparr>)
             else
               let (data, shift) = (if shift AND E0ESC \<noteq> 0 then (data OR 0x80, shift AND NOT E0ESC)
                                    else (data, shift));
                   shift = (shift OR shiftcode data) XOR togglecode data;
                   c = charcode (shift AND (CTL OR SHIFT)) data;
                   c = (if shift AND CAPSLOCK \<noteq> 0
                        then if 0x61 \<le> c \<and> c \<le> 0x7A then c - 32
                             else if 0x41 \<le> c \<and> c \<le> 0x5A then c + 32 else c
                        else c);
                   d = d\<lparr>kbd_shift := shift\<rparr>
               in (Some c, if NOT shift AND (CTL OR ALT) = 0 \<and> c = KEY_DEL then d\<lparr>rebooting := True\<rparr> else d))"

definition serial_proc_data :: "console \<Rightarrow> u8 option \<times> console" where
  "serial_proc_data d =
     (case serial_in d of [] \<Rightarrow> (None, d) | c # rest \<Rightarrow> (Some c, d\<lparr>serial_in := rest\<rparr>))"

subsection \<open>The input buffer\<close>

definition cons_store :: "u8 \<Rightarrow> console \<Rightarrow> console" where
  "cons_store c d =
     (if c = 0 then d
      else
        let d1 = d\<lparr>cbuf := (cbuf d)(unat (cons_wpos d) := c), cons_wpos := cons_wpos d + 1\<rparr>
        in if cons_wpos d1 = CONSBUFSIZE then d1\<lparr>cons_wpos := 0\<rparr> else d1)"

text \<open>
  The loop of \<^verbatim>\<open>cons_intr\<close> takes at most \<open>n\<close> characters. Each call of the device function takes
  one from the device's queue, so that the length of the queue is enough.
\<close>

primrec cons_intr :: "nat \<Rightarrow> (console \<Rightarrow> u8 option \<times> console) \<Rightarrow> console \<Rightarrow> console" where
  "cons_intr 0 proc d = d"
| "cons_intr (Suc n) proc d =
     (case proc d of
        (None, d1) \<Rightarrow> d1
      | (Some c, d1) \<Rightarrow> cons_intr n proc (cons_store c d1))"

definition serial_intr :: "console \<Rightarrow> console" where
  "serial_intr d =
     (if serial_exists d then cons_intr (Suc (length (serial_in d))) serial_proc_data d else d)"

definition kbd_intr :: "console \<Rightarrow> console" where
  "kbd_intr d = cons_intr (Suc (length (kbd_in d))) kbd_proc_data d"

definition cons_take :: "console \<Rightarrow> u8 \<times> console" where
  "cons_take d =
     (if cons_rpos d \<noteq> cons_wpos d
      then
        let c = cbuf d (unat (cons_rpos d));
            d1 = d\<lparr>cons_rpos := cons_rpos d + 1\<rparr>
        in (c, if cons_rpos d1 = CONSBUFSIZE then d1\<lparr>cons_rpos := 0\<rparr> else d1)
      else (0, d))"

definition cons_getc :: "console \<Rightarrow> u8 \<times> console" where
  "cons_getc d = cons_take (kbd_intr (serial_intr d))"

subsection \<open>Line input\<close>

text \<open>
  \<open>readline\<close> on the characters that \<^verbatim>\<open>getchar\<close> returns (negative numbers are errors): the
  line, or \<open>None\<close> for the null pointer, with the characters echoed and the input left. The
  whole is \<open>None\<close> while the input has no end of line. The buffer holds the line so far
  in reverse; \<^verbatim>\<open>BUFLEN\<close> is 1024.
\<close>

definition BUFLEN :: nat where [simp]: "BUFLEN = 1024"

fun readline :: "int list \<Rightarrow> int list \<Rightarrow> int list \<Rightarrow> (int list option \<times> int list \<times> int list) option" where
  "readline [] buf echo = None"
| "readline (c # cs) buf echo =
     (if c < 0 then Some (None, echo, cs)
      else if (c = 8 \<or> c = 0x7F) \<and> buf \<noteq> [] then readline cs (tl buf) (echo @ [8])
      else if c \<ge> 32 \<and> length buf < BUFLEN - 1 then readline cs (c # buf) (echo @ [c])
      else if c = 10 \<or> c = 13 then Some (Some (rev buf), echo @ [10], cs)
      else readline cs buf echo)"

end
