(* ===== verification/Kern_State.thy ===== *)
theory Kern_State
  imports Mmu Console
begin

section \<open>Kernel data structures\<close>

text \<open>
  The structures of the kernel headers as records and the kernel's global variables as one
  record \<open>kern\<close>.
  \<^item> A pointer to a \<^verbatim>\<open>struct PageInfo\<close> or a \<^verbatim>\<open>struct Env\<close> is its index in the array
    \<^verbatim>\<open>pages\<close> or \<^verbatim>\<open>envs\<close>; a pointer that may be null is an \<open>option\<close>.
  \<^item> A kernel virtual address of a physical page is the number of its frame (the kernel maps
    all physical memory at \<open>KERNBASE\<close>). Physical memory \<open>pmem f i\<close> is the 64-bit word in
    slot \<open>i\<close> (0 to 511) of frame \<open>f\<close>: page tables live there, so that two tables that
    share a frame share its contents.
  \<^item> The configuration has one CPU (\<^verbatim>\<open>NCPU\<close> is 1), whose \<^verbatim>\<open>struct CpuInfo\<close> fields are
    fields of the state (\<open>curenv\<close> is \<^verbatim>\<open>thiscpu->cpu_env\<close>).
  \<^item> Control registers and model-specific registers are fields of the state, as is the VMCS
    data that the processor keeps for each VMCS page; \<open>port_iortc\<close> is the static variable of
    \<^verbatim>\<open>handle_ioinstr\<close> in \<^verbatim>\<open>vmm/vmexits.c\<close>.
  \<^item> \<open>kcons\<close> is the console. Diagnostic messages of the kernel itself are not modelled, only
    what a program prints.
  \<^item> The effect of \<^verbatim>\<open>lcr3\<close> is the field \<open>cpu_cr3\<close>, that of \<^verbatim>\<open>invlpg\<close> the list
    \<open>tlb_flushes\<close> of flushed addresses, newest first.
\<close>

subsection \<open>Pages (\<^verbatim>\<open>inc/memlayout.h\<close>)\<close>

record PageInfo =
  pp_link :: "nat option"
  pp_ref :: u16

subsection \<open>Trap frames (\<^verbatim>\<open>inc/trap.h\<close>)\<close>

record PushRegs =
  reg_r15 :: u64
  reg_r14 :: u64
  reg_r13 :: u64
  reg_r12 :: u64
  reg_r11 :: u64
  reg_r10 :: u64
  reg_r9 :: u64
  reg_r8 :: u64
  reg_rsi :: u64
  reg_rdi :: u64
  reg_rbp :: u64
  reg_rdx :: u64
  reg_rcx :: u64
  reg_rbx :: u64
  reg_rax :: u64

record Trapframe =
  tf_regs :: PushRegs
  tf_es :: u16
  tf_ds :: u16
  tf_trapno :: u64
  tf_err :: u64
  tf_rip :: u64
  tf_cs :: u16
  tf_eflags :: u64
  tf_rsp :: u64
  tf_ss :: u16

definition zero_regs :: PushRegs where
  "zero_regs = \<lparr>reg_r15 = 0, reg_r14 = 0, reg_r13 = 0, reg_r12 = 0, reg_r11 = 0, reg_r10 = 0,
     reg_r9 = 0, reg_r8 = 0, reg_rsi = 0, reg_rdi = 0, reg_rbp = 0, reg_rdx = 0, reg_rcx = 0,
     reg_rbx = 0, reg_rax = 0\<rparr>"

definition zero_tf :: Trapframe where
  "zero_tf = \<lparr>tf_regs = zero_regs, tf_es = 0, tf_ds = 0, tf_trapno = 0, tf_err = 0, tf_rip = 0,
     tf_cs = 0, tf_eflags = 0, tf_rsp = 0, tf_ss = 0\<rparr>"

subsection \<open>Environments (\<^verbatim>\<open>inc/env.h\<close>, \<^verbatim>\<open>inc/vmx.h\<close>)\<close>

definition LOG2NENV :: nat where [simp]: "LOG2NENV = 10"
definition NENV :: nat where [simp]: "NENV = 1024"

definition ENVX :: "envid_t \<Rightarrow> nat" where
  "ENVX envid = unat (envid AND 0x3FF)"

datatype env_status = ENV_FREE | ENV_DYING | ENV_RUNNABLE | ENV_RUNNING | ENV_NOT_RUNNABLE

datatype env_type = ENV_TYPE_USER | ENV_TYPE_FS | ENV_TYPE_NS | ENV_TYPE_GUEST

record VmxGuestInfo =
  phys_sz :: u64
  vmcs :: "nat option"
  exception_bmap :: u32
  io_bmap_a :: "nat option"
  io_bmap_b :: "nat option"
  msr_count :: int
  msr_host_area :: "nat option"
  msr_guest_area :: "(nat \<times> nat) option"

definition zero_vmx :: VmxGuestInfo where
  "zero_vmx = \<lparr>phys_sz = 0, vmcs = None, exception_bmap = 0, io_bmap_a = None,
     io_bmap_b = None, msr_count = 0, msr_host_area = None, msr_guest_area = None\<rparr>"

record Env =
  env_tf :: Trapframe
  env_link :: "nat option"
  env_id :: envid_t
  env_parent_id :: envid_t
  env_type :: env_type
  env_status :: env_status
  env_runs :: u32
  env_cpunum :: int
  env_pml4e :: "nat option"
  env_cr3 :: u64
  env_pgfault_upcall :: u64
  env_ipc_recving :: bool
  env_ipc_dstva :: u64
  env_ipc_value :: u32
  env_ipc_from :: envid_t
  env_ipc_perm :: u32
  env_elf :: "(nat \<Rightarrow> u8) option"
  env_vmxinfo :: VmxGuestInfo

subsection \<open>Global state\<close>

datatype cpu_status = CPU_UNUSED | CPU_STARTED | CPU_HALTED

record kern =
  npages :: nat
  pages :: "nat \<Rightarrow> PageInfo"
  page_free_list :: "nat option"
  pmem :: "nat \<Rightarrow> nat \<Rightarrow> u64"
  nextfree :: u64
  boot_pml4e :: nat
  mmio_base :: u64
  user_mem_check_addr :: u64
  envs :: "nat \<Rightarrow> Env"
  env_free_list :: "nat option"
  curenv :: "nat option"
  cpu_status :: cpu_status
  is_vmx_root :: bool
  cpu_cr3 :: u64
  tlb_flushes :: "u64 list"
  cpu_cr0 :: u64
  cpu_cr4 :: u64
  msrs :: "u32 \<Rightarrow> u64"
  vmxon_region :: "nat option"
  current_vmcs :: "nat option"
  vmcs_data :: "nat \<Rightarrow> u32 \<Rightarrow> u64"
  port_iortc :: u32
  kcons :: console

text \<open>
  The state with all global variables zero, as the loader leaves them, and \<open>n\<close> pages of
  zeroed memory. (Of the enumerations, the first constructors have the value 0.)
\<close>

definition zero_env :: Env where
  "zero_env = \<lparr>env_tf = zero_tf, env_link = None, env_id = 0, env_parent_id = 0,
     env_type = ENV_TYPE_USER, env_status = ENV_FREE, env_runs = 0, env_cpunum = 0, env_pml4e = None, env_cr3 = 0,
     env_pgfault_upcall = 0, env_ipc_recving = False, env_ipc_dstva = 0, env_ipc_value = 0,
     env_ipc_from = 0, env_ipc_perm = 0, env_elf = None, env_vmxinfo = zero_vmx\<rparr>"

definition kern_zero :: "nat \<Rightarrow> kern" where
  "kern_zero n = \<lparr>npages = n, pages = (\<lambda>_. \<lparr>pp_link = None, pp_ref = 0\<rparr>), page_free_list = None,
     pmem = (\<lambda>_ _. 0), nextfree = 0, boot_pml4e = 0, mmio_base = MMIOBASE, user_mem_check_addr = 0,
     envs = (\<lambda>_. zero_env), env_free_list = None, curenv = None, cpu_status = CPU_UNUSED,
     is_vmx_root = False, cpu_cr3 = 0, tlb_flushes = [], cpu_cr0 = 0, cpu_cr4 = 0,
     msrs = (\<lambda>_. 0), vmxon_region = None, current_vmcs = None, vmcs_data = (\<lambda>_ _. 0), port_iortc = 0,
     kcons = zero_console\<rparr>"

subsection \<open>Field updates in place\<close>

text \<open>
  \<open>upd_page\<close>, \<open>upd_env\<close> write a field of one array element; \<open>st\<close> stores a 64-bit
  word; \<open>memset_page\<close> fills a whole frame.
\<close>

definition upd_page :: "nat \<Rightarrow> (PageInfo \<Rightarrow> PageInfo) \<Rightarrow> kern \<Rightarrow> kern" where
  "upd_page p f s = s\<lparr>pages := (pages s)(p := f (pages s p))\<rparr>"

definition upd_env :: "nat \<Rightarrow> (Env \<Rightarrow> Env) \<Rightarrow> kern \<Rightarrow> kern" where
  "upd_env e f s = s\<lparr>envs := (envs s)(e := f (envs s e))\<rparr>"

definition st :: "nat \<Rightarrow> nat \<Rightarrow> u64 \<Rightarrow> kern \<Rightarrow> kern" where
  "st f i v s = s\<lparr>pmem := (pmem s)(f := (pmem s f)(i := v))\<rparr>"

definition memset_page :: "nat \<Rightarrow> u64 \<Rightarrow> kern \<Rightarrow> kern" where
  "memset_page f v s = s\<lparr>pmem := (pmem s)(f := (\<lambda>_. v))\<rparr>"

lemma upd_page_simps [simp]:
  "npages (upd_page p f s) = npages s" "pmem (upd_page p f s) = pmem s"
  "pages (upd_page p f s) = (pages s)(p := f (pages s p))"
  "page_free_list (upd_page p f s) = page_free_list s" "envs (upd_page p f s) = envs s"
  "curenv (upd_page p f s) = curenv s" "env_free_list (upd_page p f s) = env_free_list s"
  "boot_pml4e (upd_page p f s) = boot_pml4e s" "tlb_flushes (upd_page p f s) = tlb_flushes s"
  "nextfree (upd_page p f s) = nextfree s" "mmio_base (upd_page p f s) = mmio_base s"
  by (simp_all add: upd_page_def)

lemma upd_env_simps [simp]:
  "npages (upd_env e f s) = npages s" "pmem (upd_env e f s) = pmem s"
  "pages (upd_env e f s) = pages s" "page_free_list (upd_env e f s) = page_free_list s"
  "envs (upd_env e f s) = (envs s)(e := f (envs s e))" "curenv (upd_env e f s) = curenv s"
  "env_free_list (upd_env e f s) = env_free_list s"
  "boot_pml4e (upd_env e f s) = boot_pml4e s" "tlb_flushes (upd_env e f s) = tlb_flushes s"
  "nextfree (upd_env e f s) = nextfree s" "mmio_base (upd_env e f s) = mmio_base s"
  "cpu_cr3 (upd_env e f s) = cpu_cr3 s"
  by (simp_all add: upd_env_def)

lemma st_simps [simp]:
  "npages (st f i v s) = npages s" "pages (st f i v s) = pages s"
  "pmem (st f i v s) = (pmem s)(f := (pmem s f)(i := v))"
  "page_free_list (st f i v s) = page_free_list s" "envs (st f i v s) = envs s"
  "curenv (st f i v s) = curenv s" "env_free_list (st f i v s) = env_free_list s"
  "boot_pml4e (st f i v s) = boot_pml4e s" "tlb_flushes (st f i v s) = tlb_flushes s"
  "nextfree (st f i v s) = nextfree s" "mmio_base (st f i v s) = mmio_base s"
  by (simp_all add: st_def)

lemma memset_page_simps [simp]:
  "npages (memset_page f v s) = npages s" "pages (memset_page f v s) = pages s"
  "pmem (memset_page f v s) = (pmem s)(f := (\<lambda>_. v))"
  "page_free_list (memset_page f v s) = page_free_list s" "envs (memset_page f v s) = envs s"
  "curenv (memset_page f v s) = curenv s"
  "env_free_list (memset_page f v s) = env_free_list s"
  "boot_pml4e (memset_page f v s) = boot_pml4e s"
  "tlb_flushes (memset_page f v s) = tlb_flushes s"
  "nextfree (memset_page f v s) = nextfree s" "mmio_base (memset_page f v s) = mmio_base s"
  by (simp_all add: memset_page_def)

lemma ENVX_less [simp]: "ENVX e < 1024"
proof -
  have "e AND 0x3FF = take_bit 10 e"
    by (simp add: take_bit_eq_mask mask_eq_exp_minus_1)
  then show ?thesis
    using take_bit_nat_less_exp [of 10 "unat e"]
    by (simp add: ENVX_def unsigned_take_bit_eq)
qed

end
