(* ===== verification/Pmap.thy ===== *)
theory Pmap
  imports Kern_State
begin

section \<open>Physical pages and page tables (\<^verbatim>\<open>kern/pmap.c\<close>, \<^verbatim>\<open>kern/pmap.h\<close>)\<close>

text \<open>
  The physical page allocator (a stack of free pages linked through \<^verbatim>\<open>pp_link\<close>, reference
  counts in \<^verbatim>\<open>pp_ref\<close>) and the four-level page tables above it. Every function takes
  the kernel state and returns \<open>None\<close> if it panics, otherwise the C return value with the new
  state. A \<^verbatim>\<open>pte_t *\<close> is a pair of a frame and a slot in it.
\<close>

subsection \<open>Address translation in the kernel (\<^verbatim>\<open>kern/pmap.h\<close>)\<close>

text \<open>The page number is truncated to 32 bits before it is checked, as in the macro.\<close>

definition KADDR :: "kern \<Rightarrow> u64 \<Rightarrow> nat option" where
  "KADDR s pa = (if unat (ucast (PPN pa) :: u32) \<ge> npages s then None else Some (unat (PPN pa)))"

definition PADDR :: "u64 \<Rightarrow> u64 option" where
  "PADDR kva = (if kva < KERNBASE then None else Some (kva - KERNBASE))"

definition pa2page :: "kern \<Rightarrow> u64 \<Rightarrow> nat option" where
  "pa2page s pa = (if unat (PPN pa) \<ge> npages s then None else Some (unat (PPN pa)))"

definition page2kva :: "kern \<Rightarrow> nat \<Rightarrow> nat option" where
  "page2kva s pp = KADDR s (page2pa pp)"

subsection \<open>Boot-time allocation\<close>

text \<open>
  \<open>end_debug\<close> is the linker's symbol for the end of the kernel image. The amount is rounded as
  a 64-bit number and truncated to the 32 bits of \<^verbatim>\<open>n\<close>.
\<close>

definition boot_alloc :: "u64 \<Rightarrow> kern \<Rightarrow> u32 \<Rightarrow> u64 \<times> kern" where
  "boot_alloc end_debug s n =
     (let s1 = (if nextfree s = 0 then s\<lparr>nextfree := ROUNDUP end_debug PGSIZE\<rparr> else s);
          result = nextfree s1
      in if n > 0
         then let newSize = (ucast (ROUNDUP (ucast n) PGSIZE) :: u32)
              in (result, s1\<lparr>nextfree := nextfree s1 + ucast newSize\<rparr>)
         else (result, s1))"

subsection \<open>The page allocator\<close>

text \<open>
  The body of the loop of \<^verbatim>\<open>page_init\<close> for page \<open>i\<close>; \<open>lst\<close> is the variable
  \<^verbatim>\<open>last\<close>. The test \<^verbatim>\<open>PADDR(boot_alloc(0))\<close> panics when \<^verbatim>\<open>nextfree\<close> is below
  \<^verbatim>\<open>KERNBASE\<close>, but only when it is evaluated, that is for pages above the start of the hole.
\<close>

definition page_init_step ::
  "u64 \<Rightarrow> nat \<Rightarrow> nat option \<times> kern \<Rightarrow> (nat option \<times> kern) option" where
  "page_init_step end_debug i = (\<lambda>(lst, s).
     let s1 = upd_page i (\<lambda>p. p\<lparr>pp_ref := 0, pp_link := None\<rparr>) s;
         s2 = (if i > 1 \<and> lst \<noteq> None
               then upd_page (the lst) (\<lambda>p. p\<lparr>pp_link := Some i\<rparr>) s1
               else s1\<lparr>page_free_list := Some i\<rparr>)
     in do {
       hole \<leftarrow> PADDR (KERNBASE + IOPHYSMEM);
       (inhole, s3) \<leftarrow>
         (if page2pa i \<ge> hole
          then (let (nf, s3) = boot_alloc end_debug s2 0
                in do { lim \<leftarrow> PADDR nf; Some (page2pa i \<le> lim, s3) })
          else Some (False, s2));
       if inhole \<or> page2pa i = MPENTRY_PADDR
       then Some (lst, upd_page i (\<lambda>p. p\<lparr>pp_link := None, pp_ref := pp_ref p + 1\<rparr>) s3)
       else Some (Some i, s3)
     })"

primrec page_init_loop ::
  "u64 \<Rightarrow> nat list \<Rightarrow> nat option \<times> kern \<Rightarrow> (nat option \<times> kern) option" where
  "page_init_loop end_debug [] ls = Some ls"
| "page_init_loop end_debug (i # is) ls =
     do { ls' \<leftarrow> page_init_step end_debug i ls; page_init_loop end_debug is ls' }"

definition page_init :: "u64 \<Rightarrow> kern \<Rightarrow> kern option" where
  "page_init end_debug s =
     map_option snd (page_init_loop end_debug [0..<npages s] (None, s))"

definition ALLOC_ZERO :: u64 where [simp]: "ALLOC_ZERO = 1"

definition page_alloc :: "kern \<Rightarrow> u64 \<Rightarrow> (nat option \<times> kern) option" where
  "page_alloc s alloc_flags =
     (case page_free_list s of
        None \<Rightarrow> Some (None, s)
      | Some pp \<Rightarrow>
          let s1 = (if pp_link (pages s pp) = Some pp then s\<lparr>page_free_list := None\<rparr>
                    else s\<lparr>page_free_list := pp_link (pages s pp)\<rparr>);
              s2 = upd_page pp (\<lambda>p. p\<lparr>pp_link := None\<rparr>) s1
          in do {
            s3 \<leftarrow> (if alloc_flags AND ALLOC_ZERO \<noteq> 0
                   then do { kva \<leftarrow> page2kva s2 pp; Some (memset_page kva 0 s2) } else Some s2);
            s4 \<leftarrow> (if alloc_flags = 0
                   then do { kva \<leftarrow> page2kva s3 pp; Some (memset_page kva 0 s3) } else Some s3);
            Some (Some pp, s4)
          })"

definition page_free :: "kern \<Rightarrow> nat \<Rightarrow> kern option" where
  "page_free s pp =
     (if pp_link (pages s pp) \<noteq> None \<or> pp_ref (pages s pp) \<noteq> 0 then None
      else if page_free_list s \<noteq> None
      then Some ((upd_page pp (\<lambda>p. p\<lparr>pp_link := page_free_list s\<rparr>) s)\<lparr>page_free_list := Some pp\<rparr>)
      else Some (upd_page pp (\<lambda>p. p\<lparr>pp_link := Some pp\<rparr>) (s\<lparr>page_free_list := Some pp\<rparr>)))"

definition page_decref :: "kern \<Rightarrow> nat \<Rightarrow> kern option" where
  "page_decref s pp =
     (let s1 = upd_page pp (\<lambda>p. p\<lparr>pp_ref := pp_ref p - 1\<rparr>) s
      in if pp_ref (pages s1 pp) = 0 then page_free s1 pp else Some s1)"

definition page_incref :: "nat \<Rightarrow> kern \<Rightarrow> kern" where
  "page_incref pp s = upd_page pp (\<lambda>p. p\<lparr>pp_ref := pp_ref p + 1\<rparr>) s"

subsection \<open>Page table walks\<close>

definition pgdir_walk ::
  "kern \<Rightarrow> nat \<Rightarrow> u64 \<Rightarrow> bool \<Rightarrow> ((nat \<times> nat) option \<times> kern) option" where
  "pgdir_walk s pgdir va create =
     (let i = unat (PDX va);
          leaf = (\<lambda>s. do { level1 \<leftarrow> KADDR s (PTE_ADDR (pmem s pgdir i));
                           Some (Some (level1, unat (PTX va)), s) })
      in if pmem s pgdir i = 0
         then if create
              then do {
                (pp, s1) \<leftarrow> page_alloc s 0;
                (case pp of
                   None \<Rightarrow> Some (None, s1)
                 | Some p \<Rightarrow>
                     let s2 = page_incref p s1;
                         s3 = st pgdir i (page2pa p) s2;
                         s4 = st pgdir i (pmem s3 pgdir i OR PTE_USER) s3
                     in do { kva \<leftarrow> page2kva s4 p; leaf (memset_page kva 0 s4) })
              }
              else Some (None, s)
         else leaf s)"

definition pdpe_walk ::
  "kern \<Rightarrow> nat \<Rightarrow> u64 \<Rightarrow> bool \<Rightarrow> ((nat \<times> nat) option \<times> kern) option" where
  "pdpe_walk s pdpe va create =
     (let i = unat (PDPE va)
      in if pmem s pdpe i = 0
         then if create
              then do {
                (pp, s1) \<leftarrow> page_alloc s 0;
                (case pp of
                   None \<Rightarrow> Some (None, s1)
                 | Some p \<Rightarrow>
                     let s2 = page_incref p s1
                     in do {
                       level2 \<leftarrow> page2kva s2 p;
                       let s3 = st pdpe i (page2pa level2) s2;
                       let s4 = st pdpe i (pmem s3 pdpe i OR PTE_USER) s3;
                       let s5 = memset_page level2 0 s4;
                       (level1, s6) \<leftarrow> pgdir_walk s5 level2 va create;
                       (case level1 of
                          None \<Rightarrow> do { s7 \<leftarrow> page_decref s6 p; Some (None, st pdpe i 0 s7) }
                        | Some _ \<Rightarrow> Some (level1, s6))
                     })
              }
              else Some (None, s)
         else do {
           level2 \<leftarrow> KADDR s (PTE_ADDR (pmem s pdpe i));
           pgdir_walk s level2 va create
         })"

definition pml4e_walk ::
  "kern \<Rightarrow> nat option \<Rightarrow> u64 \<Rightarrow> bool \<Rightarrow> ((nat \<times> nat) option \<times> kern) option" where
  "pml4e_walk s pml4e va create =
     (case pml4e of
        None \<Rightarrow> None
      | Some root \<Rightarrow>
          let i = unat (PML4 va)
          in if pmem s root i = 0
             then if create
                  then do {
                    (pp, s1) \<leftarrow> page_alloc s 0;
                    (case pp of
                       None \<Rightarrow> Some (None, s1)
                     | Some p \<Rightarrow>
                         let s2 = page_incref p s1
                         in do {
                           level3 \<leftarrow> page2kva s2 p;
                           let s3 = st root i (page2pa level3) s2;
                           let s4 = st root i (pmem s3 root i OR PTE_USER) s3;
                           let s5 = memset_page level3 0 s4;
                           (level1, s6) \<leftarrow> pdpe_walk s5 level3 va create;
                           (case level1 of
                              None \<Rightarrow> do { s7 \<leftarrow> page_decref s6 p; Some (None, st root i 0 s7) }
                            | Some _ \<Rightarrow> Some (level1, s6))
                         })
                  }
                  else Some (None, s)
             else do {
               level3 \<leftarrow> KADDR s (PTE_ADDR (pmem s root i));
               pdpe_walk s level3 va create
             })"

text \<open>The walk of \<^verbatim>\<open>check_va2pa\<close>, which follows present entries only; \<open>None\<close> is \<^verbatim>\<open>~0\<close>.\<close>

definition check_va2pa :: "kern \<Rightarrow> nat \<Rightarrow> u64 \<Rightarrow> u64 option option" where
  "check_va2pa s pml4e va =
     (let e4 = pmem s pml4e (unat (PML4 va))
      in if e4 AND PTE_P = 0 then Some None
         else do {
           pdpe \<leftarrow> KADDR s (PTE_ADDR e4);
           let e3 = pmem s pdpe (unat (PDPE va));
           if e3 AND PTE_P = 0 then Some None
           else do {
             pde \<leftarrow> KADDR s (PTE_ADDR e3);
             let e2 = pmem s pde (unat (PDX va));
             if e2 AND PTE_P = 0 then Some None
             else do {
               pte \<leftarrow> KADDR s (PTE_ADDR e2);
               let e1 = pmem s pte (unat (PTX va));
               if e1 AND PTE_P = 0 then Some None else Some (Some (PTE_ADDR e1))
             }}})"

subsection \<open>Mapping pages\<close>

definition boot_map_page :: "nat \<Rightarrow> u64 \<Rightarrow> u64 \<Rightarrow> u64 \<Rightarrow> kern \<Rightarrow> kern option" where
  "boot_map_page pml4e la pa perm s =
     do {
       (ventry, s1) \<leftarrow> pml4e_walk s (Some pml4e) la True;
       (case ventry of
          None \<Rightarrow> Some s1
        | Some (f, i) \<Rightarrow>
            let s2 = st f i (PTE_ADDR pa) s1
            in Some (st f i (pmem s2 f i OR perm OR PTE_P) s2))
     }"

text \<open>
  The loop of \<^verbatim>\<open>boot_map_region\<close> runs for the offsets \<open>0, PGSIZE, ...\<close> below \<open>size\<close>;
  that is \<open>ceil (size / PGSIZE)\<close> times (for sizes up to \<open>2^64 - PGSIZE\<close>, where the C counter
  does not wrap around). \<open>boot_map_page\<close> is one iteration.
\<close>

primrec boot_map_loop :: "nat \<Rightarrow> nat \<Rightarrow> u64 \<Rightarrow> u64 \<Rightarrow> u64 \<Rightarrow> kern \<Rightarrow> kern option" where
  "boot_map_loop 0 pml4e la pa perm s = Some s"
| "boot_map_loop (Suc n) pml4e la pa perm s =
     do { s1 \<leftarrow> boot_map_page pml4e la pa perm s;
          boot_map_loop n pml4e (la + PGSIZE) (pa + PGSIZE) perm s1 }"

definition boot_map_region ::
  "kern \<Rightarrow> nat \<Rightarrow> u64 \<Rightarrow> u64 \<Rightarrow> u64 \<Rightarrow> u64 \<Rightarrow> kern option" where
  "boot_map_region s pml4e la sz pa perm =
     boot_map_loop ((unat sz + 4095) div 4096) pml4e la pa perm s"

definition tlb_invalidate :: "kern \<Rightarrow> nat option \<Rightarrow> u64 \<Rightarrow> kern option" where
  "tlb_invalidate s pml4e va =
     (if pml4e = None then None
      else case curenv s of
        None \<Rightarrow> Some (s\<lparr>tlb_flushes := va # tlb_flushes s\<rparr>)
      | Some c \<Rightarrow> if env_pml4e (envs s c) = pml4e
                  then Some (s\<lparr>tlb_flushes := va # tlb_flushes s\<rparr>) else Some s)"

text \<open>The page mapped at \<open>va\<close> and, as \<^verbatim>\<open>*pte_store\<close>, where its entry is.\<close>

definition page_lookup ::
  "kern \<Rightarrow> nat option \<Rightarrow> u64 \<Rightarrow> ((nat \<times> nat \<times> nat) option \<times> kern) option" where
  "page_lookup s pml4e va =
     do {
       (level1, s1) \<leftarrow> pml4e_walk s pml4e va False;
       (case level1 of
          None \<Rightarrow> Some (None, s1)
        | Some (f, i) \<Rightarrow> do { pp \<leftarrow> pa2page s1 (PTE_ADDR (pmem s1 f i)); Some (Some (pp, f, i), s1) })
     }"

definition page_remove :: "kern \<Rightarrow> nat option \<Rightarrow> u64 \<Rightarrow> kern option" where
  "page_remove s pml4e va =
     do {
       (r, s1) \<leftarrow> page_lookup s pml4e va;
       (case r of
          None \<Rightarrow> Some s1
        | Some (pp, f, i) \<Rightarrow>
            do { s2 \<leftarrow> page_decref s1 pp; tlb_invalidate (st f i 0 s2) pml4e va })
     }"

definition page_insert :: "kern \<Rightarrow> nat option \<Rightarrow> nat \<Rightarrow> u64 \<Rightarrow> u64 \<Rightarrow> (int \<times> kern) option" where
  "page_insert s pml4e pp va perm =
     do {
       (entry, s1) \<leftarrow> pml4e_walk s pml4e va True;
       (case entry of
          None \<Rightarrow> Some (err E_NO_MEM, s1)
        | Some (f, i) \<Rightarrow>
            if PTE_ADDR (pmem s1 f i) = page2pa pp
            then do {
              s2 \<leftarrow> tlb_invalidate (st f i (PTE_ADDR (pmem s1 f i) OR perm OR PTE_P) s1) pml4e va;
              Some (0, s2)
            }
            else do {
              s2 \<leftarrow> (if pmem s1 f i \<noteq> 0
                     then do { s' \<leftarrow> page_remove s1 pml4e va; tlb_invalidate s' pml4e va }
                     else Some s1);
              let s3 = st f i (page2pa pp) s2;
              let s4 = st f i (pmem s3 f i OR perm OR PTE_P) s3;
              Some (0, page_incref pp s4)
            })
     }"

definition mmio_map_region :: "kern \<Rightarrow> u64 \<Rightarrow> u64 \<Rightarrow> (u64 \<times> kern) option" where
  "mmio_map_region s pa sz =
     (let newsize = ROUNDUP sz PGSIZE
      in if mmio_base s + newsize \<ge> MMIOLIM then None
         else do {
           s1 \<leftarrow> boot_map_region s (boot_pml4e s) (mmio_base s) newsize pa
                  (PTE_PCD OR PTE_PWT OR PTE_W OR PTE_P);
           Some (mmio_base s1, s1\<lparr>mmio_base := mmio_base s1 + newsize\<rparr>)
         })"

subsection \<open>Checking user pointers\<close>

text \<open>
  The loop of \<^verbatim>\<open>user_mem_check\<close> from \<open>start\<close>; \<open>n\<close> bounds the number of pages still to
  check. \<open>n = (end - start) / PGSIZE\<close> is exact, because both ends are multiples of the page size.
\<close>

primrec user_mem_check_loop ::
  "nat \<Rightarrow> kern \<Rightarrow> nat option \<Rightarrow> u64 \<Rightarrow> u64 \<Rightarrow> u64 \<Rightarrow> (int \<times> kern) option" where
  "user_mem_check_loop 0 s pml4e va start perm = Some (0, s)"
| "user_mem_check_loop (Suc n) s pml4e va start perm =
     do {
       (r, s1) \<leftarrow> page_lookup s pml4e start;
       (case r of
          Some (pp, f, i) \<Rightarrow>
            if pmem s1 f i AND perm \<noteq> perm \<or> start \<ge> ULIM
            then Some (err E_FAULT, s1\<lparr>user_mem_check_addr := max va start\<rparr>)
            else user_mem_check_loop n s1 pml4e va (start + PGSIZE) perm
        | None \<Rightarrow> Some (err E_FAULT, s1\<lparr>user_mem_check_addr := max va start\<rparr>))
     }"

definition user_mem_check :: "kern \<Rightarrow> nat \<Rightarrow> u64 \<Rightarrow> u64 \<Rightarrow> u64 \<Rightarrow> (int \<times> kern) option" where
  "user_mem_check s env va len perm =
     (let start = ROUNDDOWN va PGSIZE; stop = ROUNDUP (va + len) PGSIZE
      in user_mem_check_loop (if start < stop then (unat stop - unat start) div 4096 else 0)
           s (env_pml4e (envs s env)) va start (perm OR PTE_P))"

end
