(* ===== verification/Page_Alloc.thy ===== *)
theory Page_Alloc
  imports Pmap
begin

section \<open>The page allocator: invariant and correctness\<close>

text \<open>
  \<open>free_pages s xs\<close> is the allocator's invariant: the links starting at
  \<^verbatim>\<open>page_free_list\<close> visit exactly the pages \<open>xs\<close>, each once, all of them existing pages
  with reference count 0, and no page outside the list has a link. \<open>page_alloc\<close>,
  \<open>page_free\<close> and \<open>page_decref\<close> implement a stack on it (interpretation \<open>page_pool\<close> of
  the pool contract), and \<open>page_init\<close> establishes it with exactly the usable pages.
\<close>

subsection \<open>Invariant\<close>

definition free_pages :: "kern \<Rightarrow> nat list \<Rightarrow> bool" where
  "free_pages s xs \<longleftrightarrow> distinct xs \<and> npages s \<le> 2 ^ 52 \<and>
     (\<forall>p \<in> set xs. p < npages s \<and> pp_ref (pages s p) = 0) \<and>
     (\<forall>p < npages s. p \<notin> set xs \<longrightarrow> pp_link (pages s p) = None) \<and>
     chain (\<lambda>p. pp_link (pages s p)) (page_free_list s) xs"

lemma page2kva_id: "p < npages s \<Longrightarrow> npages s \<le> 2 ^ 52 \<Longrightarrow> page2kva s p = Some p"
proof -
  assume p: "p < npages s" "npages s \<le> 2 ^ 52"
  then have u: "unat (PPN (page2pa p)) = p"
    by (intro unat_PPN_page2pa) simp
  have "unat (ucast (PPN (page2pa p)) :: u32) \<le> p"
    by (subst (2) u [symmetric]) (simp add: unsigned_ucast_eq)
  with p u show ?thesis
    by (simp add: page2kva_def KADDR_def)
qed

lemma page_alloc_empty: "free_pages s [] \<Longrightarrow> page_alloc s fl = Some (None, s)"
  by (simp add: free_pages_def page_alloc_def)

lemma free_pages_cong:
  assumes "free_pages s xs" and "npages s' = npages s" "page_free_list s' = page_free_list s"
    and "\<And>p. pp_link (pages s' p) = pp_link (pages s p)"
    and "\<And>p. p \<in> set xs \<Longrightarrow> pp_ref (pages s' p) = pp_ref (pages s p)"
  shows "free_pages s' xs"
  using assms by (simp add: free_pages_def)

text \<open>The states after taking page \<open>p\<close> off the list and after putting it back.\<close>

definition taken :: "kern \<Rightarrow> nat option \<Rightarrow> nat \<Rightarrow> kern" where
  "taken s h p = s\<lparr>page_free_list := h, pages := (pages s)(p := (pages s p)\<lparr>pp_link := None\<rparr>),
                  pmem := (pmem s)(p := (\<lambda>_. 0))\<rparr>"

definition given :: "kern \<Rightarrow> nat option \<Rightarrow> nat \<Rightarrow> kern" where
  "given s l p = s\<lparr>page_free_list := Some p, pages := (pages s)(p := (pages s p)\<lparr>pp_link := l\<rparr>)\<rparr>"

lemma page_alloc_cons:
  assumes "free_pages s (p # xs)" and "fl = 0 \<or> fl AND 1 \<noteq> 0"
  obtains h where "page_alloc s fl = Some (Some p, taken s h p)" "free_pages (taken s h p) xs"
proof -
  let ?link = "\<lambda>q. pp_link (pages s q)"
  let ?h = "if ?link p = Some p then None else ?link p"
  let ?s = "taken s ?h p"
  from assms(1) have fp: "distinct (p # xs)" "npages s \<le> 2 ^ 52" "p < npages s"
    and ch: "chain ?link (page_free_list s) (p # xs)"
    by (auto simp: free_pages_def)
  have h: "page_free_list s = Some p"
    using ch by (rule chain_head)
  have "chain ?link ?h xs"
    using chain_tail [OF ch fp(1)] by simp
  then have "chain (?link(p := None)) ?h xs"
    using fp(1) by simp
  moreover have "(\<lambda>q. pp_link (pages ?s q)) = ?link(p := None)"
    by (auto simp: taken_def)
  ultimately have "free_pages ?s xs"
    using assms(1) by (auto simp: free_pages_def taken_def)
  moreover have "page_alloc s fl = Some (Some p, ?s)"
    using h fp assms(2) page2kva_id [of p]
    by (auto simp: page_alloc_def Let_def upd_page_def memset_page_def taken_def)
  ultimately show ?thesis
    by (rule that [rotated])
qed

lemma page_free_ok:
  assumes "free_pages s xs" and "p \<notin> set xs" "p < npages s" "pp_ref (pages s p) = 0"
  obtains l where "page_free s p = Some (given s l p)" "free_pages (given s l p) (p # xs)"
proof -
  let ?link = "\<lambda>q. pp_link (pages s q)"
  let ?l = "if page_free_list s = None then Some p else page_free_list s"
  let ?s = "given s ?l p"
  from assms have nl: "?link p = None" and ch: "chain ?link (page_free_list s) xs"
    by (auto simp: free_pages_def)
  have "chain (?link(p := ?l)) (Some p) (p # xs)"
    by (rule chain_cons [OF ch assms(2)])
  moreover have "(\<lambda>q. pp_link (pages ?s q)) = ?link(p := ?l)"
    by (auto simp: given_def)
  ultimately have "free_pages ?s (p # xs)"
    using assms by (auto simp: free_pages_def given_def)
  moreover have "page_free s p = Some ?s"
    using nl assms(4) by (simp add: page_free_def upd_page_def given_def)
  ultimately show ?thesis
    by (rule that [rotated])
qed

lemma page_decref_shared:
  "pp_ref (pages s p) \<noteq> 1 \<Longrightarrow>
   page_decref s p = Some (upd_page p (\<lambda>q. q\<lparr>pp_ref := pp_ref q - 1\<rparr>) s)"
  by (auto simp: page_decref_def Let_def)

lemma page_decref_last:
  assumes "free_pages s xs" and "p \<notin> set xs" "p < npages s" "pp_ref (pages s p) = 1"
  obtains l where "page_decref s p = Some (given (upd_page p (\<lambda>q. q\<lparr>pp_ref := 0\<rparr>) s) l p)"
    "free_pages (given (upd_page p (\<lambda>q. q\<lparr>pp_ref := 0\<rparr>) s) l p) (p # xs)"
proof -
  let ?s = "upd_page p (\<lambda>q. q\<lparr>pp_ref := 0\<rparr>) s"
  have "free_pages ?s xs"
    by (rule free_pages_cong [OF assms(1)]) (use assms(2) in auto)
  moreover have "upd_page p (\<lambda>q. q\<lparr>pp_ref := pp_ref q - 1\<rparr>) s = ?s"
    using assms(4) by (simp add: upd_page_def)
  ultimately show ?thesis
    using page_free_ok [of ?s xs p] assms(2,3) that
    by (auto simp: page_decref_def Let_def)
qed

subsection \<open>The pool contract\<close>

definition idle_page :: "kern \<Rightarrow> nat \<Rightarrow> bool" where
  "idle_page s p \<longleftrightarrow> p < npages s \<and> pp_ref (pages s p) = 0"

interpretation page_pool: free_stack free_pages "\<lambda>s. page_alloc s 0" page_free idle_page
proof unfold_locales
  fix s x xs assume fp: "free_pages s (x # xs)"
  then obtain h where h: "page_alloc s 0 = Some (Some x, taken s h x)" "free_pages (taken s h x) xs"
    using page_alloc_cons by blast
  moreover have "idle_page (taken s h x) x"
    using fp by (simp add: idle_page_def taken_def free_pages_def)
  ultimately show "\<exists>s'. page_alloc s 0 = Some (Some x, s') \<and> free_pages s' xs \<and> idle_page s' x"
    by blast
next
  fix s xs x assume "free_pages s xs" "idle_page s x" "x \<notin> set xs"
  then show "\<exists>s'. page_free s x = Some s' \<and> free_pages s' (x # xs)"
    using page_free_ok by (metis idle_page_def)
qed (simp_all add: free_pages_def page_alloc_empty)

subsection \<open>Initialisation\<close>

text \<open>
  \<open>page_reserved lim i\<close>: page \<open>i\<close> lies between the I/O hole and the end \<open>lim\<close> of the
  boot-time allocations, or holds the start-up code of the other CPUs.
\<close>

definition page_reserved :: "u64 \<Rightarrow> nat \<Rightarrow> bool" where
  "page_reserved lim i \<longleftrightarrow>
     IOPHYSMEM \<le> page2pa i \<and> page2pa i \<le> lim \<or> page2pa i = MPENTRY_PADDR"

definition initially_free :: "u64 \<Rightarrow> nat \<Rightarrow> nat list" where
  "initially_free lim n = filter (\<lambda>i. \<not> page_reserved lim i) [1..<n]"

definition init_link :: "nat \<Rightarrow> nat option \<Rightarrow> kern \<Rightarrow> kern" where
  "init_link i lst s =
     (if i > 1 \<and> lst \<noteq> None
      then upd_page (the lst) (\<lambda>p. p\<lparr>pp_link := Some i\<rparr>) s
      else s\<lparr>page_free_list := Some i\<rparr>)"

lemma page_init_step_eq:
  assumes "KERNBASE \<le> nextfree s"
  shows "page_init_step e i (lst, s) =
    (let s2 = init_link i lst (upd_page i (\<lambda>p. p\<lparr>pp_ref := 0, pp_link := None\<rparr>) s)
     in if page_reserved (nextfree s - KERNBASE) i
        then Some (lst, upd_page i (\<lambda>p. p\<lparr>pp_link := None, pp_ref := pp_ref p + 1\<rparr>) s2)
        else Some (Some i, s2))"
proof -
  let ?s2 = "init_link i lst (upd_page i (\<lambda>p. p\<lparr>pp_ref := 0, pp_link := None\<rparr>) s)"
  have "nextfree ?s2 = nextfree s"
    by (simp add: init_link_def)
  moreover have "nextfree s \<noteq> 0" "\<not> nextfree s < 0x8004000000"
    using assms by auto
  ultimately have B: "boot_alloc e ?s2 0 = (nextfree s, ?s2)"
    and Q: "PADDR (nextfree s) = Some (nextfree s - 0x8004000000)"
    by (simp_all add: boot_alloc_def Let_def PADDR_def)
  have P: "PADDR 0x80040A0000 = Some 0xA0000"
    by (simp add: PADDR_def)
  show ?thesis
    unfolding page_init_step_def init_link_def [symmetric] Let_def split
    by (cases "0xA0000 \<le> page2pa i"; cases "page2pa i \<le> nextfree s - 0x8004000000")
      (simp_all add: P B Q page_reserved_def)
qed

lemma page_init_loop_append:
  "page_init_loop e (xs @ ys) ls = Option.bind (page_init_loop e xs ls) (page_init_loop e ys)"
  by (induction xs arbitrary: ls) (simp_all split: Option.bind_split)

definition init_inv :: "u64 \<Rightarrow> kern \<Rightarrow> nat \<Rightarrow> nat option \<times> kern \<Rightarrow> bool" where
  "init_inv lim s0 k = (\<lambda>(lst, s). let fl = initially_free lim k in
     fl \<noteq> [] \<and> lst = Some (last fl) \<and> page_free_list s = Some 1 \<and> hd fl = 1 \<and>
     npages s = npages s0 \<and> nextfree s = nextfree s0 \<and> pmem s = pmem s0 \<and>
     (\<forall>p<k. pp_ref (pages s p) = (if page_reserved lim p then 1 else 0)) \<and>
     (\<forall>p<k. p \<notin> set fl \<longrightarrow> pp_link (pages s p) = None) \<and>
     successively (\<lambda>x y. pp_link (pages s x) = Some y) fl \<and>
     pp_link (pages s (last fl)) = (if last fl = k - 1 then None else Some (k - 1)))"

lemma not_reserved_01: "\<not> page_reserved lim 0" "\<not> page_reserved lim (Suc 0)"
  by (simp_all add: page_reserved_def page2pa_def)

lemma init_inv_2:
  assumes "KERNBASE \<le> nextfree s"
  shows "\<exists>r. page_init_loop e [0..<2] (None, s) = Some r \<and> init_inv (nextfree s - KERNBASE) s 2 r"
proof -
  let ?lim = "nextfree s - KERNBASE"
  have "initially_free ?lim 2 = [1]"
    by (simp add: initially_free_def not_reserved_01 upt_rec)
  moreover have "[0..<2] = [0, 1 :: nat]"
    by (simp add: upt_rec)
  ultimately show ?thesis
    using assms
    by (simp add: page_init_step_eq Let_def not_reserved_01 init_link_def init_inv_def
        less_2_cases_iff all_conj_distrib imp_conjL)
qed

lemma init_inv_step:
  assumes inv: "init_inv lim s0 k ls" and k: "2 \<le> k"
    and lim: "lim = nextfree s0 - KERNBASE" "KERNBASE \<le> nextfree s0"
  shows "\<exists>r. page_init_step e k ls = Some r \<and> init_inv lim s0 (Suc k) r"
proof -
  obtain lst s where ls: "ls = (lst, s)" by fastforce
  let ?fl = "initially_free lim k" let ?l = "last ?fl"
  let ?s1 = "upd_page k (\<lambda>p. p\<lparr>pp_ref := 0, pp_link := None\<rparr>) s"
  let ?s2 = "upd_page ?l (\<lambda>p. p\<lparr>pp_link := Some k\<rparr>) ?s1"
  have fl: "?fl \<noteq> []" "lst = Some ?l" "nextfree s = nextfree s0" "hd ?fl = 1"
    "page_free_list s = Some 1" "npages s = npages s0" "pmem s = pmem s0"
    and succ: "successively (\<lambda>x y. pp_link (pages s x) = Some y) ?fl"
    and refs: "\<forall>p<k. pp_ref (pages s p) = (if page_reserved lim p then 1 else 0)"
    and links: "\<forall>p<k. p \<notin> set ?fl \<longrightarrow> pp_link (pages s p) = None"
    using inv by (simp_all add: ls init_inv_def Let_def)
  have dist: "distinct ?fl" and sub: "set ?fl \<subseteq> {1..<k}"
    by (auto simp: initially_free_def)
  then have lk: "?l < k" "?l \<in> set ?fl" "k \<notin> set ?fl" "\<not> page_reserved lim ?l"
    using fl(1) last_in_set [OF fl(1)] by (auto simp: initially_free_def)
  have "?l \<notin> set (butlast ?fl)"
    using dist fl(1) by (metis append_butlast_last_id disjoint_insert(2) distinct_append
        list.set(2))
  moreover have "k \<notin> set (butlast ?fl)"
    using lk(3) in_set_butlastD by fastforce
  ultimately have succ2: "successively (\<lambda>x y. pp_link (pages ?s2 x) = Some y) ?fl"
    using successively_link_upd [OF dist successively_link_upd [OF dist succ, of k None],
        of ?l "Some k"]
    by (simp add: fun_upd_def if_distrib [of pp_link] cong: if_cong)
  have step: "page_init_step e k ls =
      (if page_reserved lim k
       then Some (lst, upd_page k (\<lambda>p. p\<lparr>pp_link := None, pp_ref := pp_ref p + 1\<rparr>) ?s2)
       else Some (Some k, ?s2))"
    using k lim fl(2,3) by (simp add: ls page_init_step_eq init_link_def Let_def)
  have fl': "initially_free lim (Suc k) = (if page_reserved lim k then ?fl else ?fl @ [k])"
    using k by (simp add: initially_free_def)
  show ?thesis
  proof (cases "page_reserved lim k")
    case True
    let ?s3 = "upd_page k (\<lambda>p. p\<lparr>pp_link := None, pp_ref := pp_ref p + 1\<rparr>) ?s2"
    have "successively (\<lambda>x y. pp_link (pages ?s3 x) = Some y) ?fl"
      by (rule successively_mono [OF succ2]) (use lk(3) in auto)
    then have "init_inv lim s0 (Suc k) (lst, ?s3)"
      using fl refs links lk True by (auto simp: init_inv_def Let_def fl' less_Suc_eq)
    with step True show ?thesis by simp
  next
    case False
    have "successively (\<lambda>x y. pp_link (pages ?s2 x) = Some y) (?fl @ [k])"
      using succ2 lk(1) by (simp add: successively_append_iff)
    then have "init_inv lim s0 (Suc k) (Some k, ?s2)"
      using fl refs links lk False by (auto simp: init_inv_def Let_def fl' less_Suc_eq)
    with step False show ?thesis by simp
  qed
qed

lemma init_inv_loop:
  assumes "KERNBASE \<le> nextfree s" and "2 \<le> n"
  shows "\<exists>r. page_init_loop e [0..<n] (None, s) = Some r \<and> init_inv (nextfree s - KERNBASE) s n r"
  using assms(2)
proof (induction n rule: dec_induct)
  case base
  show ?case using assms(1) by (rule init_inv_2)
next
  case (step n)
  then obtain r where r: "page_init_loop e [0..<n] (None, s) = Some r"
    and inv: "init_inv (nextfree s - KERNBASE) s n r"
    by blast
  obtain r' where "page_init_step e n r = Some r'" "init_inv (nextfree s - KERNBASE) s (Suc n) r'"
    using init_inv_step [OF inv step(1) refl assms(1)] by blast
  with r step(1) show ?case
    by (simp add: page_init_loop_append)
qed

lemma page_init_ok:
  assumes "2 \<le> npages s" "npages s \<le> 2 ^ 52" "KERNBASE \<le> nextfree s"
    and "lim = nextfree s - KERNBASE" and "\<not> page_reserved lim (npages s - 1)"
  obtains s' where "page_init e s = Some s'" "npages s' = npages s" "pmem s' = pmem s"
    "free_pages s' (initially_free lim (npages s))"
    "\<forall>p < npages s. pp_ref (pages s' p) = (if page_reserved lim p then 1 else 0)"
proof -
  obtain lst s' where run: "page_init_loop e [0..<npages s] (None, s) = Some (lst, s')"
    and inv: "init_inv lim s (npages s) (lst, s')"
    using init_inv_loop [OF assms(3,1), of e] assms(4) by auto
  let ?fl = "initially_free lim (npages s)"
  obtain m where m: "npages s = Suc m" "1 \<le> m"
    using assms(1) by (cases "npages s") auto
  with assms(5) have "?fl = initially_free lim m @ [m]"
    by (simp add: initially_free_def)
  with m have "last ?fl = npages s - 1" by simp
  then have "free_pages s' ?fl"
    using inv assms(2)
    by (auto simp: init_inv_def Let_def free_pages_def chain_iff) (auto simp: initially_free_def)
  with run inv show ?thesis
    by (intro that [of s']) (auto simp: init_inv_def Let_def page_init_def)
qed


end
