(* ===== verification/Page_Table.thy ===== *)
theory Page_Table
  imports Page_Alloc
begin

section \<open>Page tables: walks and mappings\<close>

text \<open>
  The three walk functions of \<^verbatim>\<open>kern/pmap.c\<close> treat one level of the page table each and
  call the function of the level below. Their contract is stated once, in the locale
  \<open>table_level\<close>, and proved for \<open>pdpe_walk\<close> over \<open>pgdir_walk\<close> and for
  \<open>pml4e_walk\<close> over \<open>pdpe_walk\<close>.
  \<^item> \<open>pml4e_ok s root va A X\<close>: the tables that exist on the path of \<open>va\<close> are distinct,
    existing pages outside \<open>A\<close> and outside the free pages \<open>X\<close>, reached through present entries.
  \<^item> \<open>pml4e_leaf s root va\<close>: where the entry for \<open>va\<close> is, if all tables exist.
  \<^item> \<open>grows s s' xs n\<close>: \<open>s'\<close> differs from \<open>s\<close> in the first \<open>n\<close> free pages having become
    tables; no entry that was set has changed.
\<close>

subsection \<open>Entries\<close>

lemma KADDR_PTE: "pte_frame e < npages s \<Longrightarrow> KADDR s (PTE_ADDR e) = Some (pte_frame e)"
proof -
  assume lt: "pte_frame e < npages s"
  have "unat (ucast (PPN (PTE_ADDR e)) :: u32) \<le> pte_frame e"
    by (simp add: pte_frame_def unsigned_ucast_eq)
  with lt show ?thesis
    by (simp add: KADDR_def pte_frame_def)
qed

lemma pa2page_PTE: "pte_frame e < npages s \<Longrightarrow> pa2page s (PTE_ADDR e) = Some (pte_frame e)"
  by (simp add: pa2page_def pte_frame_def)

lemma table_entry [simp]:
  "page2pa p OR 0xE07 \<noteq> 0" "(page2pa p OR 0xE07) AND 1 = 1"
  "p < 2 ^ 52 \<Longrightarrow> pte_frame (page2pa p OR 0xE07) = p"
proof -
  have "bit (page2pa p OR 0xE07) 0"
    by (simp add: bit_simps)
  then show "page2pa p OR 0xE07 \<noteq> 0"
    by (metis bit_0_eq bot_apply bot_bool_def)
  show "(page2pa p OR 0xE07) AND 1 = 1"
    by (rule bit_word_eqI) (auto simp: bit_simps)
  show "p < 2 ^ 52 \<Longrightarrow> pte_frame (page2pa p OR 0xE07) = p"
    by (simp add: pte_frame_or pte_frame_page2pa)
qed

subsection \<open>Well-formed paths\<close>

definition frame_ok :: "kern \<Rightarrow> nat \<Rightarrow> u64 \<Rightarrow> nat set \<Rightarrow> nat set \<Rightarrow> bool" where
  "frame_ok s f va A X \<longleftrightarrow> f < npages s \<and> f \<notin> X \<and> f \<notin> A"

definition entry_ok ::
  "(u64 \<Rightarrow> u64) \<Rightarrow> (kern \<Rightarrow> nat \<Rightarrow> u64 \<Rightarrow> nat set \<Rightarrow> nat set \<Rightarrow> bool) \<Rightarrow>
   kern \<Rightarrow> nat \<Rightarrow> u64 \<Rightarrow> nat set \<Rightarrow> nat set \<Rightarrow> bool" where
  "entry_ok idx below s t va A X \<longleftrightarrow> frame_ok s t va A X \<and>
     (pmem s t (unat (idx va)) \<noteq> 0 \<longrightarrow>
        pmem s t (unat (idx va)) AND PTE_P \<noteq> 0 \<and>
        below s (pte_frame (pmem s t (unat (idx va)))) va (insert t A) X)"

definition entry_leaf ::
  "(u64 \<Rightarrow> u64) \<Rightarrow> (kern \<Rightarrow> nat \<Rightarrow> u64 \<Rightarrow> (nat \<times> nat) option) \<Rightarrow>
   kern \<Rightarrow> nat \<Rightarrow> u64 \<Rightarrow> (nat \<times> nat) option" where
  "entry_leaf idx below s t va =
     (if pmem s t (unat (idx va)) = 0 then None
      else below s (pte_frame (pmem s t (unat (idx va)))) va)"

definition slot_leaf :: "kern \<Rightarrow> nat \<Rightarrow> u64 \<Rightarrow> (nat \<times> nat) option" where
  "slot_leaf s f va = Some (f, unat (PTX va))"

definition pgdir_ok :: "kern \<Rightarrow> nat \<Rightarrow> u64 \<Rightarrow> nat set \<Rightarrow> nat set \<Rightarrow> bool" where
  "pgdir_ok = entry_ok PDX frame_ok"

definition pdpe_ok :: "kern \<Rightarrow> nat \<Rightarrow> u64 \<Rightarrow> nat set \<Rightarrow> nat set \<Rightarrow> bool" where
  "pdpe_ok = entry_ok PDPE pgdir_ok"

definition pml4e_ok :: "kern \<Rightarrow> nat \<Rightarrow> u64 \<Rightarrow> nat set \<Rightarrow> nat set \<Rightarrow> bool" where
  "pml4e_ok = entry_ok PML4 pdpe_ok"

definition pgdir_leaf :: "kern \<Rightarrow> nat \<Rightarrow> u64 \<Rightarrow> (nat \<times> nat) option" where
  "pgdir_leaf = entry_leaf PDX slot_leaf"

definition pdpe_leaf :: "kern \<Rightarrow> nat \<Rightarrow> u64 \<Rightarrow> (nat \<times> nat) option" where
  "pdpe_leaf = entry_leaf PDPE pgdir_leaf"

definition pml4e_leaf :: "kern \<Rightarrow> nat \<Rightarrow> u64 \<Rightarrow> (nat \<times> nat) option" where
  "pml4e_leaf = entry_leaf PML4 pdpe_leaf"

lemma entry_ok_frame: "entry_ok idx below s t va A X \<Longrightarrow> frame_ok s t va A X"
  by (simp add: entry_ok_def)

lemma path_ok_frame:
  "pgdir_ok s t va A X \<Longrightarrow> frame_ok s t va A X" "pdpe_ok s t va A X \<Longrightarrow> frame_ok s t va A X"
  "pml4e_ok s t va A X \<Longrightarrow> frame_ok s t va A X"
  by (auto simp: pgdir_ok_def pdpe_ok_def pml4e_ok_def dest: entry_ok_frame)

lemma KADDR_frame: "frame_ok s (pte_frame e) va A X \<Longrightarrow> KADDR s (PTE_ADDR e) = Some (pte_frame e)"
  by (simp add: frame_ok_def KADDR_PTE)

lemmas KADDR_path = KADDR_frame path_ok_frame [THEN KADDR_frame]

subsection \<open>Walks that create nothing\<close>

lemma pgdir_walk_present:
  "pgdir_ok s d va A X \<Longrightarrow> \<not> c \<or> pmem s d (unat (PDX va)) \<noteq> 0 \<Longrightarrow>
   pgdir_walk s d va c = Some (pgdir_leaf s d va, s)"
  by (auto simp: pgdir_ok_def pgdir_leaf_def entry_ok_def entry_leaf_def slot_leaf_def
      pgdir_walk_def Let_def KADDR_path)

lemma pdpe_walk_nocreate: "pdpe_ok s t va A X \<Longrightarrow> pdpe_walk s t va False = Some (pdpe_leaf s t va, s)"
  by (auto simp: pdpe_ok_def pdpe_leaf_def entry_ok_def entry_leaf_def pdpe_walk_def Let_def
      KADDR_path pgdir_walk_present)

lemma pml4e_walk_nocreate:
  "pml4e_ok s root va A X \<Longrightarrow> pml4e_walk s (Some root) va False = Some (pml4e_leaf s root va, s)"
  by (auto simp: pml4e_ok_def pml4e_leaf_def entry_ok_def entry_leaf_def pml4e_walk_def Let_def
      KADDR_path pdpe_walk_nocreate)

lemma check_va2pa_leaf:
  assumes "pml4e_ok s root va A X"
  shows "check_va2pa s root va = Some (case pml4e_leaf s root va of None \<Rightarrow> None
    | Some (f, i) \<Rightarrow> if pmem s f i AND PTE_P = 0 then None else Some (PTE_ADDR (pmem s f i)))"
  using assms
  by (auto simp: pml4e_ok_def pdpe_ok_def pgdir_ok_def pml4e_leaf_def pdpe_leaf_def pgdir_leaf_def
      entry_ok_def entry_leaf_def slot_leaf_def check_va2pa_def Let_def frame_ok_def KADDR_PTE)

subsection \<open>Adding a table\<close>

definition new_table :: "kern \<Rightarrow> nat option \<Rightarrow> nat \<Rightarrow> nat \<Rightarrow> nat \<Rightarrow> kern" where
  "new_table s h t i p = s\<lparr>page_free_list := h,
     pages := (pages s)(p := (pages s p)\<lparr>pp_link := None, pp_ref := 1\<rparr>),
     pmem := (pmem s)(p := (\<lambda>_. 0), t := (pmem s t)(i := page2pa p OR PTE_USER))\<rparr>"

lemma st_st [simp]: "st f i v (st f i w s) = st f i v s"
  by (simp add: st_def)

lemma page2kva_cong [simp]:
  "page2kva (st f i v s) p = page2kva s p" "page2kva (upd_page q g s) p = page2kva s p"
  "page2kva (memset_page f v s) p = page2kva s p" "page2kva (page_incref q s) p = page2kva s p"
  by (simp_all add: page2kva_def KADDR_def page_incref_def)

lemma page_incref_simps [simp]:
  "npages (page_incref p s) = npages s" "pmem (page_incref p s) = pmem s"
  "pages (page_incref p s) = (pages s)(p := (pages s p)\<lparr>pp_ref := pp_ref (pages s p) + 1\<rparr>)"
  "page_free_list (page_incref p s) = page_free_list s" "envs (page_incref p s) = envs s"
  by (simp_all add: page_incref_def)

lemma alloc_table:
  assumes "free_pages s (p # xs)" and "t \<noteq> p"
  obtains h where "page_alloc s 0 = Some (Some p, taken s h p)"
    "memset_page p 0 (st t i (page2pa p OR PTE_USER) (page_incref p (taken s h p))) = new_table s h t i p"
    "free_pages (new_table s h t i p) xs" "page2kva (taken s h p) p = Some p"
proof -
  obtain h where h: "page_alloc s 0 = Some (Some p, taken s h p)" "free_pages (taken s h p) xs"
    using page_alloc_cons [OF assms(1)] by blast
  have p: "p < npages s" "npages s \<le> 2 ^ 52" "pp_ref (pages s p) = 0" "p \<notin> set xs"
    using assms(1) by (auto simp: free_pages_def)
  have "memset_page p 0 (st t i (page2pa p OR PTE_USER) (page_incref p (taken s h p))) = new_table s h t i p"
    using assms(2) p(3)
    by (simp add: page_incref_def upd_page_def st_def memset_page_def new_table_def taken_def fun_upd_twist)
  moreover have "free_pages (new_table s h t i p) xs"
    by (rule free_pages_cong [OF h(2)]) (use p(4) in \<open>auto simp: new_table_def taken_def\<close>)
  moreover have "page2kva (taken s h p) p = Some p"
    using p page2kva_id by (simp add: taken_def)
  ultimately show ?thesis
    using h(1) that by blast
qed

lemma pgdir_walk_new:
  assumes "free_pages s (p # xs)" "d \<noteq> p" "pmem s d (unat (PDX va)) = 0"
  obtains h where
    "pgdir_walk s d va True = Some (Some (p, unat (PTX va)), new_table s h d (unat (PDX va)) p)"
    "free_pages (new_table s h d (unat (PDX va)) p) xs"
proof -
  let ?i = "unat (PDX va)"
  obtain h where h: "page_alloc s 0 = Some (Some p, taken s h p)"
    "memset_page p 0 (st d ?i (page2pa p OR PTE_USER) (page_incref p (taken s h p))) = new_table s h d ?i p"
    "free_pages (new_table s h d ?i p) xs" "page2kva (taken s h p) p = Some p"
    using alloc_table [OF assms(1,2), of ?i] by blast
  have "KADDR (new_table s h d ?i p) (PTE_ADDR (page2pa p OR PTE_USER)) = Some p"
    using KADDR_PTE [of "page2pa p OR PTE_USER" "new_table s h d ?i p"] assms(1)
    by (simp add: new_table_def free_pages_def)
  then show ?thesis
    using h assms(2,3) by (intro that [of h]) (simp_all add: pgdir_walk_def Let_def fun_upd_def)
qed

lemma pdpe_walk_new:
  assumes "free_pages s (p # xs)" "t \<noteq> p" "pmem s t (unat (PDPE va)) = 0"
  obtains h where "free_pages (new_table s h t (unat (PDPE va)) p) xs"
    "pdpe_walk s t va True =
       do { (l, s6) \<leftarrow> pgdir_walk (new_table s h t (unat (PDPE va)) p) p va True;
            (case l of None \<Rightarrow> do { s7 \<leftarrow> page_decref s6 p; Some (None, st t (unat (PDPE va)) 0 s7) }
             | Some _ \<Rightarrow> Some (l, s6)) }"
proof -
  let ?i = "unat (PDPE va)"
  obtain h where "page_alloc s 0 = Some (Some p, taken s h p)"
    "memset_page p 0 (st t ?i (page2pa p OR PTE_USER) (page_incref p (taken s h p))) = new_table s h t ?i p"
    "free_pages (new_table s h t ?i p) xs" "page2kva (taken s h p) p = Some p"
    using alloc_table [OF assms(1,2), of ?i] by blast
  then show ?thesis
    using assms(3) by (intro that [of h]) (simp_all add: pdpe_walk_def Let_def)
qed

lemma pml4e_walk_new:
  assumes "free_pages s (p # xs)" "t \<noteq> p" "pmem s t (unat (PML4 va)) = 0"
  obtains h where "free_pages (new_table s h t (unat (PML4 va)) p) xs"
    "pml4e_walk s (Some t) va True =
       do { (l, s6) \<leftarrow> pdpe_walk (new_table s h t (unat (PML4 va)) p) p va True;
            (case l of None \<Rightarrow> do { s7 \<leftarrow> page_decref s6 p; Some (None, st t (unat (PML4 va)) 0 s7) }
             | Some _ \<Rightarrow> Some (l, s6)) }"
proof -
  let ?i = "unat (PML4 va)"
  obtain h where "page_alloc s 0 = Some (Some p, taken s h p)"
    "memset_page p 0 (st t ?i (page2pa p OR PTE_USER) (page_incref p (taken s h p))) = new_table s h t ?i p"
    "free_pages (new_table s h t ?i p) xs" "page2kva (taken s h p) p = Some p"
    using alloc_table [OF assms(1,2), of ?i] by blast
  then show ?thesis
    using assms(3) by (intro that [of h]) (simp_all add: pml4e_walk_def Let_def)
qed

subsection \<open>Growing page tables\<close>

definition mem_only :: "kern \<Rightarrow> kern \<Rightarrow> bool" where
  "mem_only s s' \<longleftrightarrow>
     s' = s\<lparr>page_free_list := page_free_list s', pages := pages s', pmem := pmem s'\<rparr>"

lemma mem_onlyD:
  assumes "mem_only s s'"
  shows "npages s' = npages s" "nextfree s' = nextfree s" "boot_pml4e s' = boot_pml4e s"
    "mmio_base s' = mmio_base s" "user_mem_check_addr s' = user_mem_check_addr s"
    "envs s' = envs s" "env_free_list s' = env_free_list s" "curenv s' = curenv s"
    "cpu_status s' = cpu_status s" "is_vmx_root s' = is_vmx_root s" "cpu_cr3 s' = cpu_cr3 s"
    "tlb_flushes s' = tlb_flushes s"
  by (subst assms [unfolded mem_only_def], simp)+

lemma mem_only_refl [simp]: "mem_only s s"
  by (simp add: mem_only_def)

lemma mem_only_trans: "mem_only s s1 \<Longrightarrow> mem_only s1 s2 \<Longrightarrow> mem_only s s2"
  unfolding mem_only_def by (cases s, cases s1, cases s2) simp

lemma mem_only_new_table [simp]: "mem_only s (new_table s h t i p)"
  by (simp add: mem_only_def new_table_def)

definition grows :: "kern \<Rightarrow> kern \<Rightarrow> nat list \<Rightarrow> nat \<Rightarrow> bool" where
  "grows s s' xs n \<longleftrightarrow> n \<le> length xs \<and> free_pages s' (drop n xs) \<and> mem_only s s' \<and>
     (\<forall>p. p \<notin> set xs \<longrightarrow> pages s' p = pages s p) \<and>
     (\<forall>p \<in> set (take n xs). pp_ref (pages s' p) = 1) \<and>
     (\<forall>g j. g \<notin> set xs \<longrightarrow> pmem s g j \<noteq> 0 \<longrightarrow> pmem s' g j = pmem s g j) \<and>
     (n = 0 \<longrightarrow> (\<forall>g. g \<notin> set xs \<longrightarrow> pmem s' g = pmem s g))"

lemma grows_refl: "free_pages s xs \<Longrightarrow> grows s s xs 0"
  by (simp add: grows_def)

lemma grows_new_table:
  assumes "free_pages s (p # xs)" "free_pages (new_table s h t i p) xs" "pmem s t i = 0"
  shows "grows s (new_table s h t i p) (p # xs) (Suc 0)"
  using assms by (auto simp: grows_def) (auto simp: new_table_def)

lemma grows_trans:
  assumes g1: "grows s s1 (p # xs) (Suc 0)" and g2: "grows s1 s2 xs n" and d: "distinct (p # xs)"
  shows "grows s s2 (p # xs) (Suc n)"
proof -
  have "pages s2 p = pages s1 p"
    using g2 d by (simp add: grows_def)
  moreover have "mem_only s s2"
    using g1 g2 mem_only_trans by (simp add: grows_def) blast
  moreover have "pmem s2 g j = pmem s g j" if "g \<notin> set (p # xs)" "pmem s g j \<noteq> 0" for g j
    using g1 g2 that by (simp add: grows_def)
  ultimately show ?thesis
    using g1 g2 by (auto simp: grows_def)
qed

lemma new_table_simps [simp]:
  "npages (new_table s h t i p) = npages s"
  "t \<noteq> p \<Longrightarrow> pmem (new_table s h t i p) p = (\<lambda>_. 0)"
  "pmem (new_table s h t i p) t = (pmem s t)(i := page2pa p OR 0xE07)"
  "pp_ref (pages (new_table s h t i p) p) = 1"
  by (simp_all add: new_table_def)

text \<open>Undo of a table that turned out to be useless.\<close>

lemma drop_table:
  assumes fp: "free_pages s (p # xs)" and nt: "free_pages (new_table s h t i p) xs"
    and g: "grows (new_table s h t i p) s' xs 0" and t: "t \<noteq> p" "t \<notin> set xs" "pmem s t i = 0"
  obtains s7 where "page_decref s' p = Some s7" "grows s (st t i 0 s7) (p # xs) 0"
proof -
  let ?n = "new_table s h t i p"
  have p: "p < npages s" "p \<notin> set xs" "pp_ref (pages s p) = 0"
    using fp by (auto simp: free_pages_def)
  have pg: "pages s' q = pages ?n q" "pmem s' q = pmem ?n q" if "q \<notin> set xs" for q
    using g that by (auto simp: grows_def)
  have "npages s' = npages s" "free_pages s' xs"
    using g by (auto simp: grows_def dest: mem_onlyD)
  then obtain l where dec: "page_decref s' p = Some (given (upd_page p (\<lambda>q. q\<lparr>pp_ref := 0\<rparr>) s') l p)"
    and fp7: "free_pages (given (upd_page p (\<lambda>q. q\<lparr>pp_ref := 0\<rparr>) s') l p) (p # xs)"
    using page_decref_last [of s' xs p] p pg(1) [of p] by auto
  let ?s7 = "given (upd_page p (\<lambda>q. q\<lparr>pp_ref := 0\<rparr>) s') l p"
  have "free_pages (st t i 0 ?s7) (p # xs)"
    by (rule free_pages_cong [OF fp7]) auto
  moreover have "mem_only s (st t i 0 ?s7)"
  proof -
    have "mem_only s s'"
      using g by (auto simp: grows_def intro: mem_only_trans [OF mem_only_new_table])
    moreover have "mem_only s' (st t i 0 ?s7)"
      by (simp add: mem_only_def given_def upd_page_def st_def)
    ultimately show ?thesis by (rule mem_only_trans)
  qed
  moreover have "pages (st t i 0 ?s7) q = pages s q" if "q \<notin> set (p # xs)" for q
    using that pg(1) [of q] by (simp add: given_def new_table_def)
  moreover have "pmem (st t i 0 ?s7) q = pmem s q" if "q \<notin> set (p # xs)" for q
    using that pg(2) [of q] t pg(2) [of t] by (auto simp: given_def new_table_def fun_upd_idem)
  ultimately show ?thesis
    using dec by (intro that [of ?s7]) (auto simp: grows_def)
qed

lemma growsD:
  assumes "grows s s' xs n"
  shows "free_pages s' (drop n xs)" "npages s' = npages s" "mem_only s s'"
    "g \<notin> set xs \<Longrightarrow> pmem s g j \<noteq> 0 \<Longrightarrow> pmem s' g j = pmem s g j"
    "q \<notin> set xs \<Longrightarrow> pages s' q = pages s q"
    "n = 0 \<Longrightarrow> g \<notin> set xs \<Longrightarrow> pmem s' g = pmem s g"
  using assms by (auto simp: grows_def dest: mem_onlyD)

lemma set_drop_sub: "x \<notin> set xs \<Longrightarrow> x \<notin> set (drop n xs)"
  using set_drop_subset by fastforce

subsection \<open>The contract of one level\<close>

text \<open>
  \<open>walk_create\<close>: a walk that may create tables never panics. It fails only when fewer than
  \<open>need\<close> pages are free, and then has taken none; otherwise it returns the place of the entry,
  which is in a new, empty table unless nothing had to be created.
\<close>

definition walk_result ::
  "(kern \<Rightarrow> nat \<Rightarrow> u64 \<Rightarrow> (nat \<times> nat) option) \<Rightarrow> nat \<Rightarrow> nat list \<Rightarrow> kern \<Rightarrow> nat \<Rightarrow> u64 \<Rightarrow>
   (nat \<times> nat) option \<Rightarrow> kern \<Rightarrow> nat \<Rightarrow> bool" where
  "walk_result leaf need xs s t va r s' n \<longleftrightarrow>
     (case r of
        None \<Rightarrow> n = 0 \<and> leaf s t va = None \<and> length xs < need
      | Some l \<Rightarrow> leaf s' t va = Some l \<and> n \<le> need \<and>
          (if n = 0 then s' = s else leaf s t va = None \<and> pmem s' (fst l) = (\<lambda>_. 0)))"

locale walk_level =
  fixes walk :: "kern \<Rightarrow> nat \<Rightarrow> u64 \<Rightarrow> bool \<Rightarrow> ((nat \<times> nat) option \<times> kern) option"
    and ok :: "kern \<Rightarrow> nat \<Rightarrow> u64 \<Rightarrow> nat set \<Rightarrow> nat set \<Rightarrow> bool"
    and leaf :: "kern \<Rightarrow> nat \<Rightarrow> u64 \<Rightarrow> (nat \<times> nat) option"
    and need :: nat
  assumes ok_frame: "ok s t va A X \<Longrightarrow> frame_ok s t va A X"
    and leaf_empty: "pmem s t = (\<lambda>_. 0) \<Longrightarrow> leaf s t va = None"
    and ok_empty: "frame_ok s t va A X \<Longrightarrow> pmem s t = (\<lambda>_. 0) \<Longrightarrow> ok s t va A X"
    and walk_create: "free_pages s xs \<Longrightarrow> ok s t va A (set xs) \<Longrightarrow> A \<inter> set xs = {} \<Longrightarrow>
      \<exists>r s' n. walk s t va True = Some (r, s') \<and> grows s s' xs n \<and>
        ok s' t va A (set (drop n xs)) \<and>
        walk_result leaf need xs s t va r s' n"

text \<open>
  One level on top of another: \<open>idx\<close> selects the entry, \<open>upper\<close> is the function that follows it,
  or allocates a table for it and gives that table back when the level below fails.
\<close>

locale table_level = walk_level +
  fixes idx :: "u64 \<Rightarrow> u64"
    and upper :: "kern \<Rightarrow> nat \<Rightarrow> u64 \<Rightarrow> bool \<Rightarrow> ((nat \<times> nat) option \<times> kern) option"
  assumes upper_present: "pmem s t (unat (idx va)) = e \<Longrightarrow> e \<noteq> 0 \<Longrightarrow>
      KADDR s (PTE_ADDR e) = Some f \<Longrightarrow> upper s t va c = walk s f va c"
    and upper_full: "pmem s t (unat (idx va)) = 0 \<Longrightarrow> page_alloc s 0 = Some (None, s) \<Longrightarrow>
      upper s t va True = Some (None, s)"
    and upper_new: "free_pages s (p # xs) \<Longrightarrow> t \<noteq> p \<Longrightarrow> pmem s t (unat (idx va)) = 0 \<Longrightarrow>
      \<exists>h. free_pages (new_table s h t (unat (idx va)) p) xs \<and>
        upper s t va True =
          do { (l, s1) \<leftarrow> walk (new_table s h t (unat (idx va)) p) p va True;
               (case l of
                  None \<Rightarrow> do { s2 \<leftarrow> page_decref s1 p; Some (None, st t (unat (idx va)) 0 s2) }
                | Some _ \<Rightarrow> Some (l, s1)) }"
begin

lemma upper_create_present:
  assumes fp: "free_pages s xs" and ok: "entry_ok idx ok s t va A (set xs)"
    and A: "A \<inter> set xs = {}" and e: "pmem s t (unat (idx va)) = e" "e \<noteq> 0"
  shows "\<exists>r s' n. upper s t va True = Some (r, s') \<and> grows s s' xs n \<and>
    entry_ok idx ok s' t va A (set (drop n xs)) \<and>
    walk_result (entry_leaf idx leaf) (Suc need) xs s t va r s' n"
proof -
  have lok: "ok s (pte_frame e) va (insert t A) (set xs)" and t: "frame_ok s t va A (set xs)"
    and P: "e AND PTE_P \<noteq> 0"
    using ok e by (auto simp: entry_ok_def)
  have A': "insert t A \<inter> set xs = {}"
    using t A by (auto simp: frame_ok_def)
  obtain r s' n where w: "walk s (pte_frame e) va True = Some (r, s')" "grows s s' xs n"
    "ok s' (pte_frame e) va (insert t A) (set (drop n xs))"
    "walk_result leaf need xs s (pte_frame e) va r s' n"
    using walk_create [OF fp lok A'] by blast
  have e': "pmem s' t (unat (idx va)) = e"
    using growsD(4) [OF w(2), of t] t e by (simp add: frame_ok_def)
  have "upper s t va True = Some (r, s')"
    using upper_present [OF e KADDR_frame [OF ok_frame [OF lok]]] w(1) by simp
  moreover have "entry_ok idx ok s' t va A (set (drop n xs))"
    using w(3) e' P t growsD(2) [OF w(2)]
    by (auto simp: entry_ok_def frame_ok_def dest: in_set_dropD)
  ultimately show ?thesis
    using w e e' by (auto simp: entry_leaf_def walk_result_def split: option.splits if_splits)
qed

lemma upper_create_absent:
  assumes fp: "free_pages s (p # ys)" and t: "frame_ok s t va A (set (p # ys))"
    and A: "A \<inter> set (p # ys) = {}" and z: "pmem s t (unat (idx va)) = 0"
  shows "\<exists>r s' n. upper s t va True = Some (r, s') \<and> grows s s' (p # ys) n \<and>
    entry_ok idx ok s' t va A (set (drop n (p # ys))) \<and>
    walk_result (entry_leaf idx leaf) (Suc need) (p # ys) s t va r s' n"
proof -
  have tp: "t \<noteq> p" "t \<notin> set ys" "t \<notin> A" "t < npages s"
    and p: "p < npages s" "npages s \<le> 2 ^ 52" "p \<notin> set ys" "p \<notin> A" "distinct (p # ys)"
    using t fp A by (auto simp: frame_ok_def free_pages_def)
  let ?i = "unat (idx va)"
  obtain h where fpn: "free_pages (new_table s h t ?i p) ys" and eq: "upper s t va True =
      do { (l, s1) \<leftarrow> walk (new_table s h t ?i p) p va True;
           (case l of
              None \<Rightarrow> do { s2 \<leftarrow> page_decref s1 p; Some (None, st t ?i 0 s2) }
            | Some _ \<Rightarrow> Some (l, s1)) }"
    using upper_new [OF fp tp(1) z] by blast
  let ?n = "new_table s h t ?i p"
  have lok: "ok ?n p va (insert t A) (set ys)"
    by (rule ok_empty) (use p tp in \<open>auto simp: frame_ok_def\<close>)
  have A': "insert t A \<inter> set ys = {}"
    using A tp by auto
  obtain r s' n where w: "walk ?n p va True = Some (r, s')" "grows ?n s' ys n"
    "ok s' p va (insert t A) (set (drop n ys))"
    "walk_result leaf need ys ?n p va r s' n"
    using walk_create [OF fpn lok A'] by blast
  show ?thesis
  proof (cases r)
    case None
    then obtain s7 where s7: "page_decref s' p = Some s7" "grows s (st t ?i 0 s7) (p # ys) 0"
      using drop_table [OF fp fpn _ tp(1,2) z] w by (auto simp: walk_result_def)
    have "entry_ok idx ok (st t ?i 0 s7) t va A (set (p # ys))"
      using t growsD(2) [OF s7(2)] by (simp add: entry_ok_def frame_ok_def)
    with None s7 w z show ?thesis
      by (auto simp: eq entry_leaf_def walk_result_def)
  next
    case (Some l)
    have "pmem s' t ?i = page2pa p OR 0xE07"
      using growsD(4) [OF w(2) tp(2), of ?i] by simp
    then have "entry_ok idx ok s' t va A (set (drop n ys))" "entry_leaf idx leaf s' t va = leaf s' p va"
      using w(3) p tp growsD(2) [OF w(2)]
      by (auto simp: entry_ok_def entry_leaf_def frame_ok_def dest: in_set_dropD)
    moreover have "n \<noteq> 0"
      using w(4) Some leaf_empty [of ?n p va] tp(1)
      by (cases "n = 0") (auto simp: walk_result_def)
    ultimately show ?thesis
      using Some w z grows_trans [OF grows_new_table [OF fp fpn z] w(2) p(5)]
      by (intro exI [of _ r] exI [of _ s'] exI [of _ "Suc n"])
        (simp add: eq walk_result_def entry_leaf_def)
  qed
qed

end

sublocale table_level \<subseteq> next_level: walk_level upper "entry_ok idx ok" "entry_leaf idx leaf" "Suc need"
proof unfold_locales
  fix s xs t va A
  assume fp: "free_pages s xs" and ok: "entry_ok idx ok s t va A (set xs)" and A: "A \<inter> set xs = {}"
  show "\<exists>r s' n. upper s t va True = Some (r, s') \<and> grows s s' xs n \<and>
      entry_ok idx ok s' t va A (set (drop n xs)) \<and>
      walk_result (entry_leaf idx leaf) (Suc need) xs s t va r s' n"
  proof (cases "pmem s t (unat (idx va)) = 0")
    case False
    then show ?thesis
      using upper_create_present [OF fp ok A refl] by blast
  next
    case True
    show ?thesis
    proof (cases xs)
      case Nil
      with fp True have "upper s t va True = Some (None, s)"
        by (simp add: upper_full page_alloc_empty)
      with fp ok Nil True show ?thesis
        by (auto simp: grows_refl entry_leaf_def walk_result_def)
    next
      case (Cons p ys)
      with fp ok A True show ?thesis
        using upper_create_absent [of s p ys t va A] entry_ok_frame by blast
    qed
  qed
qed (auto simp: entry_ok_def entry_leaf_def)

subsection \<open>The contract holds of the three functions\<close>

lemma pgdir_walk_create:
  assumes fp: "free_pages s xs" and ok: "pgdir_ok s d va A (set xs)" and A: "A \<inter> set xs = {}"
  shows "\<exists>r s' n. pgdir_walk s d va True = Some (r, s') \<and> grows s s' xs n \<and>
    pgdir_ok s' d va A (set (drop n xs)) \<and>
    walk_result pgdir_leaf 1 xs s d va r s' n"
proof (cases "pmem s d (unat (PDX va)) = 0")
  case False
  with fp ok show ?thesis
    using pgdir_walk_present [OF ok, of True]
    by (auto simp: grows_refl pgdir_leaf_def entry_leaf_def slot_leaf_def walk_result_def
        intro!: exI [of _ s] exI [of _ "0::nat"])
next
  case z: True
  show ?thesis
  proof (cases xs)
    case Nil
    with fp z have "pgdir_walk s d va True = Some (None, s)"
      by (simp add: pgdir_walk_def page_alloc_empty)
    with fp ok z Nil show ?thesis
      by (auto simp: grows_refl pgdir_leaf_def entry_leaf_def walk_result_def)
  next
    case (Cons p ys)
    have dp: "d \<noteq> p" "d < npages s" "d \<notin> A" "d \<notin> set ys" "p < npages s" "npages s \<le> 2 ^ 52" "p \<notin> set ys"
      using path_ok_frame(1) [OF ok] fp Cons by (auto simp: frame_ok_def free_pages_def)
    obtain h where h: "pgdir_walk s d va True =
        Some (Some (p, unat (PTX va)), new_table s h d (unat (PDX va)) p)"
      "free_pages (new_table s h d (unat (PDX va)) p) ys"
      using pgdir_walk_new [OF fp [unfolded Cons] dp(1) z] by blast
    let ?n = "new_table s h d (unat (PDX va)) p"
    have "grows s ?n (p # ys) (Suc 0)"
      by (rule grows_new_table [OF fp [unfolded Cons] h(2) z])
    moreover have "pgdir_ok ?n d va A (set ys)" "pgdir_leaf ?n d va = Some (p, unat (PTX va))"
      using dp A Cons
      by (auto simp: pgdir_ok_def pgdir_leaf_def entry_ok_def entry_leaf_def slot_leaf_def frame_ok_def)
    moreover have "pgdir_leaf s d va = None"
      using z by (simp add: pgdir_leaf_def entry_leaf_def)
    ultimately show ?thesis
      using h(1) Cons dp(1)
      by (intro exI [of _ "Some (p, unat (PTX va))"] exI [of _ ?n] exI [of _ "Suc 0"])
        (simp add: walk_result_def)
  qed
qed


interpretation pgdir_level: walk_level pgdir_walk pgdir_ok pgdir_leaf 1
  by (rule walk_level.intro)
    (rule path_ok_frame(1), assumption, simp add: pgdir_leaf_def entry_leaf_def,
     simp add: pgdir_ok_def entry_ok_def, rule pgdir_walk_create)

interpretation pdpe_level: table_level pgdir_walk pgdir_ok pgdir_leaf 1 PDPE pdpe_walk
proof (rule table_level.intro [OF pgdir_level.walk_level_axioms], rule table_level_axioms.intro, goal_cases)
  case (3 s p xs t va)
  then show ?case
    by (rule pdpe_walk_new) blast
qed (simp_all add: pdpe_walk_def Let_def)

lemma walk_level_pdpe: "walk_level pdpe_walk pdpe_ok pdpe_leaf 2"
  using pdpe_level.next_level.walk_level_axioms by (simp add: pdpe_ok_def pdpe_leaf_def numeral_2_eq_2)

interpretation pml4e_level: table_level pdpe_walk pdpe_ok pdpe_leaf 2 PML4 "\<lambda>s t. pml4e_walk s (Some t)"
proof (rule table_level.intro [OF walk_level_pdpe], rule table_level_axioms.intro, goal_cases)
  case (3 s p xs t va)
  then show ?case
    by (rule pml4e_walk_new) blast
qed (simp_all add: pml4e_walk_def Let_def)

interpretation pml4e_walk_level: walk_level "\<lambda>s t. pml4e_walk s (Some t)" pml4e_ok pml4e_leaf 3
  using pml4e_level.next_level.walk_level_axioms by (simp add: pml4e_ok_def pml4e_leaf_def numeral_3_eq_3 numeral_2_eq_2)

lemmas pml4e_walk_create = pml4e_walk_level.walk_create

end
