(* ===== verification/Page_Map.thy ===== *)
theory Page_Map
  imports Page_Table
begin

section \<open>Inserting, looking up and removing mappings\<close>

text \<open>
  Correctness of \<^verbatim>\<open>page_lookup\<close>, \<^verbatim>\<open>page_remove\<close>, \<^verbatim>\<open>page_insert\<close>,
  \<^verbatim>\<open>boot_map_region\<close>, \<^verbatim>\<open>mmio_map_region\<close> and \<^verbatim>\<open>user_mem_check\<close> of
  \<^verbatim>\<open>kern/pmap.c\<close>, over the walk contract of \<open>Page_Table\<close>. \<open>pte_at s root va\<close> is the
  page table entry for \<open>va\<close> (0 where a table is missing), which is all that an address
  translation depends on; reference counts are tracked as changes against the old entry.
\<close>

subsection \<open>Paths under changes of the state\<close>

lemmas path_ok_defs = pml4e_ok_def pdpe_ok_def pgdir_ok_def entry_ok_def frame_ok_def
lemmas path_leaf_defs = pml4e_leaf_def pdpe_leaf_def pgdir_leaf_def entry_leaf_def slot_leaf_def

lemma pml4e_ok_mono: "pml4e_ok s root va A X \<Longrightarrow> A' \<union> X' \<subseteq> A \<union> X \<Longrightarrow> pml4e_ok s root va A' X'"
  by (auto simp: path_ok_defs)

lemma pml4e_path_cong:
  "npages s' = npages s \<Longrightarrow> pmem s' = pmem s \<Longrightarrow> pml4e_ok s' root va A X = pml4e_ok s root va A X"
  "pmem s' = pmem s \<Longrightarrow> pml4e_leaf s' root va = pml4e_leaf s root va"
  by (simp_all add: path_ok_defs path_leaf_defs)

text \<open>
  \<open>leaf_kept s s' va f i X ok leaf\<close>: a change of memory confined to the frame \<open>f\<close> of the leaf table
  keeps the path to it.
\<close>

definition leaf_kept where
  "leaf_kept s s' va f i X ok leaf \<longleftrightarrow> (\<forall>t A. ok s t va A X \<longrightarrow> leaf s t va = Some (f, i) \<longrightarrow>
     ok s' t va A X \<and> leaf s' t va = Some (f, i) \<and> f \<notin> A \<and> f \<notin> X \<and> f < npages s \<and> i = unat (PTX va))"

lemma leaf_kept_entry:
  assumes "leaf_kept s s' va f i X ok leaf" "\<And>g. g \<noteq> f \<Longrightarrow> pmem s' g = pmem s g" "npages s' = npages s"
  shows "leaf_kept s s' va f i X (entry_ok idx ok) (entry_leaf idx leaf)"
  unfolding leaf_kept_def
proof (intro allI impI)
  fix t A assume ok: "entry_ok idx ok s t va A X" and leaf: "entry_leaf idx leaf s t va = Some (f, i)"
  let ?e = "pmem s t (unat (idx va))"
  from ok leaf have b: "ok s (pte_frame ?e) va (insert t A) X" "leaf s (pte_frame ?e) va = Some (f, i)"
    "frame_ok s t va A X" "?e \<noteq> 0" "?e AND PTE_P \<noteq> 0"
    by (auto simp: entry_ok_def entry_leaf_def split: if_splits)
  with assms(1) have k: "ok s' (pte_frame ?e) va (insert t A) X" "leaf s' (pte_frame ?e) va = Some (f, i)"
    "f \<notin> insert t A" "f \<notin> X" "f < npages s" "i = unat (PTX va)"
    unfolding leaf_kept_def by blast+
  then have "pmem s' t = pmem s t"
    using assms(2) by auto
  with b k assms(3) show "entry_ok idx ok s' t va A X \<and> entry_leaf idx leaf s' t va = Some (f, i) \<and>
      f \<notin> A \<and> f \<notin> X \<and> f < npages s \<and> i = unat (PTX va)"
    by (simp add: entry_ok_def entry_leaf_def frame_ok_def)
qed

lemma leaf_kept_pml4e:
  assumes "\<And>g. g \<noteq> f \<Longrightarrow> pmem s' g = pmem s g" "npages s' = npages s"
  shows "leaf_kept s s' va f i X pml4e_ok pml4e_leaf"
  unfolding pml4e_ok_def pdpe_ok_def pgdir_ok_def pml4e_leaf_def pdpe_leaf_def pgdir_leaf_def
  by (intro leaf_kept_entry assms) (auto simp: leaf_kept_def frame_ok_def slot_leaf_def assms)

lemma pml4e_leafD:
  assumes "pml4e_ok s root va A X" "pml4e_leaf s root va = Some (f, i)"
  shows "f < npages s" "f \<notin> A" "f \<notin> X" "i = unat (PTX va)"
  using leaf_kept_pml4e [of f s s va i X] assms by (auto simp: leaf_kept_def)

lemma pml4e_leaf_change:
  assumes "pml4e_ok s root va A X" "pml4e_leaf s root va = Some (f, i)"
    and "\<And>g. g \<noteq> f \<Longrightarrow> pmem s' g = pmem s g" "npages s' = npages s"
  shows "pml4e_ok s' root va A X" "pml4e_leaf s' root va = Some (f, i)"
  using leaf_kept_pml4e [of f s' s va i X] assms by (auto simp: leaf_kept_def)

subsection \<open>Lookup and removal\<close>

definition pte_at :: "kern \<Rightarrow> nat \<Rightarrow> u64 \<Rightarrow> u64" where
  "pte_at s root va = (case pml4e_leaf s root va of None \<Rightarrow> 0 | Some (f, i) \<Rightarrow> pmem s f i)"

lemma tlb_invalidate_ok:
  obtains k where "tlb_invalidate s (Some root) va = Some (s\<lparr>tlb_flushes := k\<rparr>)"
proof (cases "curenv s = None \<or> env_pml4e (envs s (the (curenv s))) = Some root")
  case True
  then show ?thesis
    by (intro that [of "va # tlb_flushes s"]) (auto simp: tlb_invalidate_def split: option.split)
next
  case False
  then show ?thesis
    by (intro that [of "tlb_flushes s"]) (auto simp: tlb_invalidate_def)
qed

lemma page_lookup_ok:
  assumes "pml4e_ok s root va A X" "pte_frame (pte_at s root va) < npages s"
  shows "page_lookup s (Some root) va =
    Some (map_option (\<lambda>(f, i). (pte_frame (pte_at s root va), f, i)) (pml4e_leaf s root va), s)"
  using assms pml4e_walk_nocreate [OF assms(1)]
  by (auto simp: page_lookup_def pte_at_def pa2page_PTE split: option.splits)

lemma pml4e_path_tlb [simp]:
  "pml4e_ok (s\<lparr>tlb_flushes := k\<rparr>) = pml4e_ok s" "pml4e_leaf (s\<lparr>tlb_flushes := k\<rparr>) = pml4e_leaf s"
  "free_pages (s\<lparr>tlb_flushes := k\<rparr>) = free_pages s"
  by (auto simp: fun_eq_iff path_ok_defs path_leaf_defs free_pages_def)

definition map_only :: "kern \<Rightarrow> kern \<Rightarrow> bool" where
  "map_only s s' \<longleftrightarrow> mem_only (s\<lparr>tlb_flushes := tlb_flushes s'\<rparr>) s'"

lemma map_onlyD:
  assumes "map_only s s'"
  shows "npages s' = npages s" "nextfree s' = nextfree s" "boot_pml4e s' = boot_pml4e s"
    "mmio_base s' = mmio_base s" "user_mem_check_addr s' = user_mem_check_addr s"
    "envs s' = envs s" "env_free_list s' = env_free_list s" "curenv s' = curenv s"
    "cpu_status s' = cpu_status s" "is_vmx_root s' = is_vmx_root s" "cpu_cr3 s' = cpu_cr3 s"
  using mem_onlyD [OF assms [unfolded map_only_def]] by simp_all

lemma map_only_trans: "map_only s s1 \<Longrightarrow> map_only s1 s2 \<Longrightarrow> map_only s s2"
  unfolding mem_only_def map_only_def by (cases s, cases s1, cases s2) simp

lemma mem_map_only: "mem_only s s' \<Longrightarrow> map_only s s'"
  unfolding mem_only_def map_only_def by (cases s, cases s') simp

lemma map_only_upd [simp]:
  "map_only s (s\<lparr>tlb_flushes := k\<rparr>)" "map_only s (st f i v s)" "map_only s (upd_page p g s)"
  "map_only s (page_incref p s)" "map_only s (given s l p)"
  by (simp_all add: map_only_def mem_only_def st_def upd_page_def page_incref_def given_def)

text \<open>Dropping one reference; the page goes back to the free list with the last one.\<close>

definition unref :: "kern \<Rightarrow> nat \<Rightarrow> nat list \<Rightarrow> nat list" where
  "unref s q xs = (if pp_ref (pages s q) = 1 then q # xs else xs)"

lemma page_decref_ok:
  assumes fp: "free_pages s xs" and q: "q \<notin> set xs" "q < npages s" "pp_ref (pages s q) \<noteq> 0"
  obtains s' where "page_decref s q = Some s'" "free_pages s' (unref s q xs)" "map_only s s'"
    "pmem s' = pmem s"
    "\<And>p. pp_ref (pages s' p) = (if p = q then pp_ref (pages s q) - 1 else pp_ref (pages s p))"
proof (cases "pp_ref (pages s q) = 1")
  case True
  then obtain l where l: "page_decref s q = Some (given (upd_page q (\<lambda>r. r\<lparr>pp_ref := 0\<rparr>) s) l q)"
    "free_pages (given (upd_page q (\<lambda>r. r\<lparr>pp_ref := 0\<rparr>) s) l q) (q # xs)"
    using page_decref_last [OF fp q(1,2)] by blast
  show ?thesis
    using map_only_trans [OF map_only_upd(3) map_only_upd(5)] l(2) True
    by (intro that [OF l(1)]) (auto simp: unref_def, auto simp: given_def)
next
  case False
  let ?s = "upd_page q (\<lambda>r. r\<lparr>pp_ref := pp_ref r - 1\<rparr>) s"
  have "free_pages ?s xs"
    by (rule free_pages_cong [OF fp]) (use q(1) in auto)
  with False show ?thesis
    by (intro that [OF page_decref_shared [OF False]]) (auto simp: unref_def)
qed

lemma page_remove_ok:
  assumes fp: "free_pages s xs" and ok: "pml4e_ok s root va A X"
    and leaf: "pml4e_leaf s root va = Some (f, i)" and q: "pte_frame (pmem s f i) = q"
    "q \<notin> set xs" "q < npages s" "pp_ref (pages s q) \<noteq> 0"
  obtains s' where "page_remove s (Some root) va = Some s'" "free_pages s' (unref s q xs)" "map_only s s'"
    "pmem s' = (pmem s)(f := (pmem s f)(i := 0))"
    "\<And>p. pp_ref (pages s' p) = (if p = q then pp_ref (pages s q) - 1 else pp_ref (pages s p))"
proof -
  have lk: "page_lookup s (Some root) va = Some (Some (q, f, i), s)"
    using page_lookup_ok [OF ok] leaf q by (simp add: pte_at_def)
  obtain s1 where s1: "page_decref s q = Some s1" "free_pages s1 (unref s q xs)" "map_only s s1"
    "pmem s1 = pmem s"
    "\<And>p. pp_ref (pages s1 p) = (if p = q then pp_ref (pages s q) - 1 else pp_ref (pages s p))"
    using page_decref_ok [OF fp q(2-4)] by metis
  obtain k where k: "tlb_invalidate (st f i 0 s1) (Some root) va = Some ((st f i 0 s1)\<lparr>tlb_flushes := k\<rparr>)"
    by (rule tlb_invalidate_ok)
  show ?thesis
  proof (rule that)
    show "page_remove s (Some root) va = Some ((st f i 0 s1)\<lparr>tlb_flushes := k\<rparr>)"
      using lk s1(1) k by (simp add: page_remove_def)
    have "free_pages (st f i 0 s1) (unref s q xs)"
      by (rule free_pages_cong [OF s1(2)]) simp_all
    then show "free_pages ((st f i 0 s1)\<lparr>tlb_flushes := k\<rparr>) (unref s q xs)"
      by simp
    show "map_only s ((st f i 0 s1)\<lparr>tlb_flushes := k\<rparr>)"
      by (rule map_only_trans [OF s1(3) map_only_trans [OF map_only_upd(2) map_only_upd(1)]])
  qed (simp_all add: s1 st_def)
qed


subsection \<open>Insertion\<close>

text \<open>
  \<open>inserted root pp va perm xs s s'\<close>: what a successful \<^verbatim>\<open>page_insert\<close> does. At most three of the
  free pages \<open>xs\<close> became tables, the entry for \<open>va\<close> holds \<open>pp\<close> with the permissions, no other
  entry that was set has changed, and each page's reference count has gone up by one if the page
  is \<open>pp\<close> and down by one if it was mapped at \<open>va\<close>; a page losing its last reference is free.
\<close>

definition old_page :: "u64 \<Rightarrow> nat set" where
  "old_page e = (if e = 0 then {} else {pte_frame e})"

definition other_ptes_kept :: "kern \<Rightarrow> kern \<Rightarrow> nat list \<Rightarrow> nat \<times> nat \<Rightarrow> bool" where
  "other_ptes_kept s s' xs l \<longleftrightarrow>
     (\<forall>g j. g \<notin> set xs \<longrightarrow> (g, j) \<noteq> l \<longrightarrow> pmem s g j \<noteq> 0 \<longrightarrow> pmem s' g j = pmem s g j)"

definition inserted ::
  "nat \<Rightarrow> nat \<Rightarrow> u64 \<Rightarrow> u64 \<Rightarrow> nat list \<Rightarrow> kern \<Rightarrow> kern \<Rightarrow> bool" where
  "inserted root pp va perm xs s s' \<longleftrightarrow>
     (\<exists>n f i. let e = pte_at s root va; ys = drop n xs in
        n \<le> 3 \<and> pml4e_leaf s' root va = Some (f, i) \<and>
        pml4e_ok s' root va (insert pp (old_page e)) (set ys) \<and>
        pte_at s' root va = page2pa pp OR perm OR PTE_P \<and>
        free_pages s' (if e = 0 \<or> pte_frame e = pp then ys else unref s (pte_frame e) ys) \<and>
        other_ptes_kept s s' xs (f, i) \<and>
        (\<forall>p. p \<notin> set xs \<longrightarrow>
           pp_ref (pages s' p) = pp_ref (pages s p) + of_bool (p = pp) - of_bool (p \<in> old_page e)))"

lemma insertedI:
  assumes "n \<le> 3" "pte_at s root va = e" "old_page e = Q" "pml4e_leaf s' root va = Some (f, i)"
    and "pml4e_ok s' root va (insert pp Q) (set (drop n xs))"
    and "pte_at s' root va = page2pa pp OR perm OR PTE_P"
    and "free_pages s' (if e = 0 \<or> pte_frame e = pp then drop n xs else unref s (pte_frame e) (drop n xs))"
    and "other_ptes_kept s s' xs (f, i)"
    and "\<And>p. p \<notin> set xs \<Longrightarrow>
      pp_ref (pages s' p) = pp_ref (pages s p) + of_bool (p = pp) - of_bool (p \<in> Q)"
  shows "inserted root pp va perm xs s s'"
  unfolding inserted_def Let_def assms(2,3)
  by (intro exI [of _ n] exI [of _ f] exI [of _ i] conjI allI impI) (use assms in blast)+

text \<open>The three ways to set the entry, once the walk has returned its place \<open>(f, i)\<close> in state \<open>s1\<close>.\<close>

lemma page_insert_same:
  assumes "pml4e_walk s (Some root) va True = Some (Some (f, i), s)"
    and fp: "free_pages s xs" and ok: "pml4e_ok s root va (insert pp (old_page (pte_at s root va))) (set xs)"
    and leaf: "pml4e_leaf s root va = Some (f, i)"
    and e: "PTE_ADDR (pmem s f i) = page2pa pp" "pmem s f i \<noteq> 0" "pte_frame (pmem s f i) = pp"
  shows "\<exists>s'. page_insert s (Some root) pp va perm = Some (0, s') \<and> map_only s s' \<and>
    inserted root pp va perm xs s s'"
proof -
  let ?v = "page2pa pp OR perm OR PTE_P"
  obtain k where k: "tlb_invalidate (st f i ?v s) (Some root) va = Some ((st f i ?v s)\<lparr>tlb_flushes := k\<rparr>)"
    by (rule tlb_invalidate_ok)
  let ?s = "(st f i ?v s)\<lparr>tlb_flushes := k\<rparr>"
  have "pml4e_ok ?s root va (insert pp (old_page (pte_at s root va))) (set xs)" 
    "pml4e_leaf ?s root va = Some (f, i)"
    by (rule pml4e_leaf_change [OF ok leaf], simp_all)+
  moreover have "free_pages ?s xs"
    by (simp, rule free_pages_cong [OF fp]) simp_all
  moreover have "pte_at s root va = pmem s f i"
    by (simp add: pte_at_def leaf)
  ultimately have "inserted root pp va perm xs s ?s"
    using e unfolding inserted_def
    by (intro exI [of _ 0] exI [of _ f] exI [of _ i])
      (auto simp: pte_at_def other_ptes_kept_def old_page_def)
  moreover have "map_only s ?s"
    by (rule map_only_trans [OF map_only_upd(2) map_only_upd(1)])
  moreover have "page_insert s (Some root) pp va perm = Some (0, ?s)"
    using assms(1) e k by (simp add: page_insert_def)
  ultimately show ?thesis by blast
qed


lemma page_insert_fresh:
  assumes walk: "pml4e_walk s (Some root) va True = Some (Some (f, i), s1)"
    and g: "grows s s1 xs n" "n \<le> 3" and ok: "pml4e_ok s1 root va {pp} (set (drop n xs))"
    and leaf: "pml4e_leaf s1 root va = Some (f, i)"
    and e: "pte_at s root va = 0" "pmem s1 f i = 0" and pp: "page2pa pp \<noteq> 0" "pp \<notin> set xs"
  shows "\<exists>s'. page_insert s (Some root) pp va perm = Some (0, s') \<and> map_only s s' \<and>
    inserted root pp va perm xs s s'"
proof -
  let ?s = "page_incref pp (st f i (page2pa pp OR perm OR PTE_P) s1)"
  have "pml4e_ok ?s root va {pp} (set (drop n xs))" "pml4e_leaf ?s root va = Some (f, i)"
    by (rule pml4e_leaf_change [OF ok leaf], simp_all)+
  moreover have "free_pages ?s (drop n xs)"
    by (rule free_pages_cong [OF growsD(1) [OF g(1)]]) (use pp(2) in \<open>auto dest: in_set_dropD\<close>)
  ultimately have "inserted root pp va perm xs s ?s"
    using g(2) e(1) growsD(4,5) [OF g(1)] unfolding inserted_def
    by (intro exI [of _ n] exI [of _ f] exI [of _ i])
      (auto simp: pte_at_def other_ptes_kept_def old_page_def)
  moreover have "map_only s ?s"
    by (rule map_only_trans [OF mem_map_only [OF growsD(3) [OF g(1)]]
          map_only_trans [OF map_only_upd(2) map_only_upd(4)]])
  moreover have "page_insert s (Some root) pp va perm = Some (0, ?s)"
    using walk e(2) pp by (simp add: page_insert_def)
  ultimately show ?thesis by blast
qed

lemma page_insert_replace:
  assumes walk: "pml4e_walk s (Some root) va True = Some (Some (f, i), s)"
    and fp: "free_pages s xs" and ok: "pml4e_ok s root va {pp, q} (set xs)"
    and leaf: "pml4e_leaf s root va = Some (f, i)" and e: "pmem s f i \<noteq> 0" "pte_frame (pmem s f i) = q"
    and q: "q \<notin> set xs" "q < npages s" "pp_ref (pages s q) \<noteq> 0"
    and pp: "PTE_ADDR (pmem s f i) \<noteq> page2pa pp" "pp \<noteq> q" "pp \<notin> set xs"
  shows "\<exists>s'. page_insert s (Some root) pp va perm = Some (0, s') \<and> map_only s s' \<and>
    inserted root pp va perm xs s s'"
proof -
  obtain s1 where s1: "page_remove s (Some root) va = Some s1" "free_pages s1 (unref s q xs)" "map_only s s1"
    "pmem s1 = (pmem s)(f := (pmem s f)(i := 0))"
    "\<And>p. pp_ref (pages s1 p) = (if p = q then pp_ref (pages s q) - 1 else pp_ref (pages s p))"
    using page_remove_ok [OF fp ok leaf e(2) q] by metis
  obtain k where k: "tlb_invalidate s1 (Some root) va = Some (s1\<lparr>tlb_flushes := k\<rparr>)"
    by (rule tlb_invalidate_ok)
  let ?s = "page_incref pp (st f i (page2pa pp OR perm OR PTE_P) (s1\<lparr>tlb_flushes := k\<rparr>))"
  have ok': "pml4e_ok ?s root va {pp, q} (set xs)" and leaf': "pml4e_leaf ?s root va = Some (f, i)"
    by (rule pml4e_leaf_change [OF ok leaf], simp_all add: s1 map_onlyD(1) [OF s1(3)])+
  have fp': "free_pages ?s (unref s q xs)"
    by (rule free_pages_cong [OF s1(2)]) (use pp in \<open>auto simp: unref_def split: if_splits\<close>)
  have refs: "pp_ref (pages ?s p) = pp_ref (pages s p) + of_bool (p = pp) - of_bool (p = q)" for p
    using pp(2) by (simp add: s1(5))
  have "inserted root pp va perm xs s ?s"
  proof (rule insertedI [of 0 s root va "pmem s f i" "{q}", OF _ _ _ leaf'])
    show "pte_at ?s root va = page2pa pp OR perm OR PTE_P" "other_ptes_kept s ?s xs (f, i)"
      using leaf' by (simp_all add: pte_at_def other_ptes_kept_def s1(4))
  qed (use e leaf ok' fp' pp(2) refs in \<open>simp_all add: pte_at_def old_page_def del: page_incref_simps\<close>)
  moreover have "map_only s ?s"
    by (rule map_only_trans [OF map_only_trans [OF s1(3) map_only_upd(1)]
          map_only_trans [OF map_only_upd(2) map_only_upd(4)]])
  moreover have "page_insert s (Some root) pp va perm = Some (0, ?s)"
    using walk e(1) s1(1) pp(1) k by (simp add: page_insert_def Let_def)
  ultimately show ?thesis by blast
qed

lemma page_insert_ok:
  assumes fp: "free_pages s xs"
    and ok: "pml4e_ok s root va (insert pp (old_page (pte_at s root va))) (set xs)"
    and pp: "0 < pp" "pp < npages s" "pp \<notin> set xs"
    and old: "\<And>q. q \<in> old_page (pte_at s root va) \<Longrightarrow>
      q < npages s \<and> q \<notin> set xs \<and> pp_ref (pages s q) \<noteq> 0"
  shows "\<exists>r s'. page_insert s (Some root) pp va perm = Some (r, s') \<and> map_only s s' \<and>
    (if r = 0 then inserted root pp va perm xs s s'
     else r = err E_NO_MEM \<and> pml4e_leaf s root va = None \<and> length xs < 3 \<and> grows s s' xs 0)"
proof -
  have "insert pp (old_page (pte_at s root va)) \<inter> set xs = {}"
    using pp(3) old by auto
  then obtain r s1 n where w: "pml4e_walk s (Some root) va True = Some (r, s1)" "grows s s1 xs n"
    "pml4e_ok s1 root va (insert pp (old_page (pte_at s root va))) (set (drop n xs))"
    "walk_result pml4e_leaf 3 xs s root va r s1 n"
    using pml4e_walk_create [OF fp ok] by blast
  have N: "npages s \<le> 2 ^ 52"
    using fp by (simp add: free_pages_def)
  then have pa: "page2pa pp \<noteq> 0"
    using page2pa_inj [of pp 0] pp by (simp add: page2pa_def)
  consider "r = None" | f i where "r = Some (f, i)" "n \<noteq> 0" | f i where "r = Some (f, i)" "n = 0"
    by (metis option.exhaust surj_pair)
  then show ?thesis
  proof cases
    case 1
    then show ?thesis
      using w mem_map_only [OF growsD(3) [OF w(2)]]
      by (auto simp: page_insert_def walk_result_def)
  next
    case (2 f i)
    then have "pte_at s root va = 0" "pml4e_leaf s1 root va = Some (f, i)" "pmem s1 f i = 0" "n \<le> 3"
      using w(4) by (auto simp: walk_result_def pte_at_def)
    then show ?thesis
      using page_insert_fresh [of s root va f i s1 xs n pp perm] w 2 pa pp(3)
      by (auto simp: old_page_def)
  next
    case (3 f i)
    then have s: "s1 = s" "pml4e_leaf s root va = Some (f, i)" "pte_at s root va = pmem s f i"
      using w(4) by (auto simp: walk_result_def pte_at_def)
    let ?e = "pmem s f i"
    have w1: "pml4e_walk s (Some root) va True = Some (Some (f, i), s)"
      using w(1) 3 s by simp
    have pa_eq: "PTE_ADDR ?e = page2pa pp \<longleftrightarrow> pte_frame ?e = pp"
      using page2pa_inj [of "pte_frame ?e" pp] pte_frame_less [of ?e] pp N
      by (simp add: page2pa_pte_frame)
    consider "?e = 0" | "?e \<noteq> 0" "pte_frame ?e = pp" | "?e \<noteq> 0" "pte_frame ?e \<noteq> pp"
      by blast
    then show ?thesis
    proof cases
      case 1
      then show ?thesis
        using page_insert_fresh [OF w1 grows_refl [OF fp], of pp perm] ok s pa pp(3)
        by (auto simp: old_page_def)
    next
      case 2
      then show ?thesis
        using page_insert_same [OF w1 fp ok s(2), of perm] pa_eq by (intro exI [of _ 0]) simp
    next
      case 3
      then show ?thesis
        using page_insert_replace [OF w1 fp _ s(2) 3(1) refl, of pp perm] ok old pa_eq pp(3) s(3)
        by (intro exI [of _ 0]) (simp add: old_page_def)
    qed
  qed
qed

subsection \<open>What the operations leave alone\<close>

text \<open>
  Whatever the state, the operations of this file change only the page descriptors, the free list,
  the contents of memory and the log of TLB flushes.
\<close>

lemma map_only_refl [simp]: "map_only s s"
  by (simp add: mem_map_only)

lemma map_only_upds [simp]:
  "map_only s (st f i v s') = map_only s s'" "map_only s (upd_page p g s') = map_only s s'"
  "map_only s (memset_page f w s') = map_only s s'" "map_only s (page_incref p s') = map_only s s'"
  "map_only s (s'\<lparr>page_free_list := h\<rparr>) = map_only s s'" "map_only s (s'\<lparr>tlb_flushes := k\<rparr>) = map_only s s'"
  by (cases s; cases s'; simp add: map_only_def mem_only_def st_def upd_page_def memset_page_def page_incref_def)+

lemma map_only_upds_left [simp]:
  "map_only (st f i v s) s' = map_only s s'" "map_only (upd_page p g s) s' = map_only s s'"
  "map_only (memset_page f w s) s' = map_only s s'" "map_only (page_incref p s) s' = map_only s s'"
  "map_only (s\<lparr>page_free_list := h\<rparr>) s' = map_only s s'" "map_only (s\<lparr>tlb_flushes := k\<rparr>) s' = map_only s s'"
  by (cases s; cases s'; simp add: map_only_def mem_only_def st_def upd_page_def memset_page_def page_incref_def)+

named_theorems map_frame

lemma page_alloc_frame [map_frame]: "page_alloc s fl = Some (r, s') \<Longrightarrow> map_only s s'"
  by (auto simp: page_alloc_def Let_def split: option.splits if_splits Option.bind_splits)

lemma page_free_frame [map_frame]: "page_free s p = Some s' \<Longrightarrow> map_only s s'"
  by (auto simp: page_free_def split: if_splits)

lemma page_decref_frame [map_frame]: "page_decref s p = Some s' \<Longrightarrow> map_only s s'"
  by (auto simp: page_decref_def Let_def split: if_splits dest!: page_free_frame)

lemma pgdir_walk_frame [map_frame]: "pgdir_walk s d va c = Some (r, s') \<Longrightarrow> map_only s s'"
  by (auto simp: pgdir_walk_def Let_def split: option.splits if_splits Option.bind_splits dest!: page_alloc_frame)

lemma pdpe_walk_frame [map_frame]: "pdpe_walk s d va c = Some (r, s') \<Longrightarrow> map_only s s'"
  by (auto simp: pdpe_walk_def Let_def split: option.splits if_splits Option.bind_splits
      dest!: page_alloc_frame pgdir_walk_frame page_decref_frame) (blast intro: map_only_trans)+

lemma pml4e_walk_frame [map_frame]: "pml4e_walk s r va c = Some (l, s') \<Longrightarrow> map_only s s'"
  by (auto simp: pml4e_walk_def Let_def split: option.splits if_splits Option.bind_splits
      dest!: page_alloc_frame pdpe_walk_frame page_decref_frame) (blast intro: map_only_trans)+

lemma tlb_invalidate_frame [map_frame]: "tlb_invalidate s r va = Some s' \<Longrightarrow> map_only s s'"
  by (auto simp: tlb_invalidate_def split: option.splits if_splits)


lemma page_lookup_state: "page_lookup s pml4e va = Some (r, s1) \<Longrightarrow> s1 = s"
  by (auto simp: page_lookup_def pml4e_walk_def pdpe_walk_def pgdir_walk_def Let_def
      split: option.splits if_splits Option.bind_splits)

lemma page_lookup_frame [map_frame]: "page_lookup s r va = Some (l, s') \<Longrightarrow> map_only s s'"
  using page_lookup_state by fastforce

lemma page_remove_frame [map_frame]: "page_remove s r va = Some s' \<Longrightarrow> map_only s s'"
  by (auto simp: page_remove_def split: option.splits if_splits Option.bind_splits
      dest!: page_lookup_state page_decref_frame tlb_invalidate_frame) (blast intro: map_only_trans)+

lemma page_insert_frame [map_frame]: "page_insert s r p va perm = Some (x, s') \<Longrightarrow> map_only s s'"
  by (auto simp: page_insert_def Let_def split: option.splits if_splits Option.bind_splits
      dest!: pml4e_walk_frame page_remove_frame tlb_invalidate_frame) (blast intro: map_only_trans)+

lemma boot_map_frame [map_frame]:
  "boot_map_page r la pa perm s = Some s' \<Longrightarrow> map_only s s'"
  "boot_map_loop n r la pa perm s = Some s' \<Longrightarrow> map_only s s'"
proof -
  show page: "map_only s s'" if "boot_map_page r la pa perm s = Some s'" for la pa s s'
    using that by (auto simp: boot_map_page_def Let_def split: option.splits Option.bind_splits dest!: pml4e_walk_frame)
  show "map_only s s'" if "boot_map_loop n r la pa perm s = Some s'"
    using that by (induction n arbitrary: la pa s)
      (auto split: Option.bind_splits dest!: page intro: map_only_trans)
qed

subsection \<open>Checking user pointers\<close>

lemma unat_ROUNDDOWN_page: "unat (ROUNDDOWN va PGSIZE) = unat va div 4096 * 4096"
  by (simp add: unat_ROUNDDOWN minus_mod_eq_div_mult)

lemma bit_ROUNDDOWN_page: "bit (ROUNDDOWN va PGSIZE) n \<longleftrightarrow> 12 \<le> n \<and> bit va n"
proof -
  have "ROUNDDOWN va PGSIZE = push_bit 12 (drop_bit 12 va)"
    by (simp add: ROUNDDOWN_def minus_mod_eq_div_mult push_bit_eq_mult drop_bit_eq_div)
  then show ?thesis
    by (auto simp: bit_simps dest: bit_imp_le_length)
qed

lemma indices_ROUNDDOWN [simp]:
  "PML4 (ROUNDDOWN va PGSIZE) = PML4 va" "PDPE (ROUNDDOWN va PGSIZE) = PDPE va"
  "PDX (ROUNDDOWN va PGSIZE) = PDX va" "PTX (ROUNDDOWN va PGSIZE) = PTX va"
  by (rule bit_word_eqI, auto simp only: bit_indices bit_ROUNDDOWN_page)+

lemma page_lookup_ROUNDDOWN: "page_lookup s pml4e (ROUNDDOWN va PGSIZE) = page_lookup s pml4e va"
  unfolding page_lookup_def pml4e_walk_def pdpe_walk_def pgdir_walk_def indices_ROUNDDOWN ..

text \<open>\<open>user_page_ok\<close>: one address passes the check of \<^verbatim>\<open>user_mem_check\<close>.\<close>

definition user_page_ok :: "kern \<Rightarrow> nat option \<Rightarrow> u64 \<Rightarrow> u64 \<Rightarrow> bool" where
  "user_page_ok s pml4e perm x \<longleftrightarrow>
     (case page_lookup s pml4e x of
        Some (Some (pp, f, i), _) \<Rightarrow> pmem s f i AND perm = perm \<and> x < ULIM
      | _ \<Rightarrow> False)"

lemma user_mem_check_loop_iff:
  "user_mem_check_loop n s pml4e va start perm = Some (0, s') \<longleftrightarrow>
   s' = s \<and> (\<forall>k<n. user_page_ok s pml4e perm (start + of_nat k * PGSIZE))"
proof (induction n arbitrary: start)
  case (Suc n)
  show ?case
  proof (cases "user_page_ok s pml4e perm start")
    case True
    then obtain pp f i s1 where "page_lookup s pml4e start = Some (Some (pp, f, i), s1)"
      "pmem s f i AND perm = perm" "\<not> ULIM \<le> start"
      by (auto simp: user_page_ok_def not_le split: option.splits)
    moreover from this have "s1 = s"
      using page_lookup_state by blast
    ultimately have "user_mem_check_loop (Suc n) s pml4e va start perm =
        user_mem_check_loop n s pml4e va (start + PGSIZE) perm"
      by simp
    with Suc [of "start + PGSIZE"] True show ?thesis
      by (auto simp: All_less_Suc2 algebra_simps)
  next
    case False
    then have "user_mem_check_loop (Suc n) s pml4e va start perm \<noteq> Some (0, s')"
      using page_lookup_state [of s pml4e start]
      by (auto simp: user_page_ok_def not_le split: option.splits Option.bind_splits if_splits)
    with False show ?thesis
      by (auto intro: exI [of _ 0])
  qed
qed auto

lemma user_page_ok_ROUNDDOWN:
  "user_page_ok s pml4e perm (ROUNDDOWN x PGSIZE) = user_page_ok s pml4e perm x"
proof -
  have "ROUNDDOWN x PGSIZE < ULIM \<longleftrightarrow> x < ULIM"
    using div_less_iff_less_mult [of 4096 "unat x" 134233088]
    unfolding word_less_nat_alt unat_ROUNDDOWN_page by simp
  then show ?thesis
    unfolding user_page_ok_def page_lookup_ROUNDDOWN by (simp only:)
qed

lemma user_mem_check_iff:
  assumes nowrap: "unat va + unat len + 4095 < 2 ^ 64"
  shows "user_mem_check s env va len perm = Some (0, s') \<longleftrightarrow> s' = s \<and>
    (\<forall>x. unat va div 4096 \<le> unat x div 4096 \<longrightarrow>
         unat x div 4096 < (unat va + unat len + 4095) div 4096 \<longrightarrow>
         user_page_ok s (env_pml4e (envs s env)) (perm OR PTE_P) x)"
proof -
  let ?a = "unat va div 4096" and ?b = "(unat va + unat len + 4095) div 4096"
  let ?P = "user_page_ok s (env_pml4e (envs s env)) (perm OR PTE_P)"
  have sum: "unat (va + len) = unat va + unat len"
    using nowrap by (simp add: unat_word_ariths)
  have a: "unat (ROUNDDOWN va PGSIZE) = ?a * 4096"
    by (rule unat_ROUNDDOWN_page)
  have b: "unat (ROUNDUP (va + len) PGSIZE) = ?b * 4096"
    using unat_ROUNDUP [of PGSIZE "va + len"] nowrap sum by simp
  have n: "(if ROUNDDOWN va PGSIZE < ROUNDUP (va + len) PGSIZE
      then (unat (ROUNDUP (va + len) PGSIZE) - unat (ROUNDDOWN va PGSIZE)) div 4096 else 0) = ?b - ?a"
    unfolding word_less_nat_alt a b by (auto simp flip: diff_mult_distrib)
  have "(\<forall>k<?b - ?a. ?P (ROUNDDOWN va PGSIZE + of_nat k * PGSIZE)) \<longleftrightarrow>
      (\<forall>x. ?a \<le> unat x div 4096 \<longrightarrow> unat x div 4096 < ?b \<longrightarrow> ?P x)" (is "?L \<longleftrightarrow> ?R")
  proof -
    have k: "unat (ROUNDDOWN va PGSIZE + of_nat k * PGSIZE) = (?a + k) * 4096" if "k < ?b - ?a" for k
    proof -
      have "(?a + k) * 4096 \<le> ?b * 4096"
        using that by (intro mult_right_mono) simp_all
      then have "(?a + k) * 4096 < 2 ^ 64"
        using nowrap div_times_less_eq_dividend [of "unat va + unat len + 4095" 4096]
        by (meson le_less_trans)
      moreover have "ROUNDDOWN va PGSIZE + of_nat k * PGSIZE = of_nat ((?a + k) * 4096)"
        using arg_cong [OF a, of "of_nat :: nat \<Rightarrow> u64"] by (simp add: algebra_simps)
      ultimately show ?thesis
        by (simp only: unsigned_of_nat) (simp add: take_bit_eq_mod)
    qed
    have "?P x" if "?L" "?a \<le> unat x div 4096" "unat x div 4096 < ?b" for x
    proof -
      define k where "k = unat x div 4096 - ?a"
      then have "k < ?b - ?a" "?a + k = unat x div 4096"
        using that(2,3) by (simp_all only: diff_less_mono le_add_diff_inverse)
      then have "ROUNDDOWN va PGSIZE + of_nat k * PGSIZE = ROUNDDOWN x PGSIZE"
        using k [of k] unat_ROUNDDOWN_page [of x] by (simp only: word_unat_eq_iff)
      with that(1) \<open>k < ?b - ?a\<close> show ?thesis
        using user_page_ok_ROUNDDOWN by metis
    qed
    moreover have "?P (ROUNDDOWN va PGSIZE + of_nat k * PGSIZE)" if "?R" "k < ?b - ?a" for k
      using that k [of k] by (simp add: less_diff_conv)
    ultimately show ?thesis by blast
  qed
  then show ?thesis
    unfolding user_mem_check_def Let_def n user_mem_check_loop_iff by simp
qed

subsection \<open>Device memory and unmapped addresses\<close>

lemma mmio_map_region_ok:
  assumes "mmio_map_region s pa sz = Some (base, s')"
    and "unat (mmio_base s) + unat sz + 4095 < 2 ^ 64"
  shows "base = mmio_base s" "unat (mmio_base s') = unat base + (unat sz + 4095) div 4096 * 4096"
    "mmio_base s' < MMIOLIM"
proof -
  obtain s1 where b: "boot_map_region s (boot_pml4e s) (mmio_base s) (ROUNDUP sz PGSIZE) pa
      (PTE_PCD OR PTE_PWT OR PTE_W OR PTE_P) = Some s1"
    and r: "base = mmio_base s1" "s' = s1\<lparr>mmio_base := mmio_base s1 + ROUNDUP sz PGSIZE\<rparr>"
    and lim: "\<not> MMIOLIM \<le> mmio_base s + ROUNDUP sz PGSIZE"
    using assms(1) unfolding mmio_map_region_def Let_def
    by (auto split: if_splits Option.bind_splits)
  have "map_only s s1"
    using b unfolding boot_map_region_def by (rule boot_map_frame)
  then have m: "mmio_base s1 = mmio_base s"
    by (rule map_onlyD)
  show "base = mmio_base s" "mmio_base s' < MMIOLIM"
    using r m lim by (simp_all add: not_le)
  have ru: "unat (ROUNDUP sz PGSIZE) = (unat sz + 4095) div 4096 * 4096"
    using unat_ROUNDUP [of PGSIZE sz] assms(2) by simp
  also have "\<dots> \<le> unat sz + 4095"
    by (rule div_times_less_eq_dividend)
  finally have "unat (mmio_base s + ROUNDUP sz PGSIZE) = unat (mmio_base s) + unat (ROUNDUP sz PGSIZE)"
    using assms(2) by (simp add: unat_word_ariths)
  with ru r m show "unat (mmio_base s') = unat base + (unat sz + 4095) div 4096 * 4096"
    by simp
qed

text \<open>Removing where nothing is mapped: the entry 0 is taken for a mapping of page 0.\<close>

lemma page_remove_unmapped:
  assumes ok: "pml4e_ok s root va A X" and leaf: "pml4e_leaf s root va = Some (f, i)"
    and "pmem s f i = 0" "0 < npages s" "pp_ref (pages s 0) = 0"
  obtains s' where "page_remove s (Some root) va = Some s'" "pp_ref (pages s' 0) = 65535"
proof -
  let ?s = "st f i 0 (upd_page 0 (\<lambda>r. r\<lparr>pp_ref := pp_ref r - 1\<rparr>) s)"
  have lk: "page_lookup s (Some root) va = Some (Some (0, f, i), s)"
    using page_lookup_ok [OF ok] leaf assms(3,4) by (simp add: pte_at_def)
  moreover have "page_decref s 0 = Some (upd_page 0 (\<lambda>r. r\<lparr>pp_ref := pp_ref r - 1\<rparr>) s)"
    using assms(5) by (intro page_decref_shared) simp
  moreover obtain k where "tlb_invalidate ?s (Some root) va = Some (?s\<lparr>tlb_flushes := k\<rparr>)"
    by (rule tlb_invalidate_ok)
  ultimately have "page_remove s (Some root) va = Some (?s\<lparr>tlb_flushes := k\<rparr>)"
    by (simp add: page_remove_def)
  with assms(5) show ?thesis
    by (intro that [of "?s\<lparr>tlb_flushes := k\<rparr>"]) simp_all
qed

subsection \<open>Properties\<close>

text \<open>A kernel with ten pages, of which 4 to 8 are free; page 1 is an empty root table.\<close>

definition example_kern :: kern where
  "example_kern = (kern_zero 10)
     \<lparr>pages := (\<lambda>p. if p \<in> {4, 5, 6, 7} then \<lparr>pp_link = Some (p + 1), pp_ref = 0\<rparr>
                   else if p \<in> {1, 2, 3} then \<lparr>pp_link = None, pp_ref = 1\<rparr> else \<lparr>pp_link = None, pp_ref = 0\<rparr>),
      page_free_list := Some 4\<rparr>"

lemma example_kern_ok:
  "free_pages example_kern [4, 5, 6, 7, 8]" "npages example_kern = 10"
  "pml4e_leaf example_kern 1 va = None" "pte_at example_kern 1 va = 0"
  "1 \<notin> A \<Longrightarrow> pml4e_ok example_kern 1 va A {4, 5, 6, 7, 8}"
  by (auto simp: example_kern_def kern_zero_def free_pages_def path_ok_defs path_leaf_defs pte_at_def)

lemma check_va2pa_pte_at:
  "pml4e_ok s root va A X \<Longrightarrow> check_va2pa s root va =
   Some (if pte_at s root va AND PTE_P = 0 then None else Some (PTE_ADDR (pte_at s root va)))"
  by (auto simp: check_va2pa_leaf pte_at_def split: option.splits)

lemma PTE_ADDR_mapping:
  "unat perm < 4096 \<Longrightarrow> PTE_ADDR (page2pa pp OR perm OR PTE_P) = page2pa pp"
  "(page2pa pp OR perm OR PTE_P) AND PTE_P \<noteq> 0"
proof -
  show "unat perm < 4096 \<Longrightarrow> PTE_ADDR (page2pa pp OR perm OR PTE_P) = page2pa pp"
    using unat_or_less_4096 [of perm 1] by (simp add: PTE_ADDR_or or.assoc)
  have "(page2pa pp OR perm OR PTE_P) AND PTE_P = 1"
    by (rule bit_word_eqI) (auto simp: bit_simps)
  then show "(page2pa pp OR perm OR PTE_P) AND PTE_P \<noteq> 0"
    by simp
qed

text \<open>
  C4. \<^verbatim>\<open>page_insert\<close> never panics on a well-formed address space. It returns 0 or
  \<open>-E_NO_MEM\<close>. On 0 the address translates to the page, with the requested permissions; every
  other entry that was set, in any table, is as before; each reference count has changed by
  the mapping gained and the mapping lost; and a page that lost its last mapping is free. On
  \<open>-E_NO_MEM\<close> fewer than three pages were free, and they still are, and nothing else changed.
\<close>

theorem page_insert_correct:
  assumes "free_pages s xs"
    and "pml4e_ok s root va (insert pp (old_page (pte_at s root va))) (set xs)"
    and "0 < pp" "pp < npages s" "pp \<notin> set xs" "unat perm < 4096"
    and "\<And>q. q \<in> old_page (pte_at s root va) \<Longrightarrow>
      q < npages s \<and> q \<notin> set xs \<and> pp_ref (pages s q) \<noteq> 0"
  shows "\<exists>r s'. page_insert s (Some root) pp va perm = Some (r, s') \<and>
    (if r = 0 then
       check_va2pa s' root va = Some (Some (page2pa pp)) \<and>
       pte_at s' root va = page2pa pp OR perm OR PTE_P \<and>
       (\<exists>n \<le> 3. free_pages s'
          (let ys = drop n xs; e = pte_at s root va
           in if e = 0 \<or> pte_frame e = pp then ys else unref s (pte_frame e) ys)) \<and>
       (\<exists>l. pml4e_leaf s' root va = Some l \<and> other_ptes_kept s s' xs l) \<and>
       (\<forall>p. p \<notin> set xs \<longrightarrow> pp_ref (pages s' p) =
          pp_ref (pages s p) + of_bool (p = pp) - of_bool (p \<in> old_page (pte_at s root va)))
     else
       r = err E_NO_MEM \<and> length xs < 3 \<and> pte_at s root va = 0 \<and> free_pages s' xs \<and>
       (\<forall>p. p \<notin> set xs \<longrightarrow> pages s' p = pages s p \<and> pmem s' p = pmem s p))"
proof -
  obtain r s' where i: "page_insert s (Some root) pp va perm = Some (r, s')"
    "if r = 0 then inserted root pp va perm xs s s'
     else r = err E_NO_MEM \<and> pml4e_leaf s root va = None \<and> length xs < 3 \<and> grows s s' xs 0"
    using page_insert_ok [OF assms(1-5,7)] by blast
  show ?thesis
  proof (cases "r = 0")
    case True
    with i have ins: "inserted root pp va perm xs s s'"
      by simp
    then obtain A X where ok: "pml4e_ok s' root va A X"
      and e: "pte_at s' root va = page2pa pp OR perm OR PTE_P"
      unfolding inserted_def Let_def by blast
    have "check_va2pa s' root va = Some (Some (page2pa pp))"
      unfolding check_va2pa_pte_at [OF ok] e PTE_ADDR_mapping(1) [OF assms(6)]
      using PTE_ADDR_mapping(2) by (simp only: if_False)
    moreover obtain n f i where "n \<le> 3" "pml4e_leaf s' root va = Some (f, i)"
      "free_pages s' (let ys = drop n xs; e = pte_at s root va
           in if e = 0 \<or> pte_frame e = pp then ys else unref s (pte_frame e) ys)"
      "other_ptes_kept s s' xs (f, i)"
      "\<forall>p. p \<notin> set xs \<longrightarrow> pp_ref (pages s' p) =
          pp_ref (pages s p) + of_bool (p = pp) - of_bool (p \<in> old_page (pte_at s root va))"
      using ins unfolding inserted_def Let_def by blast
    ultimately show ?thesis
      unfolding i(1) True using e by (intro exI [of _ 0] exI [of _ s']) (simp only: if_True refl, blast)
  next
    case False
    with i have g: "grows s s' xs 0" and "r = err E_NO_MEM" "length xs < 3" "pml4e_leaf s root va = None"
      by simp_all
    with False i(1) show ?thesis
      using growsD(1,5,6) [OF g] by (intro exI [of _ r] exI [of _ s']) (simp add: pte_at_def)
  qed
qed

theorem page_insert_correct_witness:
  "\<exists>s'. page_insert example_kern (Some 1) 2 0x800000 PTE_U = Some (0, s') \<and>
     check_va2pa s' 1 0x800000 = Some (Some (page2pa 2))"
  using page_insert_correct [of example_kern "[4, 5, 6, 7, 8]" 1 "0x800000" 2 PTE_U] example_kern_ok
  by (auto simp: old_page_def split: if_splits)

text \<open>
  C5. A walk that may create page tables never panics on a well-formed address space. It fails only
  when fewer than three pages are free, and then gives back every page it took and leaves all
  other memory as it was. Otherwise it has taken at most three pages, each now with one
  reference, has changed no entry that was set, and returns exactly the place at which a walk
  that creates nothing then finds the entry.
\<close>

theorem pml4e_walk_correct:
  assumes "free_pages s xs" "pml4e_ok s root va A (set xs)" "A \<inter> set xs = {}"
  shows "\<exists>r s' n. pml4e_walk s (Some root) va True = Some (r, s') \<and> n \<le> length xs \<and>
    free_pages s' (drop n xs) \<and> pml4e_ok s' root va A (set (drop n xs)) \<and>
    (\<forall>p \<in> set (take n xs). pp_ref (pages s' p) = 1) \<and>
    (\<forall>p. p \<notin> set xs \<longrightarrow> pages s' p = pages s p) \<and>
    (\<forall>f j. f \<notin> set xs \<longrightarrow> pmem s f j \<noteq> 0 \<longrightarrow> pmem s' f j = pmem s f j) \<and>
    (case r of
       None \<Rightarrow> n = 0 \<and> length xs < 3 \<and> pml4e_walk s (Some root) va False = Some (None, s) \<and>
         (\<forall>f. f \<notin> set xs \<longrightarrow> pmem s' f = pmem s f)
     | Some l \<Rightarrow> n \<le> 3 \<and> pml4e_walk s' (Some root) va False = Some (Some l, s'))"
proof -
  obtain r s' n where w: "pml4e_walk s (Some root) va True = Some (r, s')" "grows s s' xs n"
    "pml4e_ok s' root va A (set (drop n xs))" "walk_result pml4e_leaf 3 xs s root va r s' n"
    using pml4e_walk_create [OF assms] by blast
  have "case r of
       None \<Rightarrow> n = 0 \<and> length xs < 3 \<and> pml4e_walk s (Some root) va False = Some (None, s) \<and>
         (\<forall>f. f \<notin> set xs \<longrightarrow> pmem s' f = pmem s f)
     | Some l \<Rightarrow> n \<le> 3 \<and> pml4e_walk s' (Some root) va False = Some (Some l, s')"
    using w(2,4) pml4e_walk_nocreate [OF assms(2)] pml4e_walk_nocreate [OF w(3)]
    by (auto simp: walk_result_def grows_def split: option.splits)
  then show ?thesis
    using w unfolding grows_def by blast
qed

theorem pml4e_walk_correct_witness:
  "\<exists>l s' n. pml4e_walk example_kern (Some 1) 0x800000 True = Some (Some l, s') \<and> n \<le> 3 \<and>
     free_pages s' (drop n [4, 5, 6, 7, 8]) \<and>
     pml4e_walk s' (Some 1) 0x800000 False = Some (Some l, s')"
proof -
  obtain r s' n where "pml4e_walk example_kern (Some 1) 0x800000 True = Some (r, s')"
    "free_pages s' (drop n [4, 5, 6, 7, 8])" "case r of None \<Rightarrow> length [4::nat, 5, 6, 7, 8] < 3
      | Some l \<Rightarrow> n \<le> 3 \<and> pml4e_walk s' (Some 1) 0x800000 False = Some (Some l, s')"
    using pml4e_walk_correct [of example_kern "[4, 5, 6, 7, 8]" 1 "0x800000" "{}"] example_kern_ok
    by (auto split: option.splits)
  then show ?thesis
    by (cases r) auto
qed


definition example_mapped :: kern where
  "example_mapped = upd_env 0 (\<lambda>e. e\<lparr>env_pml4e := Some 1\<rparr>)
     (st 1 0 0x2007 (st 2 0 0x3007 (st 3 4 0x9007 (st 9 0 0x8007 example_kern))))"

lemma example_mapped_lookup:
  "page_lookup example_mapped (Some 1) 0x800000 = Some (Some (8, 9, 0), example_mapped)"
  "pmem example_mapped 9 0 = 0x8007" "env_pml4e (envs example_mapped 0) = Some 1"
proof -
  have idx: "PML4 0x800000 = 0" "PDPE 0x800000 = 0" "PDX 0x800000 = 4" "PTX 0x800000 = 0"
    by (simp_all add: PML4_def PDPE_def PDX_def PTX_def VPML4E_def VPDPE_def VPD_def PPN_def)
  have mem: "pmem example_mapped 1 0 = 0x2007" "pmem example_mapped 2 0 = 0x3007"
    "pmem example_mapped 3 4 = 0x9007" "npages example_mapped = 10"
    by (simp_all add: example_mapped_def example_kern_ok)
  have frames: "pte_frame 0x2007 = 2" "pte_frame 0x3007 = 3" "pte_frame 0x9007 = 9" "pte_frame 0x8007 = 8"
    by (simp_all add: pte_frame_def PTE_ADDR_def PPN_def)
  show "pmem example_mapped 9 0 = 0x8007" "env_pml4e (envs example_mapped 0) = Some 1"
    by (simp_all add: example_mapped_def)
  then show "page_lookup example_mapped (Some 1) 0x800000 = Some (Some (8, 9, 0), example_mapped)"
    using KADDR_PTE [of "0x2007" example_mapped] KADDR_PTE [of "0x3007" example_mapped]
      KADDR_PTE [of "0x9007" example_mapped] pa2page_PTE [of "0x8007" example_mapped] mem(4)
    by (simp add: page_lookup_def pml4e_walk_def pdpe_walk_def pgdir_walk_def idx mem [simplified] frames)
qed


text \<open>
  C18. After \<^verbatim>\<open>page_init\<close> the allocator hands out exactly the usable pages: a sequence of
  \<open>n\<close> calls of \<^verbatim>\<open>page_alloc\<close> returns the first \<open>n\<close> pages that are neither page 0, nor reserved by
  the I/O hole and the boot-time allocations, nor the start-up page of the other CPUs, and no page
  twice; when they are used up \<^verbatim>\<open>page_alloc\<close> returns a null pointer.
\<close>

theorem page_init_allocates:
  assumes "2 \<le> npages s" "npages s \<le> 2 ^ 52" "KERNBASE \<le> nextfree s"
    and "lim = nextfree s - KERNBASE" "\<not> page_reserved lim (npages s - 1)"
  shows "\<exists>s0 s' fl. page_init e s = Some s0 \<and>
    pops (\<lambda>s. page_alloc s 0) n s0 = Some (map Some (take n fl) @ replicate (n - length fl) None, s') \<and>
    distinct fl \<and> sorted fl \<and>
    (\<forall>p. p \<in> set fl \<longleftrightarrow> 0 < p \<and> p < npages s \<and> \<not> page_reserved lim p)"
proof -
  let ?fl = "initially_free lim (npages s)"
  obtain s0 where s0: "page_init e s = Some s0" "free_pages s0 ?fl"
    using page_init_ok [OF assms] by metis
  moreover have "distinct ?fl" "sorted ?fl" "\<forall>p. p \<in> set ?fl \<longleftrightarrow> 0 < p \<and> p < npages s \<and> \<not> page_reserved lim p"
    by (auto simp: initially_free_def sorted_wrt_filter)
  ultimately show ?thesis
    using page_pool.pops_view [OF s0(2), of n] by blast
qed

theorem page_init_allocates_witness:
  "\<exists>s0 s' fl. page_init 0 ((kern_zero 7)\<lparr>nextfree := KERNBASE\<rparr>) = Some s0 \<and>
     pops (\<lambda>s. page_alloc s 0) 8 s0 = Some (map Some fl @ [None, None], s') \<and> set fl = {1, 2, 3, 4, 5, 6}"
proof -
  let ?s = "(kern_zero 7)\<lparr>nextfree := KERNBASE\<rparr>"
  have res: "\<not> page_reserved 0 p" if "p < 7" for p
  proof -
    from that have "p = 0 \<or> p = 1 \<or> p = 2 \<or> p = 3 \<or> p = 4 \<or> p = 5 \<or> p = 6"
      by linarith
    then show ?thesis
      by (auto simp: page_reserved_def page2pa_def)
  qed
  obtain s0 s' fl where p: "page_init 0 ?s = Some s0" "distinct fl"
      "pops (\<lambda>s. page_alloc s 0) 8 s0 = Some (map Some (take 8 fl) @ replicate (8 - length fl) None, s')"
      "\<forall>p. p \<in> set fl \<longleftrightarrow> 0 < p \<and> p < npages ?s \<and> \<not> page_reserved 0 p"
    using page_init_allocates [of ?s 0 0 8] res [of 6] by (auto simp: kern_zero_def)
  then have S: "set fl = {1, 2, 3, 4, 5, 6}"
    using res by (auto simp: kern_zero_def)
  with p(2) have "length fl = 6"
    by (simp flip: distinct_card)
  with p S show ?thesis
    by (auto simp: numeral_2_eq_2)
qed


lemma boot_map_page_total:
  assumes "free_pages s xs" "pml4e_ok s root la {} (set xs)"
  shows "\<exists>s'. boot_map_page root la pa perm s = Some s'"
proof -
  obtain r s' where "pml4e_walk s (Some root) la True = Some (r, s')"
    using pml4e_walk_create [OF assms] by blast
  then show ?thesis
    by (auto simp: boot_map_page_def Let_def split: option.split)
qed


text \<open>
  C30. \<^verbatim>\<open>page_remove\<close> at an address with a page table but no mapping takes the zero entry for
  a mapping of physical page 0: the reference count of page 0 goes from 0 to 65535.
\<close>

theorem page_remove_unmapped_wraps:
  assumes "pml4e_ok s root va A X" "pml4e_leaf s root va = Some (f, i)" "pmem s f i = 0"
    and "0 < npages s" "pp_ref (pages s 0) = 0"
  shows "\<exists>s'. page_remove s (Some root) va = Some s' \<and> pp_ref (pages s' 0) = 65535"
  using page_remove_unmapped [OF assms] by blast


theorem page_remove_unmapped_wraps_witness:
  "\<exists>s'. page_remove example_mapped (Some 1) 0x801000 = Some s' \<and> pp_ref (pages s' 0) = 65535"
proof (rule page_remove_unmapped_wraps)
  have idx: "PML4 0x801000 = 0" "PDPE 0x801000 = 0" "PDX 0x801000 = 4" "PTX 0x801000 = 1"
    by (simp_all add: PML4_def PDPE_def PDX_def PTX_def)
  note ex = example_mapped_def example_kern_def kern_zero_def idx pte_frame_def PTE_ADDR_def PPN_def
  show "pml4e_ok example_mapped 1 0x801000 {} {}" "pml4e_leaf example_mapped 1 0x801000 = Some (9, 1)"
    by (simp_all add: path_ok_defs path_leaf_defs ex)
  show "pmem example_mapped 9 1 = 0" "0 < npages example_mapped" "pp_ref (pages example_mapped 0) = 0"
    by (simp_all add: ex)
qed

end
