(* ===== verification/Ept.thy ===== *)
theory Ept
  imports Page_Map
begin

section \<open>Extended page tables\<close>

text \<open>
  \<^verbatim>\<open>vmm/ept.c\<close>: the tables that translate a guest's physical addresses. They have the shape of
  ordinary page tables and are created by \<^verbatim>\<open>pml4e_walk\<close>, then get the permission bits of
  \<^verbatim>\<open>inc/ept.h\<close>. A host virtual address of a page is the number of its frame. An \<^verbatim>\<open>epte_t*\<close> is
  a frame and a slot; pointer arithmetic on it may run over the end of the frame into the
  next one, which \<open>ept_ld\<close> and \<open>ept_st\<close> follow.
\<close>

subsection \<open>Entries\<close>

definition EPTE_READ :: u64 where [simp]: "EPTE_READ = 0x01"
definition EPTE_WRITE :: u64 where [simp]: "EPTE_WRITE = 0x02"
definition EPTE_EXEC :: u64 where [simp]: "EPTE_EXEC = 0x04"
definition EPTE_IPAT :: u64 where [simp]: "EPTE_IPAT = 0x40"
definition EPTE_FULL :: u64 where [simp]: "EPTE_FULL = EPTE_READ OR EPTE_WRITE OR EPTE_EXEC"
definition EPTE_ADDR :: u64 where [simp]: "EPTE_ADDR = NOT (PGSIZE - 1)"
definition EPTE_FLAGS :: u64 where [simp]: "EPTE_FLAGS = PGSIZE - 1"
definition EPT_LEVELS :: nat where [simp]: "EPT_LEVELS = 4"

definition epte_addr :: "u64 \<Rightarrow> u64" where
  "epte_addr epte = epte AND EPTE_ADDR"

definition epte_page_vaddr :: "kern \<Rightarrow> u64 \<Rightarrow> nat option" where
  "epte_page_vaddr s epte = KADDR s (epte_addr epte)"

definition epte_flags :: "u64 \<Rightarrow> u64" where
  "epte_flags epte = epte AND EPTE_FLAGS"

definition epte_present :: "u64 \<Rightarrow> bool" where
  "epte_present epte \<longleftrightarrow> epte AND EPTE_FULL > 0"

definition ept_ld :: "kern \<Rightarrow> nat \<Rightarrow> nat \<Rightarrow> u64 option" where
  "ept_ld s f i = (if f + i div 512 < npages s then Some (pmem s (f + i div 512) (i mod 512)) else None)"

definition ept_st :: "nat \<Rightarrow> nat \<Rightarrow> u64 \<Rightarrow> kern \<Rightarrow> kern option" where
  "ept_st f i v s = (if f + i div 512 < npages s then Some (st (f + i div 512) (i mod 512) v s) else None)"

subsection \<open>Looking up and mapping\<close>

definition ept_lookup_gpa ::
  "kern \<Rightarrow> nat option \<Rightarrow> u64 \<Rightarrow> bool \<Rightarrow> ((int \<times> (nat \<times> nat) option) \<times> kern) option" where
  "ept_lookup_gpa s eptrt gpa create =
     (case eptrt of
        None \<Rightarrow> Some ((err E_INVAL, None), s)
      | Some rt \<Rightarrow>
          do {
            (pte, s1) \<leftarrow> pml4e_walk s (Some rt) gpa create;
            (case pte of
               None \<Rightarrow> Some ((err E_NO_ENT, None), s1)
             | Some l \<Rightarrow>
                 let pml = pmem s1 rt (unat (PML4 gpa)); ip = unat (PDPE gpa)
                 in do {
                   pdpe \<leftarrow> KADDR s1 (PTE_ADDR pml);
                   pde \<leftarrow> KADDR s1 (PTE_ADDR (pmem s1 pdpe ip));
                   let s2 = st rt (unat (PML4 gpa)) (PTE_ADDR pml OR EPTE_FULL) s1;
                   e3 \<leftarrow> ept_ld s2 pdpe (ip + ip);
                   s3 \<leftarrow> ept_st pdpe (ip + ip) (PTE_ADDR e3 OR EPTE_FULL) s2;
                   let s4 = st pde (unat (PDX gpa)) (PTE_ADDR (pmem s3 pde (unat (PDX gpa))) OR EPTE_FULL) s3;
                   Some ((0, Some l), s4)
                 })
          })"

definition ept_gpa2hva :: "kern \<Rightarrow> nat option \<Rightarrow> u64 \<Rightarrow> (nat option \<times> kern) option" where
  "ept_gpa2hva s eptrt gpa =
     do {
       ((ret, pte), s1) \<leftarrow> ept_lookup_gpa s eptrt gpa False;
       if ret < 0 then Some (None, s1)
       else (case pte of
               None \<Rightarrow> None
             | Some (f, i) \<Rightarrow>
                 if \<not> epte_present (pmem s1 f i) then Some (None, s1)
                 else do { hva \<leftarrow> KADDR s1 (epte_addr (pmem s1 f i)); Some (Some hva, s1) })
     }"

definition ept_page_insert :: "kern \<Rightarrow> nat option \<Rightarrow> nat \<Rightarrow> u64 \<Rightarrow> u64 \<Rightarrow> (int \<times> kern) option" where
  "ept_page_insert s eptrt pp gpa perm =
     do {
       ((ret, out), s1) \<leftarrow> ept_lookup_gpa s eptrt gpa True;
       if ret = 0
       then (case out of
               None \<Rightarrow> None
             | Some (f, i) \<Rightarrow>
                 do {
                   e \<leftarrow> ept_ld s1 f (i + unat (PTX gpa));
                   s2 \<leftarrow> ept_st f (i + unat (PTX gpa)) (PTE_ADDR e OR perm OR EPTE_IPAT) s1;
                   Some (0, s2)
                 })
       else Some (0, s1)
     }"

definition ept_map_hva2gpa ::
  "kern \<Rightarrow> nat option \<Rightarrow> nat \<Rightarrow> u64 \<Rightarrow> u64 \<Rightarrow> bool \<Rightarrow> (int \<times> kern) option" where
  "ept_map_hva2gpa s eptrt hva gpa perm overwrite =
     do {
       ((ret, ept), s1) \<leftarrow> ept_lookup_gpa s eptrt gpa True;
       if ret = 0
       then (case ept of
               None \<Rightarrow> None
             | Some (f, i) \<Rightarrow>
                 if pmem s1 f i \<noteq> 0
                 then if \<not> overwrite then Some (err E_INVAL, s1)
                      else Some (0, st f i (page2pa hva OR perm OR EPTE_IPAT) s1)
                 else Some (0, st f i (page2pa hva OR perm OR EPTE_IPAT) s1))
       else Some (err E_INVAL, s1)
     }"

subsection \<open>Bulk allocation and release\<close>

text \<open>One iteration of the loops of \<^verbatim>\<open>ept_alloc_static\<close>, and the two loops; the result of
  the mapping is ignored.\<close>

definition ept_alloc_page :: "nat option \<Rightarrow> u64 \<Rightarrow> kern \<Rightarrow> kern option" where
  "ept_alloc_page eptrt i s =
     do {
       (p, s1) \<leftarrow> page_alloc s 0;
       p \<leftarrow> p;
       let s2 = page_incref p s1;
       kva \<leftarrow> page2kva s2 p;
       (r, s3) \<leftarrow> ept_map_hva2gpa s2 eptrt kva i EPTE_FULL False;
       Some s3
     }"

definition ept_alloc_static :: "kern \<Rightarrow> nat option \<Rightarrow> VmxGuestInfo \<Rightarrow> (int \<times> kern) option" where
  "ept_alloc_static s eptrt ginfo =
     do {
       s1 \<leftarrow> fold_opt (\<lambda>k. ept_alloc_page eptrt (of_nat k * PGSIZE)) [0..<0xA0] s;
       s2 \<leftarrow> fold_opt (\<lambda>k. ept_alloc_page eptrt (of_nat k * PGSIZE))
              [0x100..<(unat (phys_sz ginfo) + 4095) div 4096] s1;
       Some (0, s2)
     }"

primrec free_ept_level :: "nat \<Rightarrow> nat \<Rightarrow> kern \<Rightarrow> kern option" where
  "free_ept_level 0 = (\<lambda>dir. fold_opt (\<lambda>i s.
     if epte_present (pmem s dir i)
     then do { p \<leftarrow> pa2page s (epte_addr (pmem s dir i)); page_decref s p }
     else Some s) [0..<NPTENTRIES])"
| "free_ept_level (Suc level) = (\<lambda>dir. fold_opt (\<lambda>i s.
     if epte_present (pmem s dir i)
     then let pa = epte_addr (pmem s dir i)
          in do {
            t \<leftarrow> KADDR s pa;
            s1 \<leftarrow> free_ept_level level t s;
            p \<leftarrow> pa2page s1 pa;
            page_decref s1 p
          }
     else Some s) [0..<NPTENTRIES])"

definition free_guest_mem :: "nat \<Rightarrow> kern \<Rightarrow> kern option" where
  "free_guest_mem eptrt s = free_ept_level (EPT_LEVELS - 1) eptrt s"

end
