(* ===== verification/Vmcs_Fields.thy ===== *)
theory Vmcs_Fields
  imports JOS_Prelude
begin

section \<open>Encodings of the virtual machine extensions\<close>

text \<open>
  The numbers of \<^verbatim>\<open>vmm/vmx.h\<close> that the monitor uses: fields of the virtual machine control
  structure, control bits, model-specific registers and reasons for leaving the guest.
\<close>

subsection \<open>Fields\<close>

definition VMCS_HOST_CR0 :: u32 where [simp]: "VMCS_HOST_CR0 = 0x6C00"
definition VMCS_HOST_CR3 :: u32 where [simp]: "VMCS_HOST_CR3 = 0x6C02"
definition VMCS_HOST_CR4 :: u32 where [simp]: "VMCS_HOST_CR4 = 0x6C04"
definition VMCS_16BIT_HOST_ES_SELECTOR :: u32 where [simp]: "VMCS_16BIT_HOST_ES_SELECTOR = 0xC00"
definition VMCS_16BIT_HOST_SS_SELECTOR :: u32 where [simp]: "VMCS_16BIT_HOST_SS_SELECTOR = 0xC04"
definition VMCS_16BIT_HOST_DS_SELECTOR :: u32 where [simp]: "VMCS_16BIT_HOST_DS_SELECTOR = 0xC06"
definition VMCS_16BIT_HOST_FS_SELECTOR :: u32 where [simp]: "VMCS_16BIT_HOST_FS_SELECTOR = 0xC08"
definition VMCS_16BIT_HOST_GS_SELECTOR :: u32 where [simp]: "VMCS_16BIT_HOST_GS_SELECTOR = 0xC0A"
definition VMCS_16BIT_HOST_CS_SELECTOR :: u32 where [simp]: "VMCS_16BIT_HOST_CS_SELECTOR = 0xC02"
definition VMCS_16BIT_HOST_TR_SELECTOR :: u32 where [simp]: "VMCS_16BIT_HOST_TR_SELECTOR = 0xC0C"
definition VMCS_HOST_IDTR_BASE :: u32 where [simp]: "VMCS_HOST_IDTR_BASE = 0x6C0E"
definition VMCS_HOST_GDTR_BASE :: u32 where [simp]: "VMCS_HOST_GDTR_BASE = 0x6C0C"
definition VMCS_HOST_FS_BASE :: u32 where [simp]: "VMCS_HOST_FS_BASE = 0x6C06"
definition VMCS_HOST_GS_BASE :: u32 where [simp]: "VMCS_HOST_GS_BASE = 0x6C08"
definition VMCS_HOST_TR_BASE :: u32 where [simp]: "VMCS_HOST_TR_BASE = 0x6C0A"
definition VMCS_HOST_RIP :: u32 where [simp]: "VMCS_HOST_RIP = 0x6C16"
definition VMCS_16BIT_GUEST_CS_SELECTOR :: u32 where [simp]: "VMCS_16BIT_GUEST_CS_SELECTOR = 0x802"
definition VMCS_16BIT_GUEST_ES_SELECTOR :: u32 where [simp]: "VMCS_16BIT_GUEST_ES_SELECTOR = 0x800"
definition VMCS_16BIT_GUEST_SS_SELECTOR :: u32 where [simp]: "VMCS_16BIT_GUEST_SS_SELECTOR = 0x804"
definition VMCS_16BIT_GUEST_DS_SELECTOR :: u32 where [simp]: "VMCS_16BIT_GUEST_DS_SELECTOR = 0x806"
definition VMCS_16BIT_GUEST_FS_SELECTOR :: u32 where [simp]: "VMCS_16BIT_GUEST_FS_SELECTOR = 0x808"
definition VMCS_16BIT_GUEST_GS_SELECTOR :: u32 where [simp]: "VMCS_16BIT_GUEST_GS_SELECTOR = 0x80A"
definition VMCS_16BIT_GUEST_TR_SELECTOR :: u32 where [simp]: "VMCS_16BIT_GUEST_TR_SELECTOR = 0x80E"
definition VMCS_16BIT_GUEST_LDTR_SELECTOR :: u32 where [simp]: "VMCS_16BIT_GUEST_LDTR_SELECTOR = 0x80C"
definition VMCS_GUEST_CS_BASE :: u32 where [simp]: "VMCS_GUEST_CS_BASE = 0x6808"
definition VMCS_GUEST_ES_BASE :: u32 where [simp]: "VMCS_GUEST_ES_BASE = 0x6806"
definition VMCS_GUEST_SS_BASE :: u32 where [simp]: "VMCS_GUEST_SS_BASE = 0x680A"
definition VMCS_GUEST_DS_BASE :: u32 where [simp]: "VMCS_GUEST_DS_BASE = 0x680C"
definition VMCS_GUEST_FS_BASE :: u32 where [simp]: "VMCS_GUEST_FS_BASE = 0x680E"
definition VMCS_GUEST_GS_BASE :: u32 where [simp]: "VMCS_GUEST_GS_BASE = 0x6810"
definition VMCS_GUEST_LDTR_BASE :: u32 where [simp]: "VMCS_GUEST_LDTR_BASE = 0x6812"
definition VMCS_GUEST_GDTR_BASE :: u32 where [simp]: "VMCS_GUEST_GDTR_BASE = 0x6816"
definition VMCS_GUEST_IDTR_BASE :: u32 where [simp]: "VMCS_GUEST_IDTR_BASE = 0x6818"
definition VMCS_GUEST_TR_BASE :: u32 where [simp]: "VMCS_GUEST_TR_BASE = 0x6814"
definition VMCS_32BIT_GUEST_CS_LIMIT :: u32 where [simp]: "VMCS_32BIT_GUEST_CS_LIMIT = 0x4802"
definition VMCS_32BIT_GUEST_ES_LIMIT :: u32 where [simp]: "VMCS_32BIT_GUEST_ES_LIMIT = 0x4800"
definition VMCS_32BIT_GUEST_SS_LIMIT :: u32 where [simp]: "VMCS_32BIT_GUEST_SS_LIMIT = 0x4804"
definition VMCS_32BIT_GUEST_DS_LIMIT :: u32 where [simp]: "VMCS_32BIT_GUEST_DS_LIMIT = 0x4806"
definition VMCS_32BIT_GUEST_FS_LIMIT :: u32 where [simp]: "VMCS_32BIT_GUEST_FS_LIMIT = 0x4808"
definition VMCS_32BIT_GUEST_GS_LIMIT :: u32 where [simp]: "VMCS_32BIT_GUEST_GS_LIMIT = 0x480A"
definition VMCS_32BIT_GUEST_LDTR_LIMIT :: u32 where [simp]: "VMCS_32BIT_GUEST_LDTR_LIMIT = 0x480C"
definition VMCS_32BIT_GUEST_TR_LIMIT :: u32 where [simp]: "VMCS_32BIT_GUEST_TR_LIMIT = 0x480E"
definition VMCS_32BIT_GUEST_GDTR_LIMIT :: u32 where [simp]: "VMCS_32BIT_GUEST_GDTR_LIMIT = 0x4810"
definition VMCS_32BIT_GUEST_IDTR_LIMIT :: u32 where [simp]: "VMCS_32BIT_GUEST_IDTR_LIMIT = 0x4812"
definition VMCS_32BIT_GUEST_CS_ACCESS_RIGHTS :: u32 where [simp]: "VMCS_32BIT_GUEST_CS_ACCESS_RIGHTS = 0x4816"
definition VMCS_32BIT_GUEST_ES_ACCESS_RIGHTS :: u32 where [simp]: "VMCS_32BIT_GUEST_ES_ACCESS_RIGHTS = 0x4814"
definition VMCS_32BIT_GUEST_SS_ACCESS_RIGHTS :: u32 where [simp]: "VMCS_32BIT_GUEST_SS_ACCESS_RIGHTS = 0x4818"
definition VMCS_32BIT_GUEST_DS_ACCESS_RIGHTS :: u32 where [simp]: "VMCS_32BIT_GUEST_DS_ACCESS_RIGHTS = 0x481A"
definition VMCS_32BIT_GUEST_FS_ACCESS_RIGHTS :: u32 where [simp]: "VMCS_32BIT_GUEST_FS_ACCESS_RIGHTS = 0x481C"
definition VMCS_32BIT_GUEST_GS_ACCESS_RIGHTS :: u32 where [simp]: "VMCS_32BIT_GUEST_GS_ACCESS_RIGHTS = 0x481E"
definition VMCS_32BIT_GUEST_LDTR_ACCESS_RIGHTS :: u32 where [simp]: "VMCS_32BIT_GUEST_LDTR_ACCESS_RIGHTS = 0x4820"
definition VMCS_32BIT_GUEST_TR_ACCESS_RIGHTS :: u32 where [simp]: "VMCS_32BIT_GUEST_TR_ACCESS_RIGHTS = 0x4822"
definition VMCS_32BIT_GUEST_ACTIVITY_STATE :: u32 where [simp]: "VMCS_32BIT_GUEST_ACTIVITY_STATE = 0x4826"
definition VMCS_32BIT_GUEST_INTERRUPTIBILITY_STATE :: u32 where [simp]: "VMCS_32BIT_GUEST_INTERRUPTIBILITY_STATE = 0x4824"
definition VMCS_GUEST_CR3 :: u32 where [simp]: "VMCS_GUEST_CR3 = 0x6802"
definition VMCS_GUEST_CR0 :: u32 where [simp]: "VMCS_GUEST_CR0 = 0x6800"
definition VMCS_GUEST_CR4 :: u32 where [simp]: "VMCS_GUEST_CR4 = 0x6804"
definition VMCS_64BIT_GUEST_LINK_POINTER :: u32 where [simp]: "VMCS_64BIT_GUEST_LINK_POINTER = 0x2800"
definition VMCS_64BIT_GUEST_LINK_POINTER_HI :: u32 where [simp]: "VMCS_64BIT_GUEST_LINK_POINTER_HI = 0x2801"
definition VMCS_GUEST_DR7 :: u32 where [simp]: "VMCS_GUEST_DR7 = 0x681A"
definition VMCS_GUEST_RFLAGS :: u32 where [simp]: "VMCS_GUEST_RFLAGS = 0x6820"
definition VMCS_32BIT_CONTROL_PIN_BASED_EXEC_CONTROLS :: u32 where [simp]: "VMCS_32BIT_CONTROL_PIN_BASED_EXEC_CONTROLS = 0x4000"
definition VMCS_32BIT_CONTROL_PROCESSOR_BASED_VMEXEC_CONTROLS :: u32 where [simp]: "VMCS_32BIT_CONTROL_PROCESSOR_BASED_VMEXEC_CONTROLS = 0x4002"
definition VMCS_32BIT_CONTROL_SECONDARY_VMEXEC_CONTROLS :: u32 where [simp]: "VMCS_32BIT_CONTROL_SECONDARY_VMEXEC_CONTROLS = 0x401E"
definition VMCS_32BIT_CONTROL_VMEXIT_CONTROLS :: u32 where [simp]: "VMCS_32BIT_CONTROL_VMEXIT_CONTROLS = 0x400C"
definition VMCS_64BIT_CONTROL_VMEXIT_MSR_STORE_ADDR :: u32 where [simp]: "VMCS_64BIT_CONTROL_VMEXIT_MSR_STORE_ADDR = 0x2006"
definition VMCS_32BIT_CONTROL_VMEXIT_MSR_STORE_COUNT :: u32 where [simp]: "VMCS_32BIT_CONTROL_VMEXIT_MSR_STORE_COUNT = 0x400E"
definition VMCS_64BIT_CONTROL_VMEXIT_MSR_LOAD_ADDR :: u32 where [simp]: "VMCS_64BIT_CONTROL_VMEXIT_MSR_LOAD_ADDR = 0x2008"
definition VMCS_32BIT_CONTROL_VMEXIT_MSR_LOAD_COUNT :: u32 where [simp]: "VMCS_32BIT_CONTROL_VMEXIT_MSR_LOAD_COUNT = 0x4010"
definition VMCS_64BIT_CONTROL_VMENTRY_MSR_LOAD_ADDR :: u32 where [simp]: "VMCS_64BIT_CONTROL_VMENTRY_MSR_LOAD_ADDR = 0x200A"
definition VMCS_32BIT_CONTROL_VMENTRY_MSR_LOAD_COUNT :: u32 where [simp]: "VMCS_32BIT_CONTROL_VMENTRY_MSR_LOAD_COUNT = 0x4014"
definition VMCS_32BIT_CONTROL_VMENTRY_CONTROLS :: u32 where [simp]: "VMCS_32BIT_CONTROL_VMENTRY_CONTROLS = 0x4012"
definition VMCS_64BIT_CONTROL_EPTPTR :: u32 where [simp]: "VMCS_64BIT_CONTROL_EPTPTR = 0x201A"
definition VMCS_32BIT_CONTROL_EXCEPTION_BITMAP :: u32 where [simp]: "VMCS_32BIT_CONTROL_EXCEPTION_BITMAP = 0x4004"
definition VMCS_64BIT_CONTROL_IO_BITMAP_A :: u32 where [simp]: "VMCS_64BIT_CONTROL_IO_BITMAP_A = 0x2000"
definition VMCS_64BIT_CONTROL_IO_BITMAP_B :: u32 where [simp]: "VMCS_64BIT_CONTROL_IO_BITMAP_B = 0x2002"
definition VMCS_GUEST_RIP :: u32 where [simp]: "VMCS_GUEST_RIP = 0x681E"
definition VMCS_GUEST_RSP :: u32 where [simp]: "VMCS_GUEST_RSP = 0x681C"
definition VMCS_32BIT_VMEXIT_REASON :: u32 where [simp]: "VMCS_32BIT_VMEXIT_REASON = 0x4402"
definition VMCS_HOST_RSP :: u32 where [simp]: "VMCS_HOST_RSP = 0x6C14"
definition VMCS_32BIT_VMEXIT_INSTRUCTION_LENGTH :: u32 where [simp]: "VMCS_32BIT_VMEXIT_INSTRUCTION_LENGTH = 0x440C"
definition VMCS_64BIT_GUEST_PHYSICAL_ADDR :: u32 where [simp]: "VMCS_64BIT_GUEST_PHYSICAL_ADDR = 0x2400"
definition VMCS_VMEXIT_QUALIFICATION :: u32 where [simp]: "VMCS_VMEXIT_QUALIFICATION = 0x6400"

subsection \<open>Control bits\<close>

definition VMCS_PROC_BASED_VMEXEC_CTL_ACTIVESECCTL :: u32 where [simp]: "VMCS_PROC_BASED_VMEXEC_CTL_ACTIVESECCTL = 0x80000000"
definition VMCS_PROC_BASED_VMEXEC_CTL_HLTEXIT :: u32 where [simp]: "VMCS_PROC_BASED_VMEXEC_CTL_HLTEXIT = 0x80"
definition VMCS_PROC_BASED_VMEXEC_CTL_USEIOBMP :: u32 where [simp]: "VMCS_PROC_BASED_VMEXEC_CTL_USEIOBMP = 0x2000000"
definition VMCS_PROC_BASED_VMEXEC_CTL_CR3LOADEXIT :: u32 where [simp]: "VMCS_PROC_BASED_VMEXEC_CTL_CR3LOADEXIT = 0x8000"
definition VMCS_PROC_BASED_VMEXEC_CTL_CR3STOREXIT :: u32 where [simp]: "VMCS_PROC_BASED_VMEXEC_CTL_CR3STOREXIT = 0x10000"
definition VMCS_PROC_BASED_VMEXEC_CTL_INVLPGEXIT :: u32 where [simp]: "VMCS_PROC_BASED_VMEXEC_CTL_INVLPGEXIT = 0x200"
definition VMCS_SECONDARY_VMEXEC_CTL_ENABLE_EPT :: u32 where [simp]: "VMCS_SECONDARY_VMEXEC_CTL_ENABLE_EPT = 0x2"
definition VMCS_SECONDARY_VMEXEC_CTL_UNRESTRICTED_GUEST :: u32 where [simp]: "VMCS_SECONDARY_VMEXEC_CTL_UNRESTRICTED_GUEST = 0x80"
definition VMCS_VMEXIT_HOST_ADDR_SIZE :: u32 where [simp]: "VMCS_VMEXIT_HOST_ADDR_SIZE = push_bit 9 1"
definition VMCS_VMENTRY_x64_GUEST :: u32 where [simp]: "VMCS_VMENTRY_x64_GUEST = push_bit 9 1"

subsection \<open>Model-specific registers\<close>

definition IA32_VMX_PROCBASED_CTLS :: u32 where [simp]: "IA32_VMX_PROCBASED_CTLS = 0x482"
definition IA32_VMX_PROCBASED_CTLS2 :: u32 where [simp]: "IA32_VMX_PROCBASED_CTLS2 = 0x48B"
definition IA32_VMX_BASIC :: u32 where [simp]: "IA32_VMX_BASIC = 0x480"
definition IA32_VMX_CR0_FIXED0 :: u32 where [simp]: "IA32_VMX_CR0_FIXED0 = 0x486"
definition IA32_VMX_CR0_FIXED1 :: u32 where [simp]: "IA32_VMX_CR0_FIXED1 = 0x487"
definition IA32_VMX_CR4_FIXED0 :: u32 where [simp]: "IA32_VMX_CR4_FIXED0 = 0x488"
definition IA32_VMX_CR4_FIXED1 :: u32 where [simp]: "IA32_VMX_CR4_FIXED1 = 0x489"
definition IA32_FEATURE_CONTROL :: u32 where [simp]: "IA32_FEATURE_CONTROL = 0x3A"
definition IA32_VMX_PINBASED_CTLS :: u32 where [simp]: "IA32_VMX_PINBASED_CTLS = 0x481"
definition IA32_VMX_EXIT_CTLS :: u32 where [simp]: "IA32_VMX_EXIT_CTLS = 0x483"
definition IA32_VMX_ENTRY_CTLS :: u32 where [simp]: "IA32_VMX_ENTRY_CTLS = 0x484"
definition EFER_MSR :: u32 where [simp]: "EFER_MSR = 0xC0000080"
definition EFER_LME :: nat where [simp]: "EFER_LME = 8"

subsection \<open>Exit reasons\<close>

definition EXIT_REASON_MASK :: u32 where [simp]: "EXIT_REASON_MASK = 0xFFFF"
definition EXIT_REASON_RDMSR :: u32 where [simp]: "EXIT_REASON_RDMSR = 0x1F"
definition EXIT_REASON_WRMSR :: u32 where [simp]: "EXIT_REASON_WRMSR = 0x20"
definition EXIT_REASON_EPT_VIOLATION :: u32 where [simp]: "EXIT_REASON_EPT_VIOLATION = 0x30"
definition EXIT_REASON_IO_INSTRUCTION :: u32 where [simp]: "EXIT_REASON_IO_INSTRUCTION = 0x1E"
definition EXIT_REASON_CPUID :: u32 where [simp]: "EXIT_REASON_CPUID = 0xA"
definition EXIT_REASON_VMCALL :: u32 where [simp]: "EXIT_REASON_VMCALL = 0x12"
definition EXIT_REASON_HLT :: u32 where [simp]: "EXIT_REASON_HLT = 0xC"

end
