(* ===== verification/Vmx.thy ===== *)
theory Vmx
  imports Ept Vmcs_Fields
begin

section \<open>Virtual machine extensions\<close>

text \<open>
  \<^verbatim>\<open>vmm/vmx.c\<close>: turning on VMX operation, building a VMCS and entering a guest. What the
  processor decides (CPUID, whether VMXON, VMCLEAR and VMPTRLD succeed) and the addresses the linker
  and the boot code choose are the argument \<open>hw\<close>; model-specific and control registers are
  fields of the state. A VMWRITE with no current VMCS has no effect, as the code ignores the
  error flag.
\<close>

record vmx_hw =
  hw_cpuid :: "u32 \<Rightarrow> u32 \<times> u32 \<times> u32 \<times> u32"
  hw_vmxon_error :: "u64 \<Rightarrow> bool"
  hw_vmclear_error :: "u64 \<Rightarrow> bool"
  hw_vmptrld_error :: "u64 \<Rightarrow> bool"
  hw_idtr_base :: u64
  hw_gdtr_base :: u64
  hw_cpu_ts :: u64
  hw_vmx_return :: u64
  hw_host_rsp :: u64

definition BIT :: "u64 \<Rightarrow> nat \<Rightarrow> u64" where
  "BIT val x = drop_bit x val AND 1"

definition CR0_NE :: u64 where [simp]: "CR0_NE = 0x20"
definition CR4_VMXE :: u64 where [simp]: "CR4_VMXE = 0x2000"
definition IO_RTC :: u32 where [simp]: "IO_RTC = 0x70"
definition MAX_MSR_COUNT :: int where [simp]: "MAX_MSR_COUNT = 128"

definition vmcs_writel :: "u32 \<Rightarrow> u64 \<Rightarrow> kern \<Rightarrow> kern" where
  "vmcs_writel field v s =
     (case current_vmcs s of
        None \<Rightarrow> s
      | Some p \<Rightarrow> s\<lparr>vmcs_data := (vmcs_data s)(p := (vmcs_data s p)(field := v))\<rparr>)"

definition vmcs_readl :: "u32 \<Rightarrow> kern \<Rightarrow> u64" where
  "vmcs_readl field s = (case current_vmcs s of None \<Rightarrow> 0 | Some p \<Rightarrow> vmcs_data s p field)"

definition vmcs_read32 :: "u32 \<Rightarrow> kern \<Rightarrow> u32" where
  "vmcs_read32 field s = ucast (vmcs_readl field s)"

definition vmcs_writes :: "(u32 \<times> u64) list \<Rightarrow> kern \<Rightarrow> kern" where
  "vmcs_writes ws s = fold (\<lambda>(f, v). vmcs_writel f v) ws s"

subsection \<open>Entering VMX operation\<close>

definition vmx_check_support :: "vmx_hw \<Rightarrow> bool" where
  "vmx_check_support hw = (case hw_cpuid hw 1 of (eax, ebx, ecx, edx) \<Rightarrow> BIT (ucast ecx) 5 = 1)"

definition vmx_check_ept :: "kern \<Rightarrow> bool" where
  "vmx_check_ept s \<longleftrightarrow>
     BIT (msrs s IA32_VMX_PROCBASED_CTLS) 63 = 1 \<and> BIT (msrs s IA32_VMX_PROCBASED_CTLS2) 33 = 1"

text \<open>The loop of \<^verbatim>\<open>check_fixed_bits\<close> over the bits from \<open>i\<close>, \<open>n\<close> of them left.\<close>

primrec check_fixed_bits_loop :: "nat \<Rightarrow> nat \<Rightarrow> u64 \<Rightarrow> u64 \<Rightarrow> u64 \<Rightarrow> bool" where
  "check_fixed_bits_loop 0 i curr_val fixed0 fixed1 = True"
| "check_fixed_bits_loop (Suc n) i curr_val fixed0 fixed1 =
     (if BIT curr_val i = 1 then
        (if BIT fixed1 i = 0 then False else check_fixed_bits_loop n (Suc i) curr_val fixed0 fixed1)
      else
        (if BIT fixed0 i = 1 then False else check_fixed_bits_loop n (Suc i) curr_val fixed0 fixed1))"

definition check_fixed_bits :: "u64 \<Rightarrow> u64 \<Rightarrow> u64 \<Rightarrow> bool" where
  "check_fixed_bits curr_val fixed0 fixed1 = check_fixed_bits_loop 64 0 curr_val fixed0 fixed1"

definition set_lo32 :: "u64 \<Rightarrow> u32 \<Rightarrow> u64" where
  "set_lo32 w v = (w AND NOT 0xFFFFFFFF) OR ucast v"

definition vmx_init_vmcs :: "kern \<Rightarrow> (nat option \<times> kern) option" where
  "vmx_init_vmcs s =
     (let vmx_basic_msr = msrs s IA32_VMX_BASIC;
          vmcs_rev_id = ucast vmx_basic_msr :: u32;
          vmcs_num_bytes = ucast (drop_bit 32 vmx_basic_msr AND 0xFFF) :: u32
      in if \<not> vmcs_num_bytes \<le> 4096 then None
         else do {
           (p, s1) \<leftarrow> page_alloc s ALLOC_ZERO;
           (case p of
              None \<Rightarrow> Some (None, s1)
            | Some p \<Rightarrow>
                let s2 = page_incref p s1
                in do {
                  kva \<leftarrow> page2kva s2 p;
                  Some (Some p, st kva 0 (set_lo32 (pmem s2 kva 0) vmcs_rev_id) s2)
                })
         })"

definition vmx_init_vmxon :: "vmx_hw \<Rightarrow> kern \<Rightarrow> (int \<times> kern) option" where
  "vmx_init_vmxon hw s =
     (if \<not> vmx_check_support hw then Some (err E_NO_VMX, s)
      else if \<not> vmx_check_ept s then Some (err E_NO_EPT, s)
      else do {
        (p, s1) \<leftarrow> vmx_init_vmcs s;
        (case p of
           None \<Rightarrow> Some (err E_NO_MEM, s1)
         | Some p \<Rightarrow>
             let cr0 = cpu_cr0 s1 OR CR0_NE;
                 cr4 = cpu_cr4 s1 OR CR4_VMXE;
                 s2 = s1\<lparr>cpu_cr0 := cr0\<rparr>
             in if \<not> check_fixed_bits cr0 (msrs s2 IA32_VMX_CR0_FIXED0) (msrs s2 IA32_VMX_CR0_FIXED1)
                then do { s3 \<leftarrow> page_decref s2 p; Some (err E_VMX_ON, s3) }
                else
                  let s3 = s2\<lparr>cpu_cr4 := cr4\<rparr>
                  in if \<not> check_fixed_bits cr4 (msrs s3 IA32_VMX_CR4_FIXED0) (msrs s3 IA32_VMX_CR4_FIXED1)
                     then do { s4 \<leftarrow> page_decref s3 p; Some (err E_VMX_ON, s4) }
                     else
                       let feature_control = msrs s3 IA32_FEATURE_CONTROL
                       in if BIT feature_control 2 = 0
                          then do { s4 \<leftarrow> page_decref s3 p; Some (err E_NO_VMX, s4) }
                          else
                            let s4 = (if BIT feature_control 0 = 0
                                      then s3\<lparr>msrs := (msrs s3)(IA32_FEATURE_CONTROL := feature_control OR 1)\<rparr>
                                      else s3)
                            in if hw_vmxon_error hw (page2pa p)
                               then do { s5 \<leftarrow> page_decref s4 p; Some (err E_VMX_ON, s5) }
                               else do {
                                 kva \<leftarrow> page2kva s4 p;
                                 Some (0, s4\<lparr>is_vmx_root := True, vmxon_region := Some kva\<rparr>)
                               })
      })"

subsection \<open>Building the VMCS\<close>

definition vmcs_host_init :: "vmx_hw \<Rightarrow> kern \<Rightarrow> kern" where
  "vmcs_host_init hw s = vmcs_writes
     [(VMCS_HOST_CR0, cpu_cr0 s),
      (VMCS_HOST_CR3, cpu_cr3 s),
      (VMCS_HOST_CR4, cpu_cr4 s),
      (VMCS_16BIT_HOST_ES_SELECTOR, GD_KD),
      (VMCS_16BIT_HOST_SS_SELECTOR, GD_KD),
      (VMCS_16BIT_HOST_DS_SELECTOR, GD_KD),
      (VMCS_16BIT_HOST_FS_SELECTOR, GD_KD),
      (VMCS_16BIT_HOST_GS_SELECTOR, GD_KD),
      (VMCS_16BIT_HOST_CS_SELECTOR, GD_KT),
      (VMCS_16BIT_HOST_TR_SELECTOR, push_bit 3 (drop_bit 3 GD_TSS0)),
      (VMCS_HOST_IDTR_BASE, hw_idtr_base hw),
      (VMCS_HOST_GDTR_BASE, hw_gdtr_base hw),
      (VMCS_HOST_FS_BASE, 0),
      (VMCS_HOST_GS_BASE, 0),
      (VMCS_HOST_TR_BASE, hw_cpu_ts hw),
      (VMCS_HOST_RIP, hw_vmx_return hw)] s"

definition vmcs_guest_init :: "kern \<Rightarrow> kern" where
  "vmcs_guest_init s = vmcs_writes
     [(VMCS_16BIT_GUEST_CS_SELECTOR, 0),
      (VMCS_16BIT_GUEST_ES_SELECTOR, 0),
      (VMCS_16BIT_GUEST_SS_SELECTOR, 0),
      (VMCS_16BIT_GUEST_DS_SELECTOR, 0),
      (VMCS_16BIT_GUEST_FS_SELECTOR, 0),
      (VMCS_16BIT_GUEST_GS_SELECTOR, 0),
      (VMCS_16BIT_GUEST_TR_SELECTOR, 0),
      (VMCS_16BIT_GUEST_LDTR_SELECTOR, 0),
      (VMCS_GUEST_CS_BASE, 0),
      (VMCS_GUEST_ES_BASE, 0),
      (VMCS_GUEST_SS_BASE, 0),
      (VMCS_GUEST_DS_BASE, 0),
      (VMCS_GUEST_FS_BASE, 0),
      (VMCS_GUEST_GS_BASE, 0),
      (VMCS_GUEST_LDTR_BASE, 0),
      (VMCS_GUEST_GDTR_BASE, 0),
      (VMCS_GUEST_IDTR_BASE, 0),
      (VMCS_GUEST_TR_BASE, 0),
      (VMCS_32BIT_GUEST_CS_LIMIT, 0xFFFF),
      (VMCS_32BIT_GUEST_ES_LIMIT, 0xFFFF),
      (VMCS_32BIT_GUEST_SS_LIMIT, 0xFFFF),
      (VMCS_32BIT_GUEST_DS_LIMIT, 0xFFFF),
      (VMCS_32BIT_GUEST_FS_LIMIT, 0xFFFF),
      (VMCS_32BIT_GUEST_GS_LIMIT, 0xFFFF),
      (VMCS_32BIT_GUEST_LDTR_LIMIT, 0xFFFF),
      (VMCS_32BIT_GUEST_TR_LIMIT, 0xFFFFF),
      (VMCS_32BIT_GUEST_GDTR_LIMIT, 0x30),
      (VMCS_32BIT_GUEST_IDTR_LIMIT, 0x3FF),
      (VMCS_32BIT_GUEST_CS_ACCESS_RIGHTS, 0x93),
      (VMCS_32BIT_GUEST_ES_ACCESS_RIGHTS, 0x93),
      (VMCS_32BIT_GUEST_SS_ACCESS_RIGHTS, 0x93),
      (VMCS_32BIT_GUEST_DS_ACCESS_RIGHTS, 0x93),
      (VMCS_32BIT_GUEST_FS_ACCESS_RIGHTS, 0x93),
      (VMCS_32BIT_GUEST_GS_ACCESS_RIGHTS, 0x93),
      (VMCS_32BIT_GUEST_LDTR_ACCESS_RIGHTS, 0x82),
      (VMCS_32BIT_GUEST_TR_ACCESS_RIGHTS, 0x8B),
      (VMCS_32BIT_GUEST_ACTIVITY_STATE, 0),
      (VMCS_32BIT_GUEST_INTERRUPTIBILITY_STATE, 0),
      (VMCS_GUEST_CR3, 0),
      (VMCS_GUEST_CR0, CR0_NE),
      (VMCS_GUEST_CR4, CR4_VMXE),
      (VMCS_64BIT_GUEST_LINK_POINTER, 0xFFFFFFFF),
      (VMCS_64BIT_GUEST_LINK_POINTER_HI, 0xFFFFFFFF),
      (VMCS_GUEST_DR7, 0),
      (VMCS_GUEST_RFLAGS, 2)] s"

definition vmx_read_capability_msr :: "u32 \<Rightarrow> kern \<Rightarrow> u32 \<times> u32" where
  "vmx_read_capability_msr msr s =
     (let msr_val = msrs s msr in (ucast (drop_bit 32 msr_val), ucast msr_val))"

text \<open>The two areas of the guest's MSR page: an entry is two words, the index and the value.\<close>

definition vmcs_ctls_init :: "nat \<Rightarrow> kern \<Rightarrow> kern option" where
  "vmcs_ctls_init e s =
     (let (pin_and, pin_or) = vmx_read_capability_msr IA32_VMX_PINBASED_CTLS s;
          (proc_and, proc_or) = vmx_read_capability_msr IA32_VMX_PROCBASED_CTLS s;
          (proc2_and, proc2_or) = vmx_read_capability_msr IA32_VMX_PROCBASED_CTLS2 s;
          (exit_and, exit_or) = vmx_read_capability_msr IA32_VMX_EXIT_CTLS s;
          (entry_and, entry_or) = vmx_read_capability_msr IA32_VMX_ENTRY_CTLS s;
          proc_or = (proc_or OR VMCS_PROC_BASED_VMEXEC_CTL_ACTIVESECCTL
                       OR VMCS_PROC_BASED_VMEXEC_CTL_HLTEXIT OR VMCS_PROC_BASED_VMEXEC_CTL_USEIOBMP)
                    AND NOT (VMCS_PROC_BASED_VMEXEC_CTL_CR3LOADEXIT
                       OR VMCS_PROC_BASED_VMEXEC_CTL_CR3STOREXIT
                       OR VMCS_PROC_BASED_VMEXEC_CTL_INVLPGEXIT);
          proc2_or = proc2_or OR VMCS_SECONDARY_VMEXEC_CTL_ENABLE_EPT
                       OR VMCS_SECONDARY_VMEXEC_CTL_UNRESTRICTED_GUEST;
          exit_or = exit_or OR VMCS_VMEXIT_HOST_ADDR_SIZE;
          vi = env_vmxinfo (envs s e)
      in if BIT (ucast proc_and) 31 \<noteq> 1 then None
         else do {
           (gf, gi) \<leftarrow> msr_guest_area vi;
           hf \<leftarrow> msr_host_area vi;
           ba \<leftarrow> io_bmap_a vi;
           bb \<leftarrow> io_bmap_b vi;
           Some (vmcs_writes
             [(VMCS_32BIT_CONTROL_PIN_BASED_EXEC_CONTROLS, ucast (pin_or AND pin_and)),
              (VMCS_32BIT_CONTROL_PROCESSOR_BASED_VMEXEC_CONTROLS, ucast (proc_or AND proc_and)),
              (VMCS_32BIT_CONTROL_SECONDARY_VMEXEC_CONTROLS, ucast (proc2_or AND proc2_and)),
              (VMCS_32BIT_CONTROL_VMEXIT_CONTROLS, ucast (exit_or AND exit_and)),
              (VMCS_64BIT_CONTROL_VMEXIT_MSR_STORE_ADDR, page2pa gf + of_nat (8 * gi)),
              (VMCS_32BIT_CONTROL_VMEXIT_MSR_STORE_COUNT, of_int (msr_count vi)),
              (VMCS_64BIT_CONTROL_VMEXIT_MSR_LOAD_ADDR, page2pa hf),
              (VMCS_32BIT_CONTROL_VMEXIT_MSR_LOAD_COUNT, of_int (msr_count vi)),
              (VMCS_64BIT_CONTROL_VMENTRY_MSR_LOAD_ADDR, page2pa gf + of_nat (8 * gi)),
              (VMCS_32BIT_CONTROL_VMENTRY_MSR_LOAD_COUNT, of_int (msr_count vi)),
              (VMCS_32BIT_CONTROL_VMENTRY_CONTROLS, ucast (entry_or AND entry_and)),
              (VMCS_64BIT_CONTROL_EPTPTR, env_cr3 (envs s e) OR push_bit 3 (of_nat (EPT_LEVELS - 1))),
              (VMCS_32BIT_CONTROL_EXCEPTION_BITMAP, ucast (exception_bmap vi)),
              (VMCS_64BIT_CONTROL_IO_BITMAP_A, page2pa ba),
              (VMCS_64BIT_CONTROL_IO_BITMAP_B, page2pa bb)] s)
         })"

definition msr_setup_entry :: "nat \<times> nat \<Rightarrow> nat \<Rightarrow> nat \<Rightarrow> u32 \<Rightarrow> kern \<Rightarrow> kern" where
  "msr_setup_entry guest host i idx s =
     (let s1 = st host (2 * i) (set_lo32 (pmem s host (2 * i)) idx) s;
          s2 = st host (2 * i + 1) (msrs s1 idx) s1;
          (gf, gi) = guest
      in st gf (gi + 2 * i) (set_lo32 (pmem s2 gf (gi + 2 * i)) idx) s2)"

definition msr_setup :: "nat \<Rightarrow> kern \<Rightarrow> kern option" where
  "msr_setup e s =
     (let idx = [EFER_MSR]; count = int (length idx)
      in if \<not> count \<le> MAX_MSR_COUNT then None
         else
           let s1 = upd_env e (\<lambda>v. v\<lparr>env_vmxinfo := (env_vmxinfo v)\<lparr>msr_count := count\<rparr>\<rparr>) s
           in do {
             host \<leftarrow> msr_host_area (env_vmxinfo (envs s1 e));
             guest \<leftarrow> msr_guest_area (env_vmxinfo (envs s1 e));
             Some (fold (\<lambda>i. msr_setup_entry guest host i (idx ! i)) [0..<length idx] s1)
           })"

definition bitmap_setup_port :: "nat \<Rightarrow> u32 \<Rightarrow> kern \<Rightarrow> kern option" where
  "bitmap_setup_port e port s =
     (let idx = unat port div 64; bits = push_bit (unat (port AND 0x3F)) 1; vi = env_vmxinfo (envs s e)
      in if port < 0x7FFF then
           do { a \<leftarrow> io_bmap_a vi; Some (st a idx (pmem s a idx OR bits) s) }
         else if port < 0xFFFF then
           do { b \<leftarrow> io_bmap_b vi; Some (st b idx (pmem s b idx OR bits) s) }
         else None)"

definition bitmap_setup :: "nat \<Rightarrow> kern \<Rightarrow> kern option" where
  "bitmap_setup e s = fold_opt (bitmap_setup_port e) [IO_RTC, IO_RTC + 1] s"

subsection \<open>Running a guest\<close>

text \<open>
  \<open>vmx_vmrun\<close> returns an error code, or enters the guest: by VMLAUNCH if the flag is set,
  by VMRESUME otherwise. \<^verbatim>\<open>asm_vmrun\<close> up to that instruction stores the run count, which decides
  between the two, in \<^verbatim>\<open>tf_ds\<close>, and the host's stack pointer in \<^verbatim>\<open>tf_rsp\<close> and the VMCS.
\<close>

datatype vmrun = VmrunError int | VmEntry bool

definition asm_vmrun_entry :: "vmx_hw \<Rightarrow> nat \<Rightarrow> kern \<Rightarrow> (bool \<times> kern) option" where
  "asm_vmrun_entry hw e s =
     do {
       c \<leftarrow> curenv s;
       let s1 = upd_env e (\<lambda>v. v\<lparr>env_tf := (env_tf v)
                  \<lparr>tf_ds := ucast (env_runs (envs s c)), tf_es := 0, tf_rsp := hw_host_rsp hw\<rparr>\<rparr>) s;
       Some (tf_ds (env_tf (envs s1 e)) = 1, vmcs_writel VMCS_HOST_RSP (hw_host_rsp hw) s1)
     }"

definition vmx_vmrun :: "vmx_hw \<Rightarrow> nat \<Rightarrow> kern \<Rightarrow> (vmrun \<times> kern) option" where
  "vmx_vmrun hw e s =
     (if env_type (envs s e) \<noteq> ENV_TYPE_GUEST then Some (VmrunError (err E_INVAL), s)
      else do {
        p \<leftarrow> vmcs (env_vmxinfo (envs s e));
        let enter = (\<lambda>s. do {
              c \<leftarrow> curenv s;
              (launch, s') \<leftarrow> asm_vmrun_entry hw e (vmcs_writes
                [(VMCS_GUEST_RSP, tf_rsp (env_tf (envs s c))), (VMCS_GUEST_RIP, tf_rip (env_tf (envs s c)))] s);
              Some (VmEntry launch, s')
            });
        if env_runs (envs s e) = 1
        then if hw_vmclear_error hw (page2pa p) then Some (VmrunError (err E_VMCS_INIT), s)
             else if hw_vmptrld_error hw (page2pa p) then Some (VmrunError (err E_VMCS_INIT), s)
             else do {
               let s1 = vmcs_guest_init (vmcs_host_init hw (s\<lparr>current_vmcs := Some p\<rparr>));
               s2 \<leftarrow> bitmap_setup e s1;
               s3 \<leftarrow> msr_setup e s2;
               s4 \<leftarrow> vmcs_ctls_init e s3;
               enter s4
             }
        else if hw_vmptrld_error hw (page2pa p) then Some (VmrunError (err E_VMCS_INIT), s)
             else enter (s\<lparr>current_vmcs := Some p\<rparr>)
      })"

end
