(* ===== verification/Kern_Env.thy ===== *)
theory Kern_Env
  imports Vmx
begin

section \<open>Environments\<close>

text \<open>
  \<^verbatim>\<open>kern/env.c\<close>: the table of environments, their creation with an address space, loading of
  a program and their destruction. The functions that end in a context switch
  (\<^verbatim>\<open>env_run\<close>) return the state in which the CPU leaves the kernel; \<^verbatim>\<open>env_destroy\<close>, which may
  call the scheduler, is in theory \<open>Sched\<close>.
\<close>

subsection \<open>Environment identifiers\<close>

definition ENVGENSHIFT :: nat where [simp]: "ENVGENSHIFT = 12"
definition FL_IF :: u64 where [simp]: "FL_IF = 0x200"
definition FL_IOPL_MASK :: u64 where [simp]: "FL_IOPL_MASK = 0x3000"

text \<open>
  \<open>envid2env\<close> returns the code and what is stored in \<^verbatim>\<open>*env_store\<close>. With \<open>checkperm\<close> and no
  current environment it dereferences a null pointer.
\<close>

definition envid2env :: "kern \<Rightarrow> envid_t \<Rightarrow> bool \<Rightarrow> (int \<times> nat option) option" where
  "envid2env s envid checkperm =
     (if envid = 0 then Some (0, curenv s)
      else
        let e = ENVX envid
        in if env_status (envs s e) = ENV_FREE \<or> env_id (envs s e) \<noteq> envid
           then Some (err E_BAD_ENV, None)
           else if checkperm \<and> curenv s \<noteq> Some e
           then do {
             c \<leftarrow> curenv s;
             if env_parent_id (envs s e) \<noteq> env_id (envs s c) then Some (err E_BAD_ENV, None)
             else Some (0, Some e)
           }
           else Some (0, Some e))"

definition next_generation :: "envid_t \<Rightarrow> envid_t" where
  "next_generation eid =
     (let generation = (eid + push_bit ENVGENSHIFT 1) AND NOT (of_nat NENV - 1)
      in if generation \<le>s 0 then push_bit ENVGENSHIFT 1 else generation)"

subsection \<open>Initialisation\<close>

definition env_init_step :: "nat \<Rightarrow> nat option \<times> kern \<Rightarrow> (nat option \<times> kern)" where
  "env_init_step i = (\<lambda>(env, s).
     let s1 = upd_env i (\<lambda>e. e\<lparr>env_type := ENV_TYPE_USER, env_id := 0\<rparr>) s;
         s2 = (case env of
                 Some p \<Rightarrow> upd_env p (\<lambda>e. e\<lparr>env_link := Some i\<rparr>) s1
               | None \<Rightarrow> s1\<lparr>env_free_list := Some i\<rparr>)
     in (Some i, s2))"

definition env_init :: "kern \<Rightarrow> kern" where
  "env_init s = snd (fold env_init_step [0..<NENV] (None, s))"

subsection \<open>Creation\<close>

definition env_setup_vm :: "nat \<Rightarrow> kern \<Rightarrow> (int \<times> kern) option" where
  "env_setup_vm e s =
     do {
       (p, s1) \<leftarrow> page_alloc s 0;
       (case p of
          None \<Rightarrow> Some (err E_NO_MEM, s1)
        | Some p \<Rightarrow>
            do {
              root \<leftarrow> page2kva s1 p;
              let s2 = upd_env e (\<lambda>v. v\<lparr>env_pml4e := Some root, env_cr3 := page2pa p\<rparr>) s1;
              let s3 = page_incref p s2;
              let s4 = fold (\<lambda>i s. if i \<ge> unat (PML4 UTOP)
                                   then st root i (pmem s (boot_pml4e s) i OR (PTE_P AND NOT (PTE_W OR PTE_U))) s
                                   else s) [0..<NPMLENTRIES] s3;
              Some (0, st root (unat (PML4 UVPT)) (env_cr3 (envs s4 e) OR PTE_P OR PTE_U) s4)
            })
     }"

definition env_alloc :: "kern \<Rightarrow> envid_t \<Rightarrow> ((int \<times> nat option) \<times> kern) option" where
  "env_alloc s parent_id =
     (case env_free_list s of
        None \<Rightarrow> Some ((err E_NO_FREE_ENV, None), s)
      | Some e \<Rightarrow>
          do {
            (r, s1) \<leftarrow> env_setup_vm e s;
            if r < 0 then Some ((r, None), s1)
            else
              let s2 = upd_env e (\<lambda>v. v\<lparr>
                    env_id := next_generation (env_id v) OR of_nat e,
                    env_parent_id := parent_id,
                    env_type := ENV_TYPE_USER,
                    env_status := ENV_RUNNABLE,
                    env_runs := 0,
                    env_tf := zero_tf
                      \<lparr>tf_ds := ucast (GD_UD OR 3), tf_es := ucast (GD_UD OR 3), tf_ss := ucast (GD_UD OR 3),
                       tf_rsp := USTACKTOP, tf_cs := ucast (GD_UT OR 3), tf_eflags := FL_IF\<rparr>,
                    env_pgfault_upcall := 0,
                    env_ipc_recving := False\<rparr>) s1
              in Some ((0, Some e), s2\<lparr>env_free_list := env_link (envs s2 e)\<rparr>)
          })"

text \<open>
  \<open>env_guest_alloc\<close>: the failures of the later allocations drop the references taken so far.
  Clearing the page descriptor (\<^verbatim>\<open>memset(p, 0, sizeof(struct PageInfo))\<close>) resets its link and count.
\<close>

definition page_decrefs :: "nat list \<Rightarrow> kern \<Rightarrow> kern option" where
  "page_decrefs ps s = fold_opt (\<lambda>p s. page_decref s p) ps s"

definition env_guest_commit :: "nat \<Rightarrow> envid_t \<Rightarrow> kern \<Rightarrow> kern" where
  "env_guest_commit e parent_id s =
     (let s1 = upd_env e (\<lambda>v. v\<lparr>
            env_id := next_generation (env_id v) OR of_nat e,
            env_parent_id := parent_id,
            env_type := ENV_TYPE_GUEST,
            env_status := ENV_RUNNABLE,
            env_runs := 0,
            env_tf := zero_tf,
            env_pgfault_upcall := 0,
            env_ipc_recving := False\<rparr>) s
      in s1\<lparr>env_free_list := env_link (envs s1 e)\<rparr>)"

definition alloc_guest_page ::
  "kern \<Rightarrow> nat \<Rightarrow> nat list \<Rightarrow> (nat \<Rightarrow> VmxGuestInfo \<Rightarrow> VmxGuestInfo) \<Rightarrow> (nat option \<times> kern) option" where
  "alloc_guest_page s e held setf =
     do {
       (p, s1) \<leftarrow> page_alloc s ALLOC_ZERO;
       (case p of
          None \<Rightarrow> do { s2 \<leftarrow> page_decrefs held s1; Some (None, s2) }
        | Some p \<Rightarrow>
            let s2 = page_incref p s1
            in do {
              kva \<leftarrow> page2kva s2 p;
              Some (Some p, upd_env e (\<lambda>v. v\<lparr>env_vmxinfo := setf kva (env_vmxinfo v)\<rparr>) s2)
            })
     }"

definition env_guest_alloc :: "kern \<Rightarrow> envid_t \<Rightarrow> ((int \<times> nat option) \<times> kern) option" where
  "env_guest_alloc s parent_id =
     (case env_free_list s of
        None \<Rightarrow> Some ((err E_NO_FREE_ENV, None), s)
      | Some e \<Rightarrow>
          let nomem = (\<lambda>s. Some ((err E_NO_MEM, None), s));
              s0 = upd_env e (\<lambda>v. v\<lparr>env_vmxinfo := zero_vmx\<rparr>) s
          in do {
            (p, s1) \<leftarrow> page_alloc s0 ALLOC_ZERO;
            (case p of None \<Rightarrow> nomem s1 | Some p \<Rightarrow>
              do {
                let s2 = upd_page p (\<lambda>_. \<lparr>pp_link = None, pp_ref = 1\<rparr>) s1;
                root \<leftarrow> page2kva s2 p;
                let s3 = upd_env e (\<lambda>v. v\<lparr>env_pml4e := Some root, env_cr3 := page2pa p\<rparr>) s2;
                (q, s4) \<leftarrow> vmx_init_vmcs s3;
                (case q of None \<Rightarrow> do { s5 \<leftarrow> page_decref s4 p; nomem s5 } | Some q \<Rightarrow>
                  do {
                    let s5 = page_incref q s4;
                    kva \<leftarrow> page2kva s5 q;
                    let s6 = upd_env e (\<lambda>v. v\<lparr>env_vmxinfo := (env_vmxinfo v)\<lparr>vmcs := Some kva\<rparr>\<rparr>) s5;
                    (r, s7) \<leftarrow> alloc_guest_page s6 e [p, q]
                      (\<lambda>kva v. v\<lparr>msr_host_area := Some kva, msr_guest_area := Some (kva, 256)\<rparr>);
                    (case r of None \<Rightarrow> nomem s7 | Some r \<Rightarrow>
                      do {
                        (a, s8) \<leftarrow> alloc_guest_page s7 e [p, q, r] (\<lambda>kva v. v\<lparr>io_bmap_a := Some kva\<rparr>);
                        (case a of None \<Rightarrow> nomem s8 | Some a \<Rightarrow>
                          do {
                            (b, s9) \<leftarrow> alloc_guest_page s8 e [p, q, r, a] (\<lambda>kva v. v\<lparr>io_bmap_b := Some kva\<rparr>);
                            (case b of None \<Rightarrow> nomem s9 | Some b \<Rightarrow>
                              Some ((0, Some e), env_guest_commit e parent_id s9))
                          })
                      })
                  })
              })
          })"

subsection \<open>Loading a program\<close>

text \<open>
  Bytes in memory: byte \<open>k\<close> of a little-endian word, and a store through the page table
  that the CPU has loaded (\<open>None\<close> is a page fault in the kernel).
\<close>

definition get_byte :: "u64 \<Rightarrow> nat \<Rightarrow> u8" where
  "get_byte w k = ucast (drop_bit (8 * k) w)"

definition set_byte :: "u64 \<Rightarrow> nat \<Rightarrow> u8 \<Rightarrow> u64" where
  "set_byte w k b = (w AND NOT (push_bit (8 * k) 0xFF)) OR push_bit (8 * k) (ucast b)"

definition vm_store :: "u64 \<Rightarrow> u8 \<Rightarrow> kern \<Rightarrow> kern option" where
  "vm_store va b s =
     do {
       t \<leftarrow> check_va2pa s (pte_frame (cpu_cr3 s)) va;
       pa \<leftarrow> t;
       let f = pte_frame pa;
       let i = unat (PGOFF va) div 8;
       Some (st f i (set_byte (pmem s f i) (unat (PGOFF va) mod 8) b) s)
     }"

definition vm_load :: "kern \<Rightarrow> nat \<Rightarrow> u64 \<Rightarrow> u8 option" where
  "vm_load s root va =
     do {
       t \<leftarrow> check_va2pa s root va;
       pa \<leftarrow> t;
       Some (get_byte (pmem s (pte_frame pa) (unat (PGOFF va) div 8)) (unat (PGOFF va) mod 8))
     }"

definition vm_memcpy :: "u64 \<Rightarrow> (nat \<Rightarrow> u8) \<Rightarrow> nat \<Rightarrow> kern \<Rightarrow> kern option" where
  "vm_memcpy va src n s = fold_opt (\<lambda>k. vm_store (va + of_nat k) (src k)) [0..<n] s"

definition vm_memset :: "u64 \<Rightarrow> u8 \<Rightarrow> nat \<Rightarrow> kern \<Rightarrow> kern option" where
  "vm_memset va c n s = fold_opt (\<lambda>k. vm_store (va + of_nat k) c) [0..<n] s"

text \<open>The fields of the ELF headers that are used, read from the image.\<close>

definition ELF_MAGIC :: u64 where [simp]: "ELF_MAGIC = 0x464C457F"
definition ELF_PROG_LOAD :: u64 where [simp]: "ELF_PROG_LOAD = 1"

record Elf =
  e_magic :: u64
  e_entry :: u64
  e_phoff :: u64
  e_phnum :: u64

record Proghdr =
  p_type :: u64
  p_offset :: u64
  p_va :: u64
  p_filesz :: u64
  p_memsz :: u64

definition elf_header :: "(nat \<Rightarrow> u8) \<Rightarrow> Elf" where
  "elf_header b = \<lparr>e_magic = rd_le 4 b 0, e_entry = rd_le 8 b 24, e_phoff = rd_le 8 b 32,
     e_phnum = rd_le 2 b 56\<rparr>"

definition prog_header :: "(nat \<Rightarrow> u8) \<Rightarrow> nat \<Rightarrow> Proghdr" where
  "prog_header b at = \<lparr>p_type = rd_le 4 b at, p_offset = rd_le 8 b (at + 8), p_va = rd_le 8 b (at + 16),
     p_filesz = rd_le 8 b (at + 32), p_memsz = rd_le 8 b (at + 40)\<rparr>"

definition region_alloc_page :: "nat \<Rightarrow> u64 \<Rightarrow> kern \<Rightarrow> kern option" where
  "region_alloc_page e start s =
     do {
       (p, s1) \<leftarrow> page_alloc s 0;
       p \<leftarrow> p;
       (r, s2) \<leftarrow> page_insert s1 (env_pml4e (envs s1 e)) p start (PTE_U OR PTE_P OR PTE_W);
       if r < 0 then None else Some s2
     }"

definition region_alloc :: "nat \<Rightarrow> u64 \<Rightarrow> u64 \<Rightarrow> kern \<Rightarrow> kern option" where
  "region_alloc e va len s =
     (let start = ROUNDDOWN va PGSIZE; stop = ROUNDUP (va + len) PGSIZE
      in fold_opt (\<lambda>k. region_alloc_page e (start + of_nat k * PGSIZE))
           [0..<if start < stop then (unat stop - unat start) div 4096 else 0] s)"

definition load_segment :: "nat \<Rightarrow> (nat \<Rightarrow> u8) \<Rightarrow> Proghdr \<Rightarrow> kern \<Rightarrow> kern option" where
  "load_segment e binary ph s =
     (if p_type ph = ELF_PROG_LOAD
      then do {
        s1 \<leftarrow> region_alloc e (p_va ph) (p_memsz ph) s;
        s2 \<leftarrow> vm_memcpy (p_va ph) (\<lambda>k. binary (unat (p_offset ph) + k)) (unat (p_filesz ph)) s1;
        vm_memset (p_va ph + p_filesz ph) 0 (unat (p_memsz ph - p_filesz ph)) s2
      }
      else Some s)"

definition load_icode :: "nat \<Rightarrow> (nat \<Rightarrow> u8) \<Rightarrow> kern \<Rightarrow> kern option" where
  "load_icode e binary s =
     (let elfhdr = elf_header binary
      in if e_magic elfhdr \<noteq> ELF_MAGIC then None
         else do {
           let s1 = s\<lparr>cpu_cr3 := env_cr3 (envs s e)\<rparr>;
           s2 \<leftarrow> fold_opt (\<lambda>i. load_segment e binary (prog_header binary (unat (e_phoff elfhdr) + 56 * i)))
                  [0..<unat (e_phnum elfhdr)] s1;
           let s3 = upd_env e (\<lambda>v. v\<lparr>env_tf := (env_tf v)\<lparr>tf_rip := e_entry elfhdr\<rparr>\<rparr>) s2;
           s4 \<leftarrow> region_alloc e (USTACKTOP - PGSIZE) PGSIZE s3;
           Some (upd_env e (\<lambda>v. v\<lparr>env_elf := Some binary\<rparr>) s4)
         })"

text \<open>
  The result of \<^verbatim>\<open>env_alloc\<close> is tested as an unsigned number, so that the test never fails;
  after a failure the pointer is uninitialised.
\<close>

definition env_create :: "(nat \<Rightarrow> u8) \<Rightarrow> env_type \<Rightarrow> kern \<Rightarrow> kern option" where
  "env_create binary ty s =
     do {
       ((r, e), s1) \<leftarrow> env_alloc s 0;
       e \<leftarrow> e;
       s2 \<leftarrow> load_icode e binary s1;
       let s3 = upd_env e (\<lambda>v. v\<lparr>env_type := ty\<rparr>) s2;
       Some (if ty = ENV_TYPE_FS
             then upd_env e (\<lambda>v. v\<lparr>env_tf := (env_tf v)\<lparr>tf_eflags := tf_eflags (env_tf v) OR FL_IOPL_MASK\<rparr>\<rparr>) s3
             else s3)
     }"

subsection \<open>Destruction\<close>

definition free_pt_entry :: "nat \<Rightarrow> nat \<Rightarrow> nat \<Rightarrow> nat \<Rightarrow> nat \<Rightarrow> kern \<Rightarrow> kern option" where
  "free_pt_entry e pdpe_index pdeno pt pteno s =
     (if pmem s pt pteno AND PTE_P \<noteq> 0
      then page_remove s (env_pml4e (envs s e)) (PGADDR 0 (of_nat pdpe_index) (of_nat pdeno) (of_nat pteno) 0)
      else Some s)"

definition free_pgdir_entry :: "nat \<Rightarrow> nat \<Rightarrow> nat \<Rightarrow> nat \<Rightarrow> kern \<Rightarrow> kern option" where
  "free_pgdir_entry e pdpe_index env_pgdir pdeno s =
     (if pmem s env_pgdir pdeno AND PTE_P = 0 then Some s
      else do {
        let pa = PTE_ADDR (pmem s env_pgdir pdeno);
        pt \<leftarrow> KADDR s pa;
        s1 \<leftarrow> fold_opt (free_pt_entry e pdpe_index pdeno pt) [0..<unat (PTX (- 1))] s;
        let s2 = st env_pgdir pdeno 0 s1;
        p \<leftarrow> pa2page s2 pa;
        page_decref s2 p
      })"

definition free_pdpe_entry :: "nat \<Rightarrow> nat \<Rightarrow> nat \<Rightarrow> kern \<Rightarrow> kern option" where
  "free_pdpe_entry e env_pdpe pdpe_index s =
     (if pmem s env_pdpe pdpe_index AND PTE_P = 0 then Some s
      else do {
        env_pgdir \<leftarrow> KADDR s (PTE_ADDR (pmem s env_pdpe pdpe_index));
        s1 \<leftarrow> fold_opt (free_pgdir_entry e pdpe_index env_pgdir)
               [0..<if pdpe_index = 3 then unat (PDX UTOP) else unat (PDX 0xFFFFFFFF)] s;
        let pa = PTE_ADDR (pmem s1 env_pdpe pdpe_index);
        let s2 = st env_pdpe pdpe_index 0 s1;
        p \<leftarrow> pa2page s2 pa;
        page_decref s2 p
      })"

definition env_free :: "nat \<Rightarrow> kern \<Rightarrow> kern option" where
  "env_free e s =
     (let s1 = (if curenv s = Some e then s\<lparr>cpu_cr3 := page2pa (boot_pml4e s)\<rparr> else s)
      in do {
        root \<leftarrow> env_pml4e (envs s1 e);
        env_pdpe \<leftarrow> KADDR s1 (PTE_ADDR (pmem s1 root 0));
        s2 \<leftarrow> fold_opt (free_pdpe_entry e env_pdpe) [0..<4] s1;
        p \<leftarrow> pa2page s2 (PTE_ADDR (pmem s2 root 0));
        s3 \<leftarrow> page_decref s2 p;
        let s4 = st root 0 0 s3;
        let pa = env_cr3 (envs s4 e);
        let s5 = upd_env e (\<lambda>v. v\<lparr>env_pml4e := None, env_cr3 := 0\<rparr>) s4;
        p \<leftarrow> pa2page s5 pa;
        s6 \<leftarrow> page_decref s5 p;
        let s7 = upd_env e (\<lambda>v. v\<lparr>env_status := ENV_FREE, env_link := env_free_list s6\<rparr>) s6;
        Some (s7\<lparr>env_free_list := Some e\<rparr>)
      })"

definition env_guest_free :: "nat \<Rightarrow> kern \<Rightarrow> kern option" where
  "env_guest_free e s =
     (let vi = env_vmxinfo (envs s e)
      in do {
        v \<leftarrow> vmcs vi; h \<leftarrow> msr_host_area vi; a \<leftarrow> io_bmap_a vi; b \<leftarrow> io_bmap_b vi;
        p1 \<leftarrow> pa2page s (page2pa v); s1 \<leftarrow> page_decref s p1;
        p2 \<leftarrow> pa2page s1 (page2pa h); s2 \<leftarrow> page_decref s1 p2;
        p3 \<leftarrow> pa2page s2 (page2pa a); s3 \<leftarrow> page_decref s2 p3;
        p4 \<leftarrow> pa2page s3 (page2pa b); s4 \<leftarrow> page_decref s3 p4;
        root \<leftarrow> env_pml4e (envs s4 e);
        s5 \<leftarrow> free_guest_mem root s4;
        p5 \<leftarrow> pa2page s5 (env_cr3 (envs s5 e)); s6 \<leftarrow> page_decref s5 p5;
        let s7 = upd_env e (\<lambda>v. v\<lparr>env_pml4e := None, env_cr3 := 0, env_status := ENV_FREE,
                   env_link := env_free_list s6\<rparr>) s6;
        Some (s7\<lparr>env_free_list := Some e\<rparr>)
      })"

subsection \<open>Context switch\<close>

text \<open>\<^verbatim>\<open>env_pop_tf\<close> records the CPU, of which there is one, and leaves the kernel.\<close>

definition env_pop_tf :: "kern \<Rightarrow> kern option" where
  "env_pop_tf s = do { c \<leftarrow> curenv s; Some (upd_env c (\<lambda>v. v\<lparr>env_cpunum := 0\<rparr>) s) }"

definition env_run :: "nat \<Rightarrow> kern \<Rightarrow> kern option" where
  "env_run e s =
     (let s1 = (case curenv s of
                  Some c \<Rightarrow> if env_status (envs s c) = ENV_RUNNING
                           then upd_env c (\<lambda>v. v\<lparr>env_status := ENV_RUNNABLE\<rparr>) s else s
                | None \<Rightarrow> s);
          s2 = upd_env e (\<lambda>v. v\<lparr>env_status := ENV_RUNNING, env_runs := env_runs v + 1\<rparr>) (s1\<lparr>curenv := Some e\<rparr>)
      in env_pop_tf (s2\<lparr>cpu_cr3 := env_cr3 (envs s2 e)\<rparr>))"

end
