(* ===== verification/Sched.thy ===== *)
theory Sched
  imports Kern_Env
begin

section \<open>The scheduler\<close>

text \<open>
  \<^verbatim>\<open>kern/sched.c\<close>, and the functions of \<^verbatim>\<open>kern/env.c\<close> and \<^verbatim>\<open>kern/pmap.c\<close> that may end in it.
  How a kernel function ends is an \<open>outcome\<close>: it returns to its caller, or the CPU leaves the kernel
  by resuming an environment, entering a guest, or halting until an interrupt, or it stays in
  the kernel monitor for good.
\<close>

datatype outcome = Returned | Switch nat | EnterGuest nat bool | Halted | Monitor

definition vmxon :: "vmx_hw \<Rightarrow> kern \<Rightarrow> (int \<times> kern) option" where
  "vmxon hw s =
     (if \<not> is_vmx_root s
      then do { (r, s1) \<leftarrow> vmx_init_vmxon hw s; if r < 0 then Some (r, s1) else Some (0, s1) }
      else Some (0, s))"

definition sched_halt :: "kern \<Rightarrow> (outcome \<times> kern) option" where
  "sched_halt s =
     (if \<exists>i \<in> set [0..<NENV]. env_status (envs s i) \<in> {ENV_RUNNABLE, ENV_RUNNING, ENV_DYING}
      then Some (Halted, s\<lparr>curenv := None, cpu_cr3 := page2pa (boot_pml4e s), cpu_status := CPU_HALTED\<rparr>)
      else Some (Monitor, s))"

text \<open>The search loop of \<^verbatim>\<open>sched_yield\<close>: \<open>n\<close> slots after \<open>i\<close>, in circular order.\<close>

primrec sched_search :: "nat \<Rightarrow> nat \<Rightarrow> kern \<Rightarrow> nat option" where
  "sched_search 0 i s = None"
| "sched_search (Suc n) i s =
     (let i = (i + 1) mod NENV
      in if env_status (envs s i) = ENV_RUNNABLE then Some i else sched_search n i s)"

definition run_guest :: "vmx_hw \<Rightarrow> nat \<Rightarrow> kern \<Rightarrow> (outcome \<times> kern) option" where
  "run_guest hw i s =
     do {
       (r, s1) \<leftarrow> vmx_vmrun hw i s;
       (case r of VmrunError _ \<Rightarrow> Some (Returned, s1) | VmEntry l \<Rightarrow> Some (EnterGuest i l, s1))
     }"

definition sched_yield :: "vmx_hw \<Rightarrow> kern \<Rightarrow> (outcome \<times> kern) option" where
  "sched_yield hw s =
     (let idle = curenv s;
          i = (case idle of Some c \<Rightarrow> ENVX (env_id (envs s c)) | None \<Rightarrow> 0)
      in case sched_search NENV i s of
           Some i \<Rightarrow>
             if env_type (envs s i) = ENV_TYPE_GUEST
             then do {
               (r, s1) \<leftarrow> vmxon hw s;
               if r = 0
               then
                 let s2 = (case curenv s1 of
                             Some c \<Rightarrow> if env_status (envs s1 c) = ENV_RUNNING
                                      then upd_env c (\<lambda>v. v\<lparr>env_status := ENV_RUNNABLE\<rparr>) s1 else s1
                           | None \<Rightarrow> s1);
                     s3 = upd_env i (\<lambda>v. v\<lparr>env_status := ENV_RUNNING, env_runs := env_runs v + 1\<rparr>)
                            (s2\<lparr>curenv := Some i\<rparr>)
                 in run_guest hw i s3
               else Some (Returned, s1)
             }
             else do { s1 \<leftarrow> env_run i s; Some (Switch i, s1) }
         | None \<Rightarrow>
             (case idle of
                Some c \<Rightarrow>
                  if env_status (envs s c) = ENV_RUNNING
                  then if env_type (envs s c) = ENV_TYPE_GUEST
                       then do {
                         (r, s1) \<leftarrow> vmxon hw s;
                         if r = 0
                         then do {
                           (out, s2) \<leftarrow> run_guest hw c (upd_env c (\<lambda>v. v\<lparr>env_runs := env_runs v + 1\<rparr>) s1);
                           if out = Returned then sched_halt s2 else Some (out, s2)
                         }
                         else sched_halt s1
                       }
                       else do { s1 \<leftarrow> env_run c s; Some (Switch c, s1) }
                  else sched_halt s
              | None \<Rightarrow> sched_halt s))"

definition env_destroy :: "vmx_hw \<Rightarrow> nat \<Rightarrow> kern \<Rightarrow> (outcome \<times> kern) option" where
  "env_destroy hw e s =
     (if env_status (envs s e) = ENV_RUNNING \<and> curenv s \<noteq> Some e
      then Some (Returned, upd_env e (\<lambda>v. v\<lparr>env_status := ENV_DYING\<rparr>) s)
      else do {
        s1 \<leftarrow> (if env_type (envs s e) = ENV_TYPE_GUEST then env_guest_free e s else env_free e s);
        if curenv s1 = Some e then sched_yield hw (s1\<lparr>curenv := None\<rparr>)
        else Some (Returned, s1)
      })"

definition user_mem_assert :: "vmx_hw \<Rightarrow> kern \<Rightarrow> nat \<Rightarrow> u64 \<Rightarrow> u64 \<Rightarrow> u64 \<Rightarrow> (outcome \<times> kern) option" where
  "user_mem_assert hw s env va len perm =
     do {
       (r, s1) \<leftarrow> user_mem_check s env va len (perm OR PTE_U);
       if r < 0 then env_destroy hw env s1 else Some (Returned, s1)
     }"

end
