(* ===== verification/Syscall.thy ===== *)
theory Syscall
  imports Sched
begin

section \<open>System calls\<close>

text \<open>
  \<^verbatim>\<open>kern/syscall.c\<close>. A system call returns a number (\<open>Ret\<close>) or leaves the kernel otherwise
  (\<open>NoRet\<close>). C's \<^verbatim>\<open>int\<close> arguments are 32-bit words and are sign-extended where the code passes them
  on to \<^verbatim>\<open>page_insert\<close>. Pointers are the addresses the caller passed.
\<close>

datatype sysret = Ret int | NoRet outcome

definition ret :: "int \<Rightarrow> kern \<Rightarrow> (sysret \<times> kern) option" where
  "ret r s = Some (Ret r, s)"

definition ret_err :: "jos_error \<Rightarrow> kern \<Rightarrow> (sysret \<times> kern) option" where
  "ret_err e s = Some (Ret (err e), s)"

text \<open>A call to a function that may not return, and what follows if it does.\<close>

definition after ::
  "(outcome \<times> kern) option \<Rightarrow> (kern \<Rightarrow> (sysret \<times> kern) option) \<Rightarrow> (sysret \<times> kern) option" where
  "after m k =
     do { (out, s) \<leftarrow> m; if out = Returned then k s else Some (NoRet out, s) }"

subsection \<open>Console\<close>

text \<open>
  Printing with \<^verbatim>\<open>"%.*s"\<close>: each byte is read before the count is tested, so that one byte
  more than \<open>n\<close> is read. A negative count means no limit.
\<close>

primrec user_puts :: "nat \<Rightarrow> u64 \<Rightarrow> kern \<Rightarrow> kern option" where
  "user_puts 0 va s = do { b \<leftarrow> vm_load s (pte_frame (cpu_cr3 s)) va; Some s }"
| "user_puts (Suc n) va s =
     do {
       b \<leftarrow> vm_load s (pte_frame (cpu_cr3 s)) va;
       if b = 0 then Some s
       else user_puts n (va + 1) (s\<lparr>kcons := cputchar (scast b) (kcons s)\<rparr>)
     }"

definition sys_cputs :: "vmx_hw \<Rightarrow> u64 \<Rightarrow> u64 \<Rightarrow> kern \<Rightarrow> (sysret \<times> kern) option" where
  "sys_cputs hw str len s =
     do {
       c \<leftarrow> curenv s;
       after (user_mem_assert hw s c str len PTE_U) (\<lambda>s.
         do {
           let precision = (ucast len :: u32);
           s1 \<leftarrow> user_puts (if precision <s 0 then 2 ^ 64 else unat precision) str s;
           ret 0 s1
         })
     }"

definition sys_cgetc :: "kern \<Rightarrow> (sysret \<times> kern) option" where
  "sys_cgetc s = (let (c, d) = cons_getc (kcons s) in ret (uint c) (s\<lparr>kcons := d\<rparr>))"

subsection \<open>Environments\<close>

definition sys_getenvid :: "kern \<Rightarrow> (sysret \<times> kern) option" where
  "sys_getenvid s = do { c \<leftarrow> curenv s; ret (sint (env_id (envs s c))) s }"

text \<open>\<open>with_env\<close>: translate an environment identifier and continue, or return the error.\<close>

definition with_env ::
  "envid_t \<Rightarrow> bool \<Rightarrow> kern \<Rightarrow> (nat \<Rightarrow> (sysret \<times> kern) option) \<Rightarrow> (sysret \<times> kern) option" where
  "with_env envid checkperm s k =
     do {
       (r, e) \<leftarrow> envid2env s envid checkperm;
       if r < 0 then ret r s else do { e \<leftarrow> e; k e }
     }"

definition sys_env_destroy :: "vmx_hw \<Rightarrow> envid_t \<Rightarrow> kern \<Rightarrow> (sysret \<times> kern) option" where
  "sys_env_destroy hw envid s =
     with_env envid True s (\<lambda>e. after (env_destroy hw e s) (ret 0))"

definition sys_exofork :: "kern \<Rightarrow> (sysret \<times> kern) option" where
  "sys_exofork s =
     do {
       c \<leftarrow> curenv s;
       ((r, child), s1) \<leftarrow> env_alloc s (env_id (envs s c));
       if r < 0 then ret r s1
       else do {
         child \<leftarrow> child;
         let tf = env_tf (envs s1 c);
         let s2 = upd_env child (\<lambda>v. v\<lparr>env_status := ENV_NOT_RUNNABLE,
                    env_tf := tf\<lparr>tf_regs := (tf_regs tf)\<lparr>reg_rax := 0\<rparr>\<rparr>,
                    env_parent_id := env_id (envs s1 c)\<rparr>) s1;
         ret (sint (env_id (envs s2 child))) s2
       }
     }"

text \<open>The values of the \<^verbatim>\<open>env_status\<close> enumeration that the call accepts.\<close>

definition status_code :: "u32 \<Rightarrow> env_status option" where
  "status_code n = (if n = 2 then Some ENV_RUNNABLE else if n = 4 then Some ENV_NOT_RUNNABLE else None)"

definition sys_env_set_status :: "envid_t \<Rightarrow> u32 \<Rightarrow> kern \<Rightarrow> (sysret \<times> kern) option" where
  "sys_env_set_status envid status s =
     (case status_code status of
        None \<Rightarrow> ret_err E_INVAL s
      | Some v \<Rightarrow>
          with_env envid True s (\<lambda>e. ret 0 (upd_env e (\<lambda>x. x\<lparr>env_status := v\<rparr>) s)))"

text \<open>
  The trap frame is read at the address the caller passed, without a check, through the page
  table that is loaded; \<open>None\<close> is a page fault in the kernel.
\<close>

primrec vm_read :: "nat \<Rightarrow> kern \<Rightarrow> nat \<Rightarrow> u64 \<Rightarrow> u64 option" where
  "vm_read 0 s root va = Some 0"
| "vm_read (Suc n) s root va =
     do { b \<leftarrow> vm_load s root va; w \<leftarrow> vm_read n s root (va + 1); Some (ucast b OR push_bit 8 w) }"

definition read_regs :: "kern \<Rightarrow> nat \<Rightarrow> u64 \<Rightarrow> PushRegs option" where
  "read_regs s root va =
     do {
       r15 \<leftarrow> vm_read 8 s root va;           r14 \<leftarrow> vm_read 8 s root (va + 8);
       r13 \<leftarrow> vm_read 8 s root (va + 16);    r12 \<leftarrow> vm_read 8 s root (va + 24);
       r11 \<leftarrow> vm_read 8 s root (va + 32);    r10 \<leftarrow> vm_read 8 s root (va + 40);
       r9 \<leftarrow> vm_read 8 s root (va + 48);     r8 \<leftarrow> vm_read 8 s root (va + 56);
       rsi \<leftarrow> vm_read 8 s root (va + 64);    rdi \<leftarrow> vm_read 8 s root (va + 72);
       rbp \<leftarrow> vm_read 8 s root (va + 80);    rdx \<leftarrow> vm_read 8 s root (va + 88);
       rcx \<leftarrow> vm_read 8 s root (va + 96);    rbx \<leftarrow> vm_read 8 s root (va + 104);
       rax \<leftarrow> vm_read 8 s root (va + 112);
       Some \<lparr>reg_r15 = r15, reg_r14 = r14, reg_r13 = r13, reg_r12 = r12, reg_r11 = r11, reg_r10 = r10,
         reg_r9 = r9, reg_r8 = r8, reg_rsi = rsi, reg_rdi = rdi, reg_rbp = rbp, reg_rdx = rdx,
         reg_rcx = rcx, reg_rbx = rbx, reg_rax = rax\<rparr>
     }"

definition read_tf :: "kern \<Rightarrow> nat \<Rightarrow> u64 \<Rightarrow> Trapframe option" where
  "read_tf s root va =
     do {
       regs \<leftarrow> read_regs s root va;
       es \<leftarrow> vm_read 2 s root (va + 120);
       ds \<leftarrow> vm_read 2 s root (va + 128);
       trapno \<leftarrow> vm_read 8 s root (va + 136);
       errc \<leftarrow> vm_read 8 s root (va + 144);
       rip \<leftarrow> vm_read 8 s root (va + 152);
       cs \<leftarrow> vm_read 2 s root (va + 160);
       eflags \<leftarrow> vm_read 8 s root (va + 168);
       rsp \<leftarrow> vm_read 8 s root (va + 176);
       ss \<leftarrow> vm_read 2 s root (va + 184);
       Some \<lparr>tf_regs = regs, tf_es = ucast es, tf_ds = ucast ds, tf_trapno = trapno, tf_err = errc,
         tf_rip = rip, tf_cs = ucast cs, tf_eflags = eflags, tf_rsp = rsp, tf_ss = ucast ss\<rparr>
     }"

definition sys_env_set_trapframe :: "envid_t \<Rightarrow> u64 \<Rightarrow> kern \<Rightarrow> (sysret \<times> kern) option" where
  "sys_env_set_trapframe envid tfp s =
     with_env envid True s (\<lambda>e.
       do {
         tf \<leftarrow> read_tf s (pte_frame (cpu_cr3 s)) tfp;
         ret 0 (upd_env e (\<lambda>x. x\<lparr>env_tf := tf\<lparr>tf_cs := tf_cs tf OR 3, tf_eflags := tf_eflags tf OR FL_IF\<rparr>\<rparr>) s)
       })"

definition sys_env_set_pgfault_upcall :: "envid_t \<Rightarrow> u64 \<Rightarrow> kern \<Rightarrow> (sysret \<times> kern) option" where
  "sys_env_set_pgfault_upcall envid func s =
     with_env envid True s (\<lambda>e. ret 0 (upd_env e (\<lambda>x. x\<lparr>env_pgfault_upcall := func\<rparr>) s))"

subsection \<open>Memory\<close>

definition bad_va :: "u64 \<Rightarrow> bool" where
  "bad_va va \<longleftrightarrow> va \<ge> UTOP \<or> PGOFF va \<noteq> 0"

definition bad_perm :: "u32 \<Rightarrow> bool" where
  "bad_perm perm \<longleftrightarrow> perm AND 5 \<noteq> 5 \<or> perm AND NOT 0xE07 \<noteq> 0"

definition sys_page_alloc :: "envid_t \<Rightarrow> u64 \<Rightarrow> u32 \<Rightarrow> kern \<Rightarrow> (sysret \<times> kern) option" where
  "sys_page_alloc envid va perm s =
     with_env envid True s (\<lambda>e.
       do {
         (pp, s1) \<leftarrow> page_alloc s 0;
         (case pp of
            None \<Rightarrow> ret_err E_NO_MEM s1
          | Some pp \<Rightarrow>
              if bad_va va then ret_err E_INVAL s1
              else if bad_perm perm then ret_err E_INVAL s1
              else do {
                (r, s2) \<leftarrow> page_insert s1 (env_pml4e (envs s1 e)) pp va (scast perm);
                if r < 0 then do { s3 \<leftarrow> page_free s2 pp; ret_err E_NO_MEM s3 }
                else ret 0 s2
              })
       })"

definition sys_page_map ::
  "envid_t \<Rightarrow> u64 \<Rightarrow> envid_t \<Rightarrow> u64 \<Rightarrow> u32 \<Rightarrow> kern \<Rightarrow> (sysret \<times> kern) option" where
  "sys_page_map srcenvid srcva dstenvid dstva perm s =
     do {
       (r1, srcenv) \<leftarrow> envid2env s srcenvid True;
       (r2, dstenv) \<leftarrow> envid2env s dstenvid True;
       if r1 < 0 \<or> r2 < 0 then ret_err E_BAD_ENV s
       else if srcva \<ge> UTOP \<or> dstva \<ge> UTOP \<or> PGOFF srcva \<noteq> 0 \<or> PGOFF dstva \<noteq> 0 then ret_err E_INVAL s
       else do {
         srcenv \<leftarrow> srcenv;
         dstenv \<leftarrow> dstenv;
         (m, s1) \<leftarrow> page_lookup s (env_pml4e (envs s srcenv)) srcva;
         (case m of
            None \<Rightarrow> ret_err E_NO_MEM s1
          | Some (pp, f, i) \<Rightarrow>
              if bad_perm perm then ret_err E_INVAL s1
              else if perm AND 2 \<noteq> 0 \<and> pmem s1 f i AND PTE_W = 0 then ret_err E_INVAL s1
              else do {
                (r, s2) \<leftarrow> page_insert s1 (env_pml4e (envs s1 dstenv)) pp dstva (scast perm);
                if r < 0 then ret_err E_NO_MEM s2 else ret 0 s2
              })
       }
     }"

definition sys_page_unmap :: "envid_t \<Rightarrow> u64 \<Rightarrow> kern \<Rightarrow> (sysret \<times> kern) option" where
  "sys_page_unmap envid va s =
     with_env envid True s (\<lambda>e.
       if bad_va va then ret_err E_INVAL s
       else do { s1 \<leftarrow> page_remove s (env_pml4e (envs s e)) va; ret 0 s1 })"

subsection \<open>Inter-process communication\<close>

text \<open>
  Sending a page is attempted if both addresses are nonzero and below \<open>UTOP\<close>; the
  receiver's flag, sender and permission have been changed by then.
\<close>

definition ipc_finish :: "nat \<Rightarrow> u32 \<Rightarrow> kern \<Rightarrow> (sysret \<times> kern) option" where
  "ipc_finish recvr val s =
     ret 0 (upd_env recvr (\<lambda>v. v\<lparr>env_ipc_value := val, env_status := ENV_RUNNABLE\<rparr>) s)"

definition ipc_send_to :: "nat \<Rightarrow> u32 \<Rightarrow> u64 \<Rightarrow> u32 \<Rightarrow> kern \<Rightarrow> (sysret \<times> kern) option" where
  "ipc_send_to recvr val srcva perm s =
     do {
       c \<leftarrow> curenv s;
       let s1 = upd_env recvr (\<lambda>v. v\<lparr>env_ipc_recving := False, env_ipc_from := env_id (envs s c),
                  env_ipc_perm := 0\<rparr>) s;
       let dstva = env_ipc_dstva (envs s1 recvr);
       if (srcva \<noteq> 0 \<and> srcva < UTOP) \<and> (dstva \<noteq> 0 \<and> dstva < UTOP)
       then if PGOFF srcva \<noteq> 0 then ret_err E_INVAL s1
            else if bad_perm perm then ret_err E_INVAL s1
            else do {
              (m, s2) \<leftarrow> page_lookup s1 (env_pml4e (envs s1 c)) srcva;
              (case m of
                 None \<Rightarrow> ret_err E_INVAL s2
               | Some (pp, f, i) \<Rightarrow>
                   if perm AND 2 \<noteq> 0 \<and> pmem s2 f i AND PTE_W = 0 then ret_err E_INVAL s2
                   else do {
                     (r, s3) \<leftarrow> page_insert s2 (env_pml4e (envs s2 recvr)) pp dstva (scast perm);
                     if r < 0 then ret_err E_NO_MEM s3
                     else ipc_finish recvr val (upd_env recvr (\<lambda>v. v\<lparr>env_ipc_perm := perm\<rparr>) s3)
                   })
            }
       else ipc_finish recvr val s1
     }"

definition sys_ipc_try_send :: "envid_t \<Rightarrow> u32 \<Rightarrow> u64 \<Rightarrow> u32 \<Rightarrow> kern \<Rightarrow> (sysret \<times> kern) option" where
  "sys_ipc_try_send envid val srcva perm s =
     with_env envid False s (\<lambda>recvr.
       if \<not> env_ipc_recving (envs s recvr) then ret_err E_IPC_NOT_RECV s
       else ipc_send_to recvr val srcva perm s)"

definition sys_ipc_recv :: "vmx_hw \<Rightarrow> u64 \<Rightarrow> kern \<Rightarrow> (sysret \<times> kern) option" where
  "sys_ipc_recv hw dstva s =
     do {
       c \<leftarrow> curenv s;
       let s1 = upd_env c (\<lambda>v. v\<lparr>env_ipc_recving := True\<rparr>) s;
       if dstva < UTOP \<and> PGOFF dstva \<noteq> 0 then ret_err E_INVAL s1
       else
         let s2 = upd_env c (\<lambda>v. v\<lparr>env_ipc_dstva := dstva, env_status := ENV_NOT_RUNNABLE,
                    env_tf := (env_tf v)\<lparr>tf_regs := (tf_regs (env_tf v))\<lparr>reg_rax := 0\<rparr>\<rparr>\<rparr>) s1
         in after (sched_yield hw s2) (ret 0)
     }"

subsection \<open>Guests\<close>

definition sys_ept_map ::
  "envid_t \<Rightarrow> u64 \<Rightarrow> envid_t \<Rightarrow> u64 \<Rightarrow> u32 \<Rightarrow> kern \<Rightarrow> (sysret \<times> kern) option" where
  "sys_ept_map srcenvid srcva guest guest_pa perm s =
     with_env srcenvid True s (\<lambda>srcenv. with_env guest True s (\<lambda>guestenv.
       if bad_va srcva \<or> PGOFF guest_pa \<noteq> 0 \<or> guest_pa \<ge> phys_sz (env_vmxinfo (envs s guestenv))
       then ret_err E_INVAL s
       else do {
         (m, s1) \<leftarrow> page_lookup s (env_pml4e (envs s srcenv)) srcva;
         (case m of
            None \<Rightarrow> ret_err E_INVAL s1
          | Some (pp, f, i) \<Rightarrow>
              if perm = 0 \<or> perm AND 2 \<noteq> 0 \<and> pmem s1 f i AND PTE_W = 0 then ret_err E_INVAL s1
              else do {
                host_ident \<leftarrow> page2kva s1 pp;
                (r, s2) \<leftarrow> ept_map_hva2gpa s1 (env_pml4e (envs s1 guestenv)) host_ident guest_pa (scast perm) True;
                if r < 0 then ret r s2 else ret 0 (page_incref pp s2)
              })
       }))"

definition sys_env_mkguest :: "u64 \<Rightarrow> u64 \<Rightarrow> kern \<Rightarrow> (sysret \<times> kern) option" where
  "sys_env_mkguest gphysz gRIP s =
     do {
       c \<leftarrow> curenv s;
       ((r, e), s1) \<leftarrow> env_guest_alloc s (env_id (envs s c));
       if r < 0 then ret r s1
       else do {
         e \<leftarrow> e;
         let s2 = upd_env e (\<lambda>v. v\<lparr>env_status := ENV_NOT_RUNNABLE,
                    env_vmxinfo := (env_vmxinfo v)\<lparr>phys_sz := gphysz\<rparr>,
                    env_tf := (env_tf v)\<lparr>tf_rip := gRIP\<rparr>\<rparr>) s1;
         ret (sint (env_id (envs s2 e))) s2
       }
     }"

subsection \<open>Dispatch\<close>

text \<open>
  The numbers are those of \<^verbatim>\<open>inc/syscall.h\<close>. \<^verbatim>\<open>SYS_yield\<close> has no \<^verbatim>\<open>break\<close>: if the scheduler
  returns, the call goes on as \<^verbatim>\<open>SYS_exofork\<close>.
\<close>

definition syscall ::
  "vmx_hw \<Rightarrow> u64 \<Rightarrow> u64 \<Rightarrow> u64 \<Rightarrow> u64 \<Rightarrow> u64 \<Rightarrow> u64 \<Rightarrow> kern \<Rightarrow> (sysret \<times> kern) option" where
  "syscall hw syscallno a1 a2 a3 a4 a5 s =
     (if syscallno = 15 then sys_ept_map (ucast a1) a2 (ucast a3) a4 (ucast a5) s
      else if syscallno = 16 then sys_env_mkguest a1 a2 s
      else if syscallno = 0 then sys_cputs hw a1 a2 s
      else if syscallno = 1 then sys_cgetc s
      else if syscallno = 2 then sys_getenvid s
      else if syscallno = 3 then sys_env_destroy hw (ucast a1) s
      else if syscallno = 11 then after (sched_yield hw s) sys_exofork
      else if syscallno = 7 then sys_exofork s
      else if syscallno = 8 then sys_env_set_status (ucast a1) (ucast a2) s
      else if syscallno = 4 then sys_page_alloc (ucast a1) a2 (ucast a3) s
      else if syscallno = 5 then sys_page_map (ucast a1) a2 (ucast a3) a4 (ucast a5) s
      else if syscallno = 6 then sys_page_unmap (ucast a1) a2 s
      else if syscallno = 10 then sys_env_set_pgfault_upcall (ucast a1) a2 s
      else if syscallno = 12 then sys_ipc_try_send (ucast a1) (ucast a2) a3 (ucast a4) s
      else if syscallno = 13 then sys_ipc_recv hw a1 s
      else if syscallno = 9 then sys_env_set_trapframe (ucast a1) a2 s
      else ret_err E_INVAL s)"

end
