(* ===== verification/Trap.thy ===== *)
theory Trap
  imports Syscall
begin

section \<open>Traps\<close>

text \<open>
  \<^verbatim>\<open>kern/trap.c\<close>: what happens from the moment the processor has built a trap frame. The frame
  of a trap from user mode is copied into the current environment, and handlers work on that
  copy; the frame of a trap in the kernel stays on the kernel stack and is not part of the
  state. The faulting address (register \<^verbatim>\<open>cr2\<close>) is an argument. The monitor that a breakpoint
  enters never returns (see \<open>Monitor_Cmd\<close>).
\<close>

definition T_BRKPT :: u64 where [simp]: "T_BRKPT = 3"
definition T_PGFLT :: u64 where [simp]: "T_PGFLT = 14"
definition T_SYSCALL :: u64 where [simp]: "T_SYSCALL = 48"
definition IRQ_OFFSET :: u64 where [simp]: "IRQ_OFFSET = 32"
definition IRQ_TIMER :: u64 where [simp]: "IRQ_TIMER = 0"
definition IRQ_KBD :: u64 where [simp]: "IRQ_KBD = 1"
definition IRQ_SERIAL :: u64 where [simp]: "IRQ_SERIAL = 4"
definition IRQ_SPURIOUS :: u64 where [simp]: "IRQ_SPURIOUS = 7"

definition trapname :: "nat \<Rightarrow> string" where
  "trapname trapno =
     (let excnames = [''Divide error'', ''Debug'', ''Non-Maskable Interrupt'', ''Breakpoint'', ''Overflow'',
        ''BOUND Range Exceeded'', ''Invalid Opcode'', ''Device Not Available'', ''Double Fault'',
        ''Coprocessor Segment Overrun'', ''Invalid TSS'', ''Segment Not Present'', ''Stack Fault'',
        ''General Protection'', ''Page Fault'', ''(unknown trap)'', ''x87 FPU Floating-Point Error'',
        ''Alignment Check'', ''Machine-Check'', ''SIMD Floating-Point Exception'']
      in if trapno < length excnames then excnames ! trapno
         else if trapno = 48 then ''System call''
         else if trapno \<ge> 32 \<and> trapno < 48 then ''Hardware Interrupt''
         else ''(unknown trap)'')"

text \<open>The interrupt gates: the privilege level from which each vector may be raised by software.\<close>

definition idt_dpl :: "nat \<Rightarrow> nat option" where
  "idt_dpl v =
     (if v = 3 \<or> v = 48 then Some 3
      else if v \<in> {0, 1, 2, 4, 5, 6, 7, 8, 10, 11, 12, 13, 14, 16, 17, 18, 19} \<or> 32 \<le> v \<and> v < 48 then Some 0
      else None)"

subsection \<open>Page faults\<close>

definition UTF_SIZE :: u64 where [simp]: "UTF_SIZE = 160"

definition vm_store64 :: "u64 \<Rightarrow> u64 \<Rightarrow> kern \<Rightarrow> kern option" where
  "vm_store64 va w s = fold_opt (\<lambda>k. vm_store (va + of_nat k) (get_byte w k)) [0..<8] s"

definition regs_words :: "PushRegs \<Rightarrow> u64 list" where
  "regs_words r = [reg_r15 r, reg_r14 r, reg_r13 r, reg_r12 r, reg_r11 r, reg_r10 r, reg_r9 r, reg_r8 r,
     reg_rsi r, reg_rdi r, reg_rbp r, reg_rdx r, reg_rcx r, reg_rbx r, reg_rax r]"

definition utf_words :: "u64 \<Rightarrow> Trapframe \<Rightarrow> u64 list" where
  "utf_words fault_va tf =
     [fault_va, tf_err tf] @ regs_words (tf_regs tf) @ [tf_rip tf, tf_eflags tf, tf_rsp tf]"

definition utf_address :: "u64 \<Rightarrow> u64" where
  "utf_address rsp =
     (if rsp \<le> UXSTACKTOP - 1 \<and> rsp \<ge> UXSTACKTOP - PGSIZE then rsp - UTF_SIZE - 8 else UXSTACKTOP - UTF_SIZE)"

definition page_fault_handler :: "vmx_hw \<Rightarrow> u64 \<Rightarrow> Trapframe \<Rightarrow> kern \<Rightarrow> (outcome \<times> kern) option" where
  "page_fault_handler hw fault_va tf s =
     (if tf_cs tf AND 3 = 0 then None
      else do {
        c \<leftarrow> curenv s;
        if env_pgfault_upcall (envs s c) \<noteq> 0
        then do {
          let utexp = utf_address (tf_rsp tf);
          (out, s1) \<leftarrow> user_mem_assert hw s c utexp UTF_SIZE (PTE_W OR PTE_U);
          if out \<noteq> Returned then Some (out, s1)
          else do {
            s2 \<leftarrow> fold_opt (\<lambda>(k, w). vm_store64 (utexp + of_nat (8 * k)) w)
                   (zip [0..<20] (utf_words fault_va tf)) s1;
            c2 \<leftarrow> curenv s2;
            let s3 = upd_env c (\<lambda>v. v\<lparr>env_tf := (env_tf v)
                       \<lparr>tf_rip := env_pgfault_upcall (envs s2 c2), tf_rsp := utexp\<rparr>\<rparr>) s2;
            s4 \<leftarrow> env_run c2 s3;
            Some (Switch c2, s4)
          }
        }
        else env_destroy hw c s
      })"

subsection \<open>Dispatch\<close>

definition trap_dispatch :: "vmx_hw \<Rightarrow> u64 \<Rightarrow> Trapframe \<Rightarrow> kern \<Rightarrow> (outcome \<times> kern) option" where
  "trap_dispatch hw cr2 tf s =
     (let no = tf_trapno tf; user = (tf_cs tf AND 3 = 3)
      in if no = IRQ_OFFSET + IRQ_SPURIOUS then Some (Returned, s)
         else if no = IRQ_OFFSET + IRQ_TIMER then sched_yield hw s
         else if no = IRQ_OFFSET + IRQ_KBD then Some (Returned, s\<lparr>kcons := kbd_intr (kcons s)\<rparr>)
         else if no = IRQ_OFFSET + IRQ_SERIAL then Some (Returned, s\<lparr>kcons := serial_intr (kcons s)\<rparr>)
         else if no = T_PGFLT then page_fault_handler hw cr2 tf s
         else if no = T_BRKPT then Some (Monitor, s)
         else if no = T_SYSCALL then
           do {
             let r = tf_regs tf;
             (res, s1) \<leftarrow> syscall hw (reg_rax r) (reg_rdx r) (reg_rcx r) (reg_rbx r) (reg_rdi r) (reg_rsi r) s;
             (case res of
                NoRet out \<Rightarrow> Some (out, s1)
              | Ret v \<Rightarrow>
                  (case curenv s of
                     Some c \<Rightarrow>
                       if user
                       then Some (Returned, upd_env c (\<lambda>e. e\<lparr>env_tf := (env_tf e)
                              \<lparr>tf_regs := (tf_regs (env_tf e))\<lparr>reg_rax := of_int v\<rparr>\<rparr>\<rparr>) s1)
                       else Some (Returned, s1)
                   | None \<Rightarrow> Some (Returned, s1)))
           }
         else if tf_cs tf = ucast GD_KT then None
         else do { c \<leftarrow> curenv s; env_destroy hw c s })"

definition trap :: "vmx_hw \<Rightarrow> u64 \<Rightarrow> Trapframe \<Rightarrow> kern \<Rightarrow> (outcome \<times> kern) option" where
  "trap hw cr2 tf s0 =
     (let s = s0\<lparr>cpu_status := CPU_STARTED\<rparr>;
          rest = (\<lambda>s. do {
            (out, s1) \<leftarrow> trap_dispatch hw cr2 tf s;
            if out \<noteq> Returned then Some (out, s1)
            else (case curenv s1 of
                    Some c \<Rightarrow>
                      if env_status (envs s1 c) = ENV_RUNNING
                      then do { s2 \<leftarrow> env_run c s1; Some (Switch c, s2) }
                      else sched_yield hw s1
                  | None \<Rightarrow> sched_yield hw s1)
          })
      in if tf_cs tf AND 3 = 3
         then do {
           c \<leftarrow> curenv s;
           if env_status (envs s c) = ENV_DYING
           then do {
             s1 \<leftarrow> env_free c s;
             (out, s2) \<leftarrow> sched_yield hw (s1\<lparr>curenv := None\<rparr>);
             if out \<noteq> Returned then Some (out, s2)
             else do { c2 \<leftarrow> curenv s2; rest (upd_env c2 (\<lambda>v. v\<lparr>env_tf := tf\<rparr>) s2) }
           }
           else rest (upd_env c (\<lambda>v. v\<lparr>env_tf := tf\<rparr>) s)
         }
         else rest s)"

end
