(* ===== verification/Vmexits.thy ===== *)
theory Vmexits
  imports Syscall
begin

section \<open>Exits from a guest\<close>

text \<open>
  \<^verbatim>\<open>vmm/vmexits.c\<close> and \<^verbatim>\<open>vmexit\<close> of \<^verbatim>\<open>vmm/vmx.c\<close>: emulation of what a guest cannot do itself.
  The handlers work on the trap frame and the guest information of an environment \<open>e\<close>; they
  return whether the exit was handled. \<open>junk\<close> stands for the uninitialised words of a
  local structure that is copied to the guest.
\<close>

definition NVRAM_BASELO :: u32 where [simp]: "NVRAM_BASELO = 0x15"
definition NVRAM_BASEHI :: u32 where [simp]: "NVRAM_BASEHI = 0x16"
definition NVRAM_EXTLO :: u32 where [simp]: "NVRAM_EXTLO = 0x17"
definition NVRAM_EXTHI :: u32 where [simp]: "NVRAM_EXTHI = 0x18"
definition CGA_BUF :: u64 where [simp]: "CGA_BUF = 0xB8000"

definition upd_tf :: "nat \<Rightarrow> (Trapframe \<Rightarrow> Trapframe) \<Rightarrow> kern \<Rightarrow> kern" where
  "upd_tf e f s = upd_env e (\<lambda>v. v\<lparr>env_tf := f (env_tf v)\<rparr>) s"

definition upd_regs :: "nat \<Rightarrow> (PushRegs \<Rightarrow> PushRegs) \<Rightarrow> kern \<Rightarrow> kern" where
  "upd_regs e f s = upd_tf e (\<lambda>t. t\<lparr>tf_regs := f (tf_regs t)\<rparr>) s"

definition guest_regs :: "nat \<Rightarrow> kern \<Rightarrow> PushRegs" where
  "guest_regs e s = tf_regs (env_tf (envs s e))"

text \<open>Step over the instruction that caused the exit.\<close>

definition advance_rip :: "nat \<Rightarrow> kern \<Rightarrow> kern" where
  "advance_rip e s =
     upd_tf e (\<lambda>t. t\<lparr>tf_rip := tf_rip t + ucast (vmcs_read32 VMCS_32BIT_VMEXIT_INSTRUCTION_LENGTH s)\<rparr>) s"

subsection \<open>Model-specific registers\<close>

text \<open>The loop compares the first entry of the area every time.\<close>

primrec find_msr_loop :: "nat \<Rightarrow> u32 \<Rightarrow> nat \<times> nat \<Rightarrow> kern \<Rightarrow> (nat \<times> nat) option" where
  "find_msr_loop 0 msr_idx entry s = None"
| "find_msr_loop (Suc n) msr_idx entry s =
     (if ucast (pmem s (fst entry) (snd entry)) = msr_idx then Some entry
      else find_msr_loop n msr_idx entry s)"

definition find_msr_in_region :: "u32 \<Rightarrow> nat \<times> nat \<Rightarrow> int \<Rightarrow> kern \<Rightarrow> (nat \<times> nat) option" where
  "find_msr_in_region msr_idx area area_sz s = find_msr_loop (nat area_sz) msr_idx area s"

definition handle_rdmsr :: "nat \<Rightarrow> kern \<Rightarrow> (bool \<times> kern) option" where
  "handle_rdmsr e s =
     (let msr = reg_rcx (guest_regs e s); vi = env_vmxinfo (envs s e)
      in if msr = ucast EFER_MSR
         then do {
           area \<leftarrow> msr_guest_area vi;
           (f, i) \<leftarrow> find_msr_in_region (ucast msr) area (msr_count vi) s;
           let val = pmem s f (i + 1);
           let s1 = upd_regs e (\<lambda>r. r\<lparr>reg_rdx := push_bit 32 val, reg_rax := val AND 0xFFFFFFFF\<rparr>) s;
           Some (True, advance_rip e s1)
         }
         else Some (False, s))"

definition handle_wrmsr :: "nat \<Rightarrow> kern \<Rightarrow> (bool \<times> kern) option" where
  "handle_wrmsr e s =
     (let msr = reg_rcx (guest_regs e s); vi = env_vmxinfo (envs s e)
      in if msr = ucast EFER_MSR
         then do {
           area \<leftarrow> msr_guest_area vi;
           (f, i) \<leftarrow> find_msr_in_region (ucast msr) area (msr_count vi) s;
           let cur_val = pmem s f (i + 1);
           let new_val = push_bit 32 (reg_rdx (guest_regs e s)) OR reg_rax (guest_regs e s);
           let s1 = (if BIT cur_val EFER_LME = 0 \<and> BIT new_val EFER_LME = 1
                     then vmcs_writel VMCS_32BIT_CONTROL_VMENTRY_CONTROLS
                            (ucast (vmcs_read32 VMCS_32BIT_CONTROL_VMENTRY_CONTROLS s OR VMCS_VMENTRY_x64_GUEST)) s
                     else s);
           Some (True, advance_rip e (st f (i + 1) new_val s1))
         }
         else Some (False, s))"

subsection \<open>Memory and devices\<close>

definition handle_eptviolation :: "nat \<Rightarrow> kern \<Rightarrow> (bool \<times> kern) option" where
  "handle_eptviolation e s =
     (let gpa = vmcs_readl VMCS_64BIT_GUEST_PHYSICAL_ADDR s; eptrt = env_pml4e (envs s e)
      in if gpa < 0xA0000 \<or> (gpa \<ge> 0x100000 \<and> gpa < phys_sz (env_vmxinfo (envs s e)))
         then do {
           (p, s1) \<leftarrow> page_alloc s 0;
           (case p of
              None \<Rightarrow> Some (False, s1)
            | Some p \<Rightarrow>
                do {
                  let s2 = page_incref p s1;
                  kva \<leftarrow> page2kva s2 p;
                  (r, s3) \<leftarrow> ept_map_hva2gpa s2 eptrt kva (ROUNDDOWN gpa PGSIZE) EPTE_FULL False;
                  if r < 0 then None else Some (True, s3)
                })
         }
         else if gpa \<ge> CGA_BUF \<and> gpa < CGA_BUF + PGSIZE
         then do {
           (r, s1) \<leftarrow> ept_map_hva2gpa s eptrt (pte_frame CGA_BUF) CGA_BUF EPTE_FULL False;
           if r < 0 then None else Some (True, s1)
         }
         else Some (False, s))"

definition handle_ioinstr :: "nat \<Rightarrow> kern \<Rightarrow> (bool \<times> kern) option" where
  "handle_ioinstr e s =
     (let qualification = vmcs_readl VMCS_VMEXIT_QUALIFICATION s;
          port_number = (ucast (drop_bit 16 qualification AND 0xFFFF) :: u32);
          is_in = (BIT qualification 3 \<noteq> 0);
          sz = phys_sz (env_vmxinfo (envs s e));
          set_rax = (\<lambda>v. Some (True, advance_rip e (upd_regs e (\<lambda>r. r\<lparr>reg_rax := v\<rparr>) s)))
      in if port_number = IO_RTC \<and> \<not> is_in
         then Some (True, advance_rip e (s\<lparr>port_iortc := ucast (reg_rax (guest_regs e s))\<rparr>))
         else if port_number = IO_RTC + 1 \<and> is_in
         then if port_iortc s = NVRAM_BASELO then set_rax (640 AND 0xFF)
              else if port_iortc s = NVRAM_BASEHI then set_rax (drop_bit 8 640 AND 0xFF)
              else if port_iortc s = NVRAM_EXTLO then set_rax ((sz div 1024 - 1024) AND 0xFF)
              else if port_iortc s = NVRAM_EXTHI then set_rax (drop_bit 8 (sz div 1024 - 1024) AND 0xFF)
              else Some (False, s)
         else Some (False, s))"

definition handle_cpuid :: "vmx_hw \<Rightarrow> nat \<Rightarrow> kern \<Rightarrow> (bool \<times> kern) option" where
  "handle_cpuid hw e s =
     (let inp = (ucast (reg_rax (guest_regs e s)) :: u32)
      in case hw_cpuid hw inp of (eax, ebx, ecx, edx) \<Rightarrow>
           let ecx = (if inp = 1 then ecx AND NOT 32 else ecx);
               s1 = upd_regs e (\<lambda>r. r\<lparr>reg_rax := ucast eax, reg_rbx := ucast ebx, reg_rcx := ucast ecx,
                      reg_rdx := ucast edx\<rparr>) s
           in Some (True, advance_rip e s1))"

subsection \<open>Hypercalls\<close>

text \<open>
  The memory map for the guest: three entries of six 32-bit words after the thirteen words of
  the \<^verbatim>\<open>multiboot_info_t\<close>, of which words 0, 11 and 12 are set.
\<close>

definition st32 :: "nat \<Rightarrow> nat \<Rightarrow> u32 \<Rightarrow> kern \<Rightarrow> kern" where
  "st32 f k v s =
     st f (k div 2)
       (if even k then set_lo32 (pmem s f (k div 2)) v
        else take_bit 32 (pmem s f (k div 2)) OR push_bit 32 (ucast v)) s"

definition guest_mmap :: "u64 \<Rightarrow> u32 list" where
  "guest_mmap phys =
     [20, 0, 0, ucast IOPHYSMEM, 0, 1,
      20, ucast IOPHYSMEM, 0, 0x60000, 0, 2,
      20, ucast EXTPHYSMEM, 0, ucast ((phys - EXTPHYSMEM) AND 0xFFFFFFFF),
        ucast (drop_bit 32 (phys - EXTPHYSMEM) AND 0xFFFFFFFF), 1]"

definition guest_mbinfo :: "(nat \<Rightarrow> u32) \<Rightarrow> u32 list" where
  "guest_mbinfo junk =
     (map junk [0..<13])[0 := 0x40, 11 := 72, 12 := 0x6000 + 52]"

definition handle_vmcall :: "(nat \<Rightarrow> u32) \<Rightarrow> nat \<Rightarrow> kern \<Rightarrow> (bool \<times> kern) option" where
  "handle_vmcall junk e s =
     (if reg_rax (guest_regs e s) = 1
      then do {
        (pp, s1) \<leftarrow> page_alloc s 0;
        (case pp of
           None \<Rightarrow> Some (False, s1)
         | Some pp \<Rightarrow>
             do {
               let s2 = page_incref pp s1;
               host_va \<leftarrow> page2kva s2 pp;
               let ws = guest_mbinfo junk @ guest_mmap (phys_sz (env_vmxinfo (envs s e)));
               let s3 = fold (\<lambda>(k, w). st32 host_va k w) (zip [0..<length ws] ws) s2;
               (r, s4) \<leftarrow> ept_map_hva2gpa s3 (env_pml4e (envs s3 e)) host_va 0x6000 EPTE_FULL True;
               Some (True, advance_rip e (upd_regs e (\<lambda>r. r\<lparr>reg_rbx := 0x6000\<rparr>) s4))
             })
      }
      else Some (False, s))"

subsection \<open>Dispatch\<close>

definition exit_handler :: "vmx_hw \<Rightarrow> (nat \<Rightarrow> u32) \<Rightarrow> u32 \<Rightarrow> nat \<Rightarrow> kern \<Rightarrow> (bool \<times> kern) option" where
  "exit_handler hw junk reason c s =
     (if reason = EXIT_REASON_RDMSR then handle_rdmsr c s
      else if reason = EXIT_REASON_WRMSR then handle_wrmsr c s
      else if reason = EXIT_REASON_EPT_VIOLATION then handle_eptviolation c s
      else if reason = EXIT_REASON_IO_INSTRUCTION then handle_ioinstr c s
      else if reason = EXIT_REASON_CPUID then handle_cpuid hw c s
      else if reason = EXIT_REASON_VMCALL then handle_vmcall junk c s
      else Some (False, s))"

definition vmexit :: "vmx_hw \<Rightarrow> (nat \<Rightarrow> u32) \<Rightarrow> kern \<Rightarrow> (outcome \<times> kern) option" where
  "vmexit hw junk s =
     do {
       c \<leftarrow> curenv s;
       let reason = vmcs_read32 VMCS_32BIT_VMEXIT_REASON s AND EXIT_REASON_MASK;
       (out, handled, s1) \<leftarrow>
         (if reason = EXIT_REASON_HLT
          then do { (out, s1) \<leftarrow> env_destroy hw c s; Some (out, True, s1) }
          else do { (h, s1) \<leftarrow> exit_handler hw junk reason c s; Some (Returned, h, s1) });
       if out \<noteq> Returned then Some (out, s1)
       else do {
         (out2, s2) \<leftarrow> (if handled then Some (Returned, s1)
                        else do { c1 \<leftarrow> curenv s1; env_destroy hw c1 s1 });
         if out2 \<noteq> Returned then Some (out2, s2) else sched_yield hw s2
       }
     }"

text \<open>
  The second half of \<^verbatim>\<open>asm_vmrun\<close>, after the guest has stopped with registers \<open>regs\<close> and page fault
  address \<open>cr2\<close>; \<open>fail\<close> means that the entry did not succeed.
\<close>

definition asm_vmrun_exit ::
  "vmx_hw \<Rightarrow> (nat \<Rightarrow> u32) \<Rightarrow> nat \<Rightarrow> PushRegs \<Rightarrow> u64 \<Rightarrow> bool \<Rightarrow> kern \<Rightarrow> (outcome \<times> kern) option" where
  "asm_vmrun_exit hw junk e regs cr2 fail s =
     (let s1 = upd_tf e (\<lambda>t. t\<lparr>tf_regs := regs, tf_err := cr2, tf_es := (if fail then 1 else 0)\<rparr>) s
      in if fail then Some (Returned, s1)
         else do {
           c \<leftarrow> curenv s1;
           let s2 = upd_tf c (\<lambda>t. t\<lparr>tf_rsp := vmcs_readl VMCS_GUEST_RSP s1, tf_rip := vmcs_readl VMCS_GUEST_RIP s1\<rparr>) s1;
           vmexit hw junk s2
         })"

end
