(* ===== verification/Env_Table.thy ===== *)
theory Env_Table
  imports Trap Vmexits
begin

section \<open>What the kernel's functions leave of the environment table\<close>

text \<open>
  \<open>env_core\<close> is the part of a \<^verbatim>\<open>struct Env\<close> that decides what the environment is and whether it
  may run: link, identifiers, type, status, and privilege level and interrupt flag of its saved
  registers. \<open>tab_same\<close> says that a function kept all of it, for every environment, as well
  as the free list and the current environment. The collection \<open>tab_frame\<close> has one lemma for each
  kernel function of which that holds.
\<close>

definition env_core :: "Env \<Rightarrow> nat option \<times> envid_t \<times> envid_t \<times> env_type \<times> env_status \<times> u16 \<times> u64" where
  "env_core v = (env_link v, env_id v, env_parent_id v, env_type v, env_status v,
     tf_cs (env_tf v), tf_eflags (env_tf v))"

definition tab_same :: "kern \<Rightarrow> kern \<Rightarrow> bool" where
  "tab_same s s' \<longleftrightarrow> env_free_list s' = env_free_list s \<and> curenv s' = curenv s \<and>
     (\<forall>e. env_core (envs s' e) = env_core (envs s e))"

named_theorems tab_frame

lemma tab_same_refl [simp]: "tab_same s s"
  by (simp add: tab_same_def)

lemma tab_same_trans: "tab_same s s1 \<Longrightarrow> tab_same s1 s2 \<Longrightarrow> tab_same s s2"
  by (simp add: tab_same_def)

lemma map_tab_same: "map_only s s' \<Longrightarrow> tab_same s s'"
  by (simp add: tab_same_def map_onlyD)

lemma tab_same_mem [simp]:
  "tab_same s (st f i v s') = tab_same s s'" "tab_same s (upd_page p g s') = tab_same s s'"
  "tab_same s (page_incref p s') = tab_same s s'" "tab_same s (memset_page f w s') = tab_same s s'"
  "tab_same (st f i v s) s' = tab_same s s'" "tab_same (upd_page p g s) s' = tab_same s s'"
  "tab_same (page_incref p s) s' = tab_same s s'" "tab_same (memset_page f w s) s' = tab_same s s'"
  by (simp_all add: tab_same_def page_incref_def)

lemma tab_same_upd [simp]:
  "(\<And>v. env_core (f v) = env_core v) \<Longrightarrow> tab_same s (upd_env e f s') = tab_same s s'"
  "(\<And>v. env_core (f v) = env_core v) \<Longrightarrow> tab_same (upd_env e f s) s' = tab_same s s'"
  by (auto simp: tab_same_def)

lemma tab_same_regs [simp]:
  "tab_same s (s'\<lparr>cpu_cr0 := x\<rparr>) = tab_same s s'" "tab_same s (s'\<lparr>cpu_cr3 := x\<rparr>) = tab_same s s'"
  "tab_same s (s'\<lparr>cpu_cr4 := x\<rparr>) = tab_same s s'" "tab_same s (s'\<lparr>msrs := m\<rparr>) = tab_same s s'"
  "tab_same s (s'\<lparr>is_vmx_root := b, vmxon_region := q\<rparr>) = tab_same s s'"
  "tab_same s (s'\<lparr>current_vmcs := q\<rparr>) = tab_same s s'" "tab_same s (s'\<lparr>kcons := k\<rparr>) = tab_same s s'"
  "tab_same s (s'\<lparr>cpu_status := cs\<rparr>) = tab_same s s'" "tab_same s (s'\<lparr>port_iortc := n\<rparr>) = tab_same s s'"
  "tab_same s (s'\<lparr>user_mem_check_addr := x\<rparr>) = tab_same s s'"
  "tab_same (s\<lparr>cpu_cr0 := x\<rparr>) s' = tab_same s s'" "tab_same (s\<lparr>cpu_cr3 := x\<rparr>) s' = tab_same s s'"
  "tab_same (s\<lparr>cpu_cr4 := x\<rparr>) s' = tab_same s s'" "tab_same (s\<lparr>msrs := m\<rparr>) s' = tab_same s s'"
  "tab_same (s\<lparr>current_vmcs := q\<rparr>) s' = tab_same s s'" "tab_same (s\<lparr>kcons := k\<rparr>) s' = tab_same s s'"
  "tab_same (s\<lparr>cpu_status := cs\<rparr>) s' = tab_same s s'"
  by (simp_all add: tab_same_def)

lemmas [tab_frame] = map_frame [THEN map_tab_same]

lemma fold_opt_tab [tab_frame]:
  assumes "fold_opt f xs s = Some s'" and "\<And>x s s'. f x s = Some s' \<Longrightarrow> tab_same s s'"
  shows "tab_same s s'"
  by (rule fold_opt_inv [where I = "tab_same s", OF assms(1)]) (auto dest!: assms(2) intro: tab_same_trans)

lemma fold_tab:
  assumes "\<And>x s. tab_same s (f x s)"
  shows "tab_same s (fold f xs s)"
  by (induction xs arbitrary: s) (auto intro: tab_same_trans assms)

subsection \<open>Guests\<close>

lemma ept_lookup_tab [tab_frame]: "ept_lookup_gpa s r gpa c = Some (x, s') \<Longrightarrow> tab_same s s'"
  by (auto simp: ept_lookup_gpa_def ept_st_def Let_def split: option.splits if_splits Option.bind_splits
      dest!: tab_frame)

lemma ept_map_tab [tab_frame]: "ept_map_hva2gpa s r hva gpa perm ov = Some (x, s') \<Longrightarrow> tab_same s s'"
  by (auto simp: ept_map_hva2gpa_def split: option.splits if_splits Option.bind_splits dest!: ept_lookup_tab)

lemma free_ept_level_tab [tab_frame]: "free_ept_level n d s = Some s' \<Longrightarrow> tab_same s s'"
proof (induction n arbitrary: d s s')
  case 0
  then show ?case
    by (auto elim!: fold_opt_tab split: if_splits Option.bind_splits dest!: page_decref_frame [THEN map_tab_same])
next
  case (Suc n)
  show ?case
    by (rule fold_opt_tab [OF Suc.prems [unfolded free_ept_level.simps]])
      (auto simp: Let_def split: if_splits Option.bind_splits
        dest!: Suc.IH page_decref_frame [THEN map_tab_same]; blast intro: tab_same_trans)
qed

lemma free_guest_mem_tab [tab_frame]: "free_guest_mem r s = Some s' \<Longrightarrow> tab_same s s'"
  by (simp add: free_guest_mem_def free_ept_level_tab)

lemma vmx_init_vmcs_tab [tab_frame]: "vmx_init_vmcs s = Some (p, s') \<Longrightarrow> tab_same s s'"
  by (auto simp: vmx_init_vmcs_def Let_def split: option.splits if_splits Option.bind_splits
      dest!: page_alloc_frame [THEN map_tab_same])

lemma vmx_init_vmxon_tab [tab_frame]: "vmx_init_vmxon hw s = Some (r, s') \<Longrightarrow> tab_same s s'"
  unfolding vmx_init_vmxon_def Let_def
  by (auto split: option.splits if_splits Option.bind_splits
      dest!: vmx_init_vmcs_tab page_decref_frame [THEN map_tab_same]; blast intro: tab_same_trans)

lemma vmxon_tab [tab_frame]: "vmxon hw s = Some (r, s') \<Longrightarrow> tab_same s s'"
  by (auto simp: vmxon_def split: if_splits Option.bind_splits dest!: vmx_init_vmxon_tab)

lemma vmcs_writel_tab [simp]:
  "tab_same s (vmcs_writel f v s') = tab_same s s'" "tab_same (vmcs_writel f v s) s' = tab_same s s'"
  by (auto simp: vmcs_writel_def tab_same_def split: option.splits)

lemma vmcs_writes_tab [simp]:
  "tab_same s (vmcs_writes ws s') = tab_same s s'" "tab_same (vmcs_writes ws s) s' = tab_same s s'"
  unfolding vmcs_writes_def
  by (induction ws arbitrary: s s') auto

lemma vmcs_init_tab [simp]:
  "tab_same s (vmcs_host_init hw s') = tab_same s s'" "tab_same s (vmcs_guest_init s') = tab_same s s'"
  "tab_same (vmcs_host_init hw s) s' = tab_same s s'" "tab_same (vmcs_guest_init s) s' = tab_same s s'"
  by (simp_all add: vmcs_host_init_def vmcs_guest_init_def)

lemma bitmap_setup_tab [tab_frame]: "bitmap_setup e s = Some s' \<Longrightarrow> tab_same s s'"
  unfolding bitmap_setup_def
  by (erule fold_opt_tab) (auto simp: bitmap_setup_port_def Let_def split: if_splits Option.bind_splits)

lemma msr_setup_tab [tab_frame]: "msr_setup e s = Some s' \<Longrightarrow> tab_same s s'"
  by (auto simp: msr_setup_def msr_setup_entry_def Let_def env_core_def split: if_splits Option.bind_splits prod.splits)

lemma vmcs_ctls_init_tab [tab_frame]: "vmcs_ctls_init e s = Some s' \<Longrightarrow> tab_same s s'"
  by (auto simp: vmcs_ctls_init_def Let_def split: if_splits Option.bind_splits prod.splits)

lemma asm_vmrun_entry_tab [tab_frame]: "asm_vmrun_entry hw e s = Some (b, s') \<Longrightarrow> tab_same s s'"
  by (auto simp: asm_vmrun_entry_def Let_def env_core_def split: Option.bind_splits)

lemma vmx_vmrun_tab [tab_frame]: "vmx_vmrun hw e s = Some (r, s') \<Longrightarrow> tab_same s s'"
  unfolding vmx_vmrun_def Let_def
  by (auto split: if_splits Option.bind_splits
      dest!: bitmap_setup_tab msr_setup_tab vmcs_ctls_init_tab asm_vmrun_entry_tab; blast intro: tab_same_trans)

lemma run_guest_tab [tab_frame]: "run_guest hw e s = Some (r, s') \<Longrightarrow> tab_same s s'"
  by (auto simp: run_guest_def split: vmrun.splits Option.bind_splits dest!: vmx_vmrun_tab)

subsection \<open>Memory of an environment\<close>

lemma vm_store_tab [tab_frame]: "vm_store va b s = Some s' \<Longrightarrow> tab_same s s'"
  by (auto simp: vm_store_def Let_def split: Option.bind_splits)

lemma vm_bytes_tab [tab_frame]:
  "vm_memcpy va src n s = Some s' \<Longrightarrow> tab_same s s'" "vm_memset va c n s = Some s' \<Longrightarrow> tab_same s s'"
  "vm_store64 va w s = Some s' \<Longrightarrow> tab_same s s'"
  unfolding vm_memcpy_def vm_memset_def vm_store64_def by (auto elim!: fold_opt_tab dest!: vm_store_tab)

lemma region_alloc_tab [tab_frame]: "region_alloc e va len s = Some s' \<Longrightarrow> tab_same s s'"
  unfolding region_alloc_def Let_def
  by (erule fold_opt_tab) (auto simp: region_alloc_page_def split: if_splits Option.bind_splits
      dest!: page_alloc_frame [THEN map_tab_same] page_insert_frame [THEN map_tab_same]; blast intro: tab_same_trans)

lemma load_segment_tab [tab_frame]: "load_segment e b ph s = Some s' \<Longrightarrow> tab_same s s'"
  by (auto simp: load_segment_def split: if_splits Option.bind_splits
      dest!: region_alloc_tab vm_bytes_tab; blast intro: tab_same_trans)

lemma load_icode_tab [tab_frame]: "load_icode e b s = Some s' \<Longrightarrow> tab_same s s'"
  unfolding load_icode_def Let_def
  by (auto simp: env_core_def split: if_splits Option.bind_splits
      dest!: fold_opt_tab [OF _ load_segment_tab] region_alloc_tab; blast intro: tab_same_trans)

lemma env_setup_vm_tab [tab_frame]: "env_setup_vm e s = Some (r, s') \<Longrightarrow> tab_same s s'"
proof -
  let ?f = "\<lambda>root i s. if unat (PML4 UTOP) \<le> i
     then st root i (pmem s (boot_pml4e s) i OR (PTE_P AND NOT (PTE_W OR PTE_U))) s else s"
  have "tab_same s (fold (?f root) xs s')" if "tab_same s s'" for root xs s s'
    by (rule tab_same_trans [OF that fold_tab]) simp
  then show "env_setup_vm e s = Some (r, s') \<Longrightarrow> tab_same s s'"
    unfolding env_setup_vm_def Let_def
    by (auto simp: env_core_def split: option.splits Option.bind_splits dest!: page_alloc_frame [THEN map_tab_same])
qed

lemma page_decrefs_tab [tab_frame]: "page_decrefs ps s = Some s' \<Longrightarrow> tab_same s s'"
  unfolding page_decrefs_def by (erule fold_opt_tab) (rule page_decref_frame [THEN map_tab_same])

lemma alloc_guest_page_tab [tab_frame]: "alloc_guest_page s e ps f = Some (r, s') \<Longrightarrow> tab_same s s'"
  by (auto simp: alloc_guest_page_def Let_def env_core_def split: option.splits Option.bind_splits
      dest!: page_alloc_frame [THEN map_tab_same] page_decrefs_tab; blast intro: tab_same_trans)

lemma user_mem_check_tab [tab_frame]: "user_mem_check s e va len perm = Some (r, s') \<Longrightarrow> tab_same s s'"
proof -
  have "tab_same s s'" if "user_mem_check_loop n s p va a perm = Some (r, s')" for n s p va a perm r s'
    using that by (induction n arbitrary: s a)
      (auto split: option.splits if_splits Option.bind_splits dest!: page_lookup_state)
  then show "user_mem_check s e va len perm = Some (r, s') \<Longrightarrow> tab_same s s'"
    by (auto simp: user_mem_check_def Let_def)
qed


subsection \<open>Changes of the table\<close>

text \<open>
  The three ways in which the table changes, as updates of the state: an environment is made
  from the first free slot, is given back, or becomes the current one. Creation, destruction and
  the scheduler do these and nothing else to the table.
\<close>

definition tab_new :: "nat \<Rightarrow> envid_t \<Rightarrow> env_type \<Rightarrow> Trapframe \<Rightarrow> kern \<Rightarrow> kern" where
  "tab_new e parent ty tf s =
     (upd_env e (\<lambda>v. v\<lparr>env_id := next_generation (env_id v) OR of_nat e, env_parent_id := parent,
        env_type := ty, env_status := ENV_RUNNABLE, env_tf := tf\<rparr>) s)
     \<lparr>env_free_list := env_link (envs s e)\<rparr>"

definition tab_free :: "nat \<Rightarrow> kern \<Rightarrow> kern" where
  "tab_free e s =
     (upd_env e (\<lambda>v. v\<lparr>env_status := ENV_FREE, env_link := env_free_list s\<rparr>) s)
     \<lparr>env_free_list := Some e\<rparr>"

definition tab_run :: "nat \<Rightarrow> kern \<Rightarrow> kern" where
  "tab_run e s =
     (let s1 = (case curenv s of
                  Some c \<Rightarrow> if env_status (envs s c) = ENV_RUNNING
                           then upd_env c (\<lambda>v. v\<lparr>env_status := ENV_RUNNABLE\<rparr>) s else s
                | None \<Rightarrow> s)
      in (upd_env e (\<lambda>v. v\<lparr>env_status := ENV_RUNNING\<rparr>) s1)\<lparr>curenv := Some e\<rparr>)"

lemma tab_same_sym: "tab_same s s' \<Longrightarrow> tab_same s' s"
  by (simp add: tab_same_def)

lemma tab_sameD:
  assumes "tab_same s s'"
  shows "env_free_list s' = env_free_list s" "curenv s' = curenv s"
    "env_link (envs s' e) = env_link (envs s e)" "env_id (envs s' e) = env_id (envs s e)"
    "env_parent_id (envs s' e) = env_parent_id (envs s e)" "env_type (envs s' e) = env_type (envs s e)"
    "env_status (envs s' e) = env_status (envs s e)"
    "tf_cs (env_tf (envs s' e)) = tf_cs (env_tf (envs s e))"
    "tf_eflags (env_tf (envs s' e)) = tf_eflags (env_tf (envs s e))"
  using assms by (auto simp: tab_same_def env_core_def)

lemma tab_free_cong: "tab_same s s' \<Longrightarrow> tab_same (tab_free e s) (tab_free e s')"
  by (auto simp: tab_same_def tab_free_def env_core_def)

lemma tab_run_cong:
  assumes "tab_same s s'"
  shows "tab_same (tab_run e s) (tab_run e s')"
  by (cases "curenv s") (auto simp: tab_same_def tab_run_def env_core_def tab_sameD [OF assms])

lemma tab_new_cong:
  assumes "tab_same s s'"
  shows "tab_same (tab_new e p ty tf s) (tab_new e p ty tf s')"
  by (auto simp: tab_same_def tab_new_def env_core_def tab_sameD [OF assms])

lemma env_alloc_tab:
  assumes "env_alloc s p = Some ((r, x), s')"
  shows "r < 0 \<and> x = None \<and> tab_same s s' \<or>
    (\<exists>e tf. r = 0 \<and> x = Some e \<and> env_free_list s = Some e \<and> tf_cs tf AND 3 = 3 \<and> tf_eflags tf = FL_IF \<and>
      tab_same (tab_new e p ENV_TYPE_USER tf s) s')"
proof (cases "env_free_list s")
  case None
  with assms show ?thesis by (auto simp: env_alloc_def)
next
  case (Some e)
  with assms obtain q s1 where q: "env_setup_vm e s = Some (q, s1)"
    by (auto simp: env_alloc_def split: Option.bind_splits)
  let ?tf = "zero_tf\<lparr>tf_ds := ucast (GD_UD OR 3), tf_es := ucast (GD_UD OR 3), tf_ss := ucast (GD_UD OR 3),
     tf_rsp := USTACKTOP, tf_cs := ucast (GD_UT OR 3), tf_eflags := FL_IF\<rparr>"
  have same: "tab_same s s1"
    using q by (rule env_setup_vm_tab)
  have tf: "tf_cs ?tf AND 3 = 3" "tf_eflags ?tf = FL_IF"
    by (simp_all add: zero_tf_def)
  show ?thesis
  proof (cases "q < 0")
    case True
    with assms Some q same show ?thesis by (auto simp: env_alloc_def)
  next
    case False
    moreover have "tab_same (tab_new e p ENV_TYPE_USER ?tf s1) s'" if "r = 0"
      using assms Some q False by (auto simp: env_alloc_def Let_def tab_same_def tab_new_def env_core_def)
    ultimately have "r = 0 \<and> x = Some e \<and> tab_same (tab_new e p ENV_TYPE_USER ?tf s) s'"
      using assms Some q tab_same_trans [OF tab_new_cong [OF same]] by (auto simp: env_alloc_def Let_def)
    with Some tf show ?thesis by blast
  qed
qed

lemma env_guest_alloc_tab:
  assumes "env_guest_alloc s p = Some ((r, x), s')"
  shows "r < 0 \<and> x = None \<and> tab_same s s' \<or>
    (\<exists>e. r = 0 \<and> x = Some e \<and> env_free_list s = Some e \<and> tab_same (tab_new e p ENV_TYPE_GUEST zero_tf s) s')"
    (is "?Q ((r, x), s')")
proof -
  have commit: "tab_same (tab_new e p ENV_TYPE_GUEST zero_tf s) (env_guest_commit e p s1)" if "tab_same s s1" for s1 e
    by (auto simp: env_guest_commit_def tab_new_def tab_same_def env_core_def tab_sameD [OF that])
  have "post (env_guest_alloc s p) (\<lambda>((r, x), s'). r < 0 \<and> x = None \<and> tab_same s s' \<or>
    (\<exists>e. r = 0 \<and> x = Some e \<and> env_free_list s = Some e \<and> tab_same (tab_new e p ENV_TYPE_GUEST zero_tf s) s'))"
    unfolding env_guest_alloc_def Let_def
    by (intro post_intros; clarsimp simp: env_core_def dest!: page_alloc_frame [THEN map_tab_same]
        page_decref_frame [THEN map_tab_same] vmx_init_vmcs_tab alloc_guest_page_tab;
        (rule commit)?; simp add: tab_same_def)
  then show ?thesis
    using assms by (auto dest: postD)
qed

lemma free_pt_entry_tab: "free_pt_entry e i j t k s = Some s' \<Longrightarrow> tab_same s s'"
  by (auto simp: free_pt_entry_def split: if_splits dest!: page_remove_frame [THEN map_tab_same])

lemma free_pgdir_entry_tab: "free_pgdir_entry e i d j s = Some s' \<Longrightarrow> tab_same s s'"
proof -
  have "tab_same s s'" if "fold_opt (free_pt_entry e i j t) xs s = Some s'" for t xs s s'
    by (rule fold_opt_tab [OF that free_pt_entry_tab])
  then show "free_pgdir_entry e i d j s = Some s' \<Longrightarrow> tab_same s s'"
    unfolding free_pgdir_entry_def Let_def
    by (fastforce split: if_splits Option.bind_splits
        dest!: page_decref_frame [THEN map_tab_same] intro: tab_same_trans)
qed

lemma free_pdpe_entry_tab: "free_pdpe_entry e d i s = Some s' \<Longrightarrow> tab_same s s'"
proof -
  have "tab_same s s'" if "fold_opt (free_pgdir_entry e i t) xs s = Some s'" for t xs s s'
    by (rule fold_opt_tab [OF that free_pgdir_entry_tab])
  then show "free_pdpe_entry e d i s = Some s' \<Longrightarrow> tab_same s s'"
    unfolding free_pdpe_entry_def Let_def
    by (fastforce split: if_splits Option.bind_splits
        dest!: page_decref_frame [THEN map_tab_same] intro: tab_same_trans)
qed

lemma env_free_tab:
  assumes "env_free e s = Some s'"
  shows "tab_same (tab_free e s) s'"
proof -
  have pdp: "tab_same s s'" if "fold_opt (free_pdpe_entry e d) xs s = Some s'" for d xs s s'
    by (rule fold_opt_tab [OF that free_pdpe_entry_tab])
  have "post (env_free e s) (tab_same (tab_free e s))"
    unfolding env_free_def Let_def
    by (intro post_intros; clarsimp dest!: pdp page_decref_frame [THEN map_tab_same]
        simp: env_core_def split: if_splits; auto simp: tab_same_def tab_free_def env_core_def)
  then show ?thesis
    using assms by (rule postD)
qed

lemma env_guest_free_tab:
  assumes "env_guest_free e s = Some s'"
  shows "tab_same (tab_free e s) s'"
proof -
  have "post (env_guest_free e s) (tab_same (tab_free e s))"
    unfolding env_guest_free_def Let_def
    by (intro post_intros; clarsimp dest!: free_guest_mem_tab page_decref_frame [THEN map_tab_same]
        simp: env_core_def; auto simp: tab_same_def tab_free_def env_core_def)
  then show ?thesis
    using assms by (rule postD)
qed

lemma env_run_tab:
  assumes "env_run e s = Some s'"
  shows "tab_same (tab_run e s) s'" "cpu_cr3 s' = env_cr3 (envs s' e)" "curenv s' = Some e"
  using assms
  by (auto simp: env_run_def env_pop_tf_def tab_run_def tab_same_def env_core_def Let_def split: option.splits)

end
