(* ===== verification/Env_Inv.thy ===== *)
theory Env_Inv
  imports Env_Table
begin

section \<open>The invariant of the environment table\<close>

text \<open>
  \<open>env_table s xs\<close>: the free list visits exactly the slots \<open>xs\<close>, which are the slots
  marked free, and a slot's identifier carries its own index. \<open>kern_inv\<close> adds that the current
  environment is a live one, and that every live environment that is not a guest runs in user mode with
  interrupts enabled.
\<close>

fun linked :: "('a \<Rightarrow> 'a option) \<Rightarrow> 'a option \<Rightarrow> 'a list \<Rightarrow> bool" where
  "linked l h [] \<longleftrightarrow> h = None"
| "linked l h (x # xs) \<longleftrightarrow> h = Some x \<and> linked l (l x) xs"

lemma linked_cong:
  "(\<And>x. x \<in> set xs \<Longrightarrow> l x = l' x) \<Longrightarrow> linked l h xs = linked l' h xs"
  by (induction xs arbitrary: h) auto

lemma linked_Some: "linked l (Some x) xs \<Longrightarrow> \<exists>ys. xs = x # ys \<and> linked l (l x) ys"
  by (cases xs) auto

definition slot_ok :: "nat \<Rightarrow> Env \<Rightarrow> bool" where
  "slot_ok e v \<longleftrightarrow>
     (env_id v \<noteq> 0 \<longrightarrow> ENVX (env_id v) = e \<and> 0 <s env_id v) \<and>
     (env_status v \<noteq> ENV_FREE \<longrightarrow> env_id v \<noteq> 0)"

definition env_table :: "kern \<Rightarrow> nat list \<Rightarrow> bool" where
  "env_table s xs \<longleftrightarrow> distinct xs \<and> set xs = {e. e < NENV \<and> env_status (envs s e) = ENV_FREE} \<and>
     linked (\<lambda>e. env_link (envs s e)) (env_free_list s) xs \<and> (\<forall>e < NENV. slot_ok e (envs s e))"

definition user_mode :: "Trapframe \<Rightarrow> bool" where
  "user_mode tf \<longleftrightarrow> tf_cs tf AND 3 = 3 \<and> tf_eflags tf AND FL_IF \<noteq> 0"

definition live :: "kern \<Rightarrow> nat \<Rightarrow> bool" where
  "live s e \<longleftrightarrow> e < NENV \<and> env_status (envs s e) \<noteq> ENV_FREE"

definition users_ok :: "kern \<Rightarrow> bool" where
  "users_ok s \<longleftrightarrow> (\<forall>e. live s e \<longrightarrow> env_type (envs s e) \<noteq> ENV_TYPE_GUEST \<longrightarrow> user_mode (env_tf (envs s e)))"

definition cur_ok :: "kern \<Rightarrow> bool" where
  "cur_ok s \<longleftrightarrow> (\<forall>c. curenv s = Some c \<longrightarrow> live s c)"

definition table_ok :: "kern \<Rightarrow> bool" where
  "table_ok s \<longleftrightarrow> (\<exists>xs. env_table s xs) \<and> users_ok s"

definition kern_inv :: "kern \<Rightarrow> bool" where
  "kern_inv s \<longleftrightarrow> table_ok s \<and> cur_ok s"

lemmas inv_defs = kern_inv_def table_ok_def cur_ok_def users_ok_def live_def env_table_def slot_ok_def user_mode_def

lemma env_table_same: "tab_same s s' \<Longrightarrow> env_table s' xs = env_table s xs"
  by (simp add: env_table_def slot_ok_def tab_sameD)

lemma table_ok_same: "tab_same s s' \<Longrightarrow> table_ok s' = table_ok s"
  by (simp add: table_ok_def env_table_same users_ok_def live_def user_mode_def tab_sameD)

lemma kern_inv_same: "tab_same s s' \<Longrightarrow> kern_inv s' = kern_inv s"
  by (simp add: kern_inv_def table_ok_same cur_ok_def live_def tab_sameD)

subsection \<open>Identifiers\<close>

lemma next_generation_bits:
  "take_bit 10 (next_generation i) = 0" "0 <s next_generation i"
proof -
  let ?g = "(i + push_bit 12 1) AND NOT 1023"
  have g: "take_bit 10 ?g = 0"
    by (rule bit_word_eqI) (auto simp: bit_simps)
  show "take_bit 10 (next_generation i) = 0"
    using g by (simp add: next_generation_def Let_def)
  show "0 <s next_generation i"
    by (simp add: next_generation_def Let_def word_sless_alt word_sle_eq)
qed

lemma new_id:
  assumes "e < 1024"
  shows "ENVX (next_generation i OR of_nat e) = e" "0 <s next_generation i OR of_nat e"
    "next_generation i OR of_nat e \<noteq> 0"
proof -
  let ?g = "next_generation i"
  have e: "take_bit 10 (of_nat e :: envid_t) = of_nat e"
    using assms by (simp add: take_bit_of_nat take_bit_nat_eq_self)
  have "(?g OR of_nat e) AND 0x3FF = take_bit 10 (?g OR of_nat e)"
    by (simp add: take_bit_eq_mask mask_eq_exp_minus_1)
  also have "\<dots> = of_nat e"
    unfolding take_bit_or next_generation_bits e by simp
  finally show "ENVX (?g OR of_nat e) = e"
    using assms by (simp add: ENVX_def unat_of_nat)
  have sgn: "bit x 31 \<longleftrightarrow> sint x < 0" for x :: envid_t
    using bit_last_iff [of x] by simp
  have "\<not> bit (take_bit 10 (of_nat e :: envid_t)) 31"
    by (simp add: bit_take_bit_iff)
  moreover have "\<not> bit ?g 31" "?g \<noteq> 0"
    using next_generation_bits(2) [of i] by (auto simp: word_sless_alt sgn)
  ultimately have neg: "\<not> bit (?g OR of_nat e) 31" and nz: "?g OR of_nat e \<noteq> 0"
    by (auto simp: bit_or_iff e or_eq_0_iff)
  from nz have "sint (?g OR of_nat e) \<noteq> 0"
    by (metis signed_0 signed_word_eqI)
  with neg nz show "0 <s ?g OR of_nat e" "?g OR of_nat e \<noteq> 0"
    by (auto simp: word_sless_alt sgn)
qed


subsection \<open>The three changes keep the invariant\<close>

lemma env_table_head:
  "env_table s xs \<Longrightarrow> env_free_list s = Some e \<Longrightarrow>
   \<exists>ys. xs = e # ys \<and> e < NENV \<and> env_status (envs s e) = ENV_FREE"
  unfolding env_table_def by (auto dest!: linked_Some)

lemma env_table_new:
  assumes "env_table s (e # xs)"
  shows "env_table (tab_new e p ty tf s) xs"
proof -
  have e: "e < 1024" "e \<notin> set xs" "linked (\<lambda>e. env_link (envs s e)) (env_link (envs s e)) xs"
    using assms by (auto simp: env_table_def)
  then have "linked (\<lambda>k. env_link (envs (tab_new e p ty tf s) k)) (env_link (envs s e)) xs"
    using linked_cong [of xs "\<lambda>e. env_link (envs s e)" "\<lambda>k. env_link (envs (tab_new e p ty tf s) k)"]
    by (auto simp: tab_new_def)
  moreover have "slot_ok k (envs (tab_new e p ty tf s) k)" if "k < 1024" for k
    using assms that new_id [OF e(1)] by (auto simp: env_table_def tab_new_def slot_ok_def)
  ultimately show ?thesis
    using assms e(2) by (auto simp: env_table_def tab_new_def)
qed

lemma table_ok_new:
  assumes "table_ok s" "env_free_list s = Some e" "ty \<noteq> ENV_TYPE_GUEST \<Longrightarrow> user_mode tf"
  shows "table_ok (tab_new e p ty tf s)"
proof -
  obtain xs where t: "env_table s xs"
    using assms(1) by (auto simp: table_ok_def)
  with env_table_head [OF t assms(2)] obtain ys where "env_table s (e # ys)"
    by blast
  then have "env_table (tab_new e p ty tf s) ys"
    by (rule env_table_new)
  moreover have "users_ok (tab_new e p ty tf s)"
    using assms by (auto simp: table_ok_def users_ok_def live_def tab_new_def)
  ultimately show ?thesis
    by (auto simp: table_ok_def)
qed

lemma cur_ok_new: "cur_ok s \<Longrightarrow> cur_ok (tab_new e p ty tf s)"
  by (auto simp: cur_ok_def live_def tab_new_def)

lemma table_ok_free:
  assumes "table_ok s" "live s e"
  shows "table_ok (tab_free e s)"
proof -
  obtain xs where t: "env_table s xs"
    using assms by (auto simp: table_ok_def)
  then have "e \<notin> set xs"
    using assms by (auto simp: env_table_def live_def)
  then have "linked (\<lambda>k. env_link (envs (tab_free e s) k)) h xs = linked (\<lambda>e. env_link (envs s e)) h xs" for h
    by (intro linked_cong) (auto simp: tab_free_def)
  then have "env_table (tab_free e s) (e # xs)"
    using t assms by (auto simp: env_table_def tab_free_def live_def slot_ok_def)
  moreover have "users_ok (tab_free e s)"
    using assms by (auto simp: table_ok_def users_ok_def live_def tab_free_def)
  ultimately show ?thesis
    by (auto simp: table_ok_def)
qed

lemma table_ok_upd:
  assumes "table_ok s"
    and "\<And>v. env_link (f v) = env_link v \<and> env_id (f v) = env_id v \<and> env_type (f v) = env_type v"
    and "env_status (f (envs s e)) = ENV_FREE \<longleftrightarrow> env_status (envs s e) = ENV_FREE"
    and "user_mode (env_tf (envs s e)) \<Longrightarrow> user_mode (env_tf (f (envs s e)))"
  shows "table_ok (upd_env e f s)"
proof -
  obtain xs where "env_table s xs"
    using assms by (auto simp: table_ok_def)
  moreover have "(\<lambda>k. env_link (envs (upd_env e f s) k)) = (\<lambda>k. env_link (envs s k))"
    using assms(2) by auto
  ultimately have "env_table (upd_env e f s) xs"
    using assms(2,3) by (auto simp: env_table_def slot_ok_def)
  moreover have "users_ok (upd_env e f s)"
    using assms by (auto simp: table_ok_def users_ok_def live_def)
  ultimately show ?thesis
    by (auto simp: table_ok_def)
qed

lemma live_run: "live s e \<Longrightarrow> live (tab_run e s) e"
  by (auto simp: live_def tab_run_def Let_def split: option.splits)

lemma table_ok_cur [simp]: "table_ok (s\<lparr>curenv := c\<rparr>) = table_ok s"
  by (simp add: table_ok_def env_table_def users_ok_def live_def)

lemma kern_inv_run:
  assumes "table_ok s" "live s e"
  shows "kern_inv (tab_run e s)"
proof -
  let ?s1 = "case curenv s of Some c \<Rightarrow> if env_status (envs s c) = ENV_RUNNING
     then upd_env c (\<lambda>v. v\<lparr>env_status := ENV_RUNNABLE\<rparr>) s else s | None \<Rightarrow> s"
  have "table_ok ?s1"
    using assms(1) by (auto split: option.splits intro!: table_ok_upd)
  moreover have "env_status (envs ?s1 e) \<noteq> ENV_FREE"
    using assms(2) by (auto simp: live_def split: option.splits)
  ultimately have "table_ok (upd_env e (\<lambda>v. v\<lparr>env_status := ENV_RUNNING\<rparr>) ?s1)"
    by (intro table_ok_upd) auto
  moreover have "curenv (tab_run e s) = Some e"
    by (simp add: tab_run_def Let_def)
  ultimately show ?thesis
    using live_run [OF assms(2)] by (simp add: kern_inv_def cur_ok_def) (simp add: tab_run_def Let_def)
qed

end
