(* ===== verification/Sched_Inv.thy ===== *)
theory Sched_Inv
  imports Env_Inv
begin

section \<open>The scheduler: what it chooses and what it keeps\<close>

text \<open>
  The circular search of \<^verbatim>\<open>sched_yield\<close>: which slot it returns, and that running that slot keeps the
  invariant of the kernel. \<open>out_ok\<close> is what every way out of the kernel has to satisfy.
\<close>

subsection \<open>The search\<close>

lemma sched_search_Some:
  "sched_search n i s = Some j \<Longrightarrow>
   \<exists>k<n. j = (i + 1 + k) mod 1024 \<and> env_status (envs s j) = ENV_RUNNABLE \<and>
     (\<forall>k'<k. env_status (envs s ((i + 1 + k') mod 1024)) \<noteq> ENV_RUNNABLE)"
proof (induction n arbitrary: i)
  case (Suc n)
  let ?i = "(i + 1) mod 1024"
  have shift: "(?i + 1 + k) mod 1024 = (i + 1 + Suc k) mod 1024" for k
    by (metis ab_semigroup_add_class.add_ac(1) add_Suc_right mod_add_left_eq plus_1_eq_Suc)
  show ?case
  proof (cases "env_status (envs s ?i) = ENV_RUNNABLE")
    case True
    with Suc.prems show ?thesis by (intro exI [of _ 0]) (simp add: Let_def)
  next
    case False
    with Suc.prems have "sched_search n ?i s = Some j" by (simp add: Let_def)
    then obtain k where "k < n" "j = (?i + 1 + k) mod 1024" "env_status (envs s j) = ENV_RUNNABLE"
      and lt: "\<forall>k'<k. env_status (envs s ((?i + 1 + k') mod 1024)) \<noteq> ENV_RUNNABLE"
      using Suc.IH by blast
    moreover have "env_status (envs s ((i + 1 + k') mod 1024)) \<noteq> ENV_RUNNABLE" if "k' < Suc k" for k'
      using that lt False by (cases k') (auto simp only: shift add_0_right less_Suc_eq_0_disj Suc_less_eq)
    ultimately show ?thesis
      unfolding shift by (intro exI [of _ "Suc k"]) simp
  qed
qed simp

lemma sched_search_None:
  "sched_search n i s = None \<Longrightarrow> k < n \<Longrightarrow> env_status (envs s ((i + 1 + k) mod 1024)) \<noteq> ENV_RUNNABLE"
proof (induction n arbitrary: i k)
  case (Suc n)
  let ?i = "(i + 1) mod 1024"
  have shift: "(?i + 1 + k) mod 1024 = (i + 1 + Suc k) mod 1024" for k
    by (metis ab_semigroup_add_class.add_ac(1) add_Suc_right mod_add_left_eq plus_1_eq_Suc)
  have "env_status (envs s ?i) \<noteq> ENV_RUNNABLE" "sched_search n ?i s = None"
    using Suc.prems by (auto simp: Let_def split: if_splits)
  then show ?case
    using Suc.IH [of ?i] Suc.prems(2) by (cases k) (auto simp only: shift add_0_right Suc_less_eq)
qed simp

lemma sched_search_live: "sched_search n i s = Some j \<Longrightarrow> live s j"
  using sched_search_Some [of n i s j] by (auto simp: live_def)

subsection \<open>The effect on the table\<close>

definition sched_result :: "kern \<Rightarrow> outcome \<Rightarrow> kern \<Rightarrow> bool" where
  "sched_result s out s' \<longleftrightarrow>
     (case out of
        Switch i \<Rightarrow> live s i \<and> env_type (envs s i) \<noteq> ENV_TYPE_GUEST \<and> tab_same (tab_run i s) s' \<and>
          cpu_cr3 s' = env_cr3 (envs s' i)
      | EnterGuest i l \<Rightarrow> live s i \<and> env_type (envs s i) = ENV_TYPE_GUEST \<and> tab_same (tab_run i s) s'
      | Halted \<Rightarrow> tab_same (s\<lparr>curenv := None\<rparr>) s'
      | Monitor \<Rightarrow> tab_same s s'
      | Returned \<Rightarrow> tab_same s s' \<or> (\<exists>i. live s i \<and> tab_same (tab_run i s) s'))"

lemma tab_run_idle:
  "curenv s = Some c \<Longrightarrow> env_status (envs s c) = ENV_RUNNING \<Longrightarrow> tab_same (tab_run c s) s"
  by (auto simp: tab_same_def tab_run_def env_core_def)

lemma sched_halt_result:
  assumes "tab_same s s1" "sched_halt s1 = Some (out, s')"
  shows "sched_result s out s'"
proof -
  have "tab_same (s\<lparr>curenv := None\<rparr>) (s1\<lparr>curenv := None, cpu_cr3 := x, cpu_status := CPU_HALTED\<rparr>)" for x
    using assms(1) by (simp add: tab_same_def)
  with assms show ?thesis
    by (auto simp: sched_halt_def sched_result_def split: if_splits)
qed

lemma run_guest_out: "run_guest hw i s = Some (out, s') \<Longrightarrow> out = Returned \<or> (\<exists>l. out = EnterGuest i l)"
  by (auto simp: run_guest_def split: vmrun.splits Option.bind_splits)

lemma sched_yield_result:
  assumes "cur_ok s" "sched_yield hw s = Some (out, s')"
  shows "sched_result s out s'"
proof -
  have run: "sched_result s (Switch i) s'" if "live s i" "env_type (envs s i) \<noteq> ENV_TYPE_GUEST" "env_run i s = Some s'" for i s'
    using that env_run_tab [OF that(3)] by (simp add: sched_result_def)
  have guest: "sched_result s out s'"
    if "live s i" "env_type (envs s i) = ENV_TYPE_GUEST" "tab_same (tab_run i s) s1" "run_guest hw i s1 = Some (out, s')" for i s1 out s'
    using that run_guest_out [OF that(4)] tab_same_trans [OF that(3) run_guest_tab [OF that(4)]]
    by (auto simp: sched_result_def)
  have ret: "sched_result s Returned s1" if "tab_same s s1" for s1
    using that by (simp add: sched_result_def)
  have "post (sched_yield hw s) (\<lambda>(out, s'). sched_result s out s')"
  proof (cases "sched_search NENV (case curenv s of Some c \<Rightarrow> ENVX (env_id (envs s c)) | None \<Rightarrow> 0) s")
    case (Some i)
    let ?sw = "\<lambda>s1. upd_env i (\<lambda>v. v\<lparr>env_status := ENV_RUNNING, env_runs := env_runs v + 1\<rparr>)
      ((case curenv s1 of Some c \<Rightarrow> if env_status (envs s1 c) = ENV_RUNNING
          then upd_env c (\<lambda>v. v\<lparr>env_status := ENV_RUNNABLE\<rparr>) s1 else s1 | None \<Rightarrow> s1)\<lparr>curenv := Some i\<rparr>)"
    have sw: "tab_same (tab_run i s) (?sw s1)" if "tab_same s s1" for s1
    proof -
      have "tab_same (tab_run i s1) (?sw s1)"
        by (auto simp: tab_same_def tab_run_def env_core_def split: option.splits)
      with tab_run_cong [OF that] show ?thesis by (rule tab_same_trans)
    qed
    show ?thesis
      unfolding sched_yield_def Let_def Some option.case
      by (intro post_intros postI)
        (auto split: if_splits dest!: vmxon_tab intro: guest [OF sched_search_live [OF Some]]
          run [OF sched_search_live [OF Some]] sw ret)
  next
    case None
    show ?thesis
    proof (cases "curenv s")
      case cur: (Some c)
      then have live: "live s c"
        using assms(1) by (simp add: cur_ok_def)
      have inc: "tab_same (tab_run c s) (upd_env c (\<lambda>v. v\<lparr>env_runs := env_runs v + 1\<rparr>) s1)"
        if "tab_same s s1" "env_status (envs s c) = ENV_RUNNING" for s1
        using tab_same_trans [OF tab_run_idle [OF cur that(2)] that(1)] by (simp add: env_core_def)
      have kept: "tab_same s s2" if "tab_same (tab_run c s) s1" "run_guest hw c s1 = Some (out, s2)"
        "env_status (envs s c) = ENV_RUNNING" for s1 s2 out
        using tab_run_idle [OF cur that(3)] that(1) run_guest_tab [OF that(2)] by (simp add: tab_same_def)
      show ?thesis
        unfolding sched_yield_def Let_def cur option.case None [unfolded cur option.case]
        by (intro post_intros postI; clarsimp dest!: vmxon_tab)
          (erule sched_halt_result [OF kept [OF inc]] guest [OF live _ inc] run [OF live]
            sched_halt_result [OF tab_same_refl] sched_halt_result; assumption)+
    qed (use None in \<open>auto simp: sched_yield_def intro!: postI intro: sched_halt_result [of s s]\<close>)
  qed
  then show ?thesis
    using assms(2) by (auto dest: postD)
qed

lemma kern_inv_halt: "kern_inv s \<Longrightarrow> kern_inv (s\<lparr>curenv := None\<rparr>)"
  by (simp add: kern_inv_def cur_ok_def)

lemma sched_result_inv:
  assumes "kern_inv s" "sched_result s out s'"
  shows "kern_inv s'"
proof -
  have "kern_inv (tab_run i s)" if "live s i" for i
    using assms(1) that by (intro kern_inv_run) (simp_all add: kern_inv_def)
  with assms show ?thesis
    by (auto simp: sched_result_def kern_inv_same kern_inv_halt split: outcome.splits)
qed

lemma sched_yield_inv:
  assumes "kern_inv s" "sched_yield hw s = Some (out, s')"
  shows "kern_inv s'"
proof -
  have "cur_ok s"
    using assms(1) by (simp add: kern_inv_def)
  from sched_result_inv [OF assms(1) sched_yield_result [OF this assms(2)]] show ?thesis .
qed

lemma env_run_inv:
  assumes "kern_inv s" "live s e" "env_run e s = Some s'"
  shows "kern_inv s'"
  using kern_inv_run [of s e] kern_inv_same [OF env_run_tab(1) [OF assms(3)]] assms by (simp add: kern_inv_def)

text \<open>
  \<open>out_ok out s\<close>: the invariant holds, and if the CPU resumes an environment, it is the current
  one, marked running, with its own address space loaded.
\<close>

definition out_ok :: "outcome \<Rightarrow> kern \<Rightarrow> bool" where
  "out_ok out s \<longleftrightarrow> kern_inv s \<and>
     (case out of
        Switch c \<Rightarrow> curenv s = Some c \<and> live s c \<and> env_status (envs s c) = ENV_RUNNING \<and> cpu_cr3 s = env_cr3 (envs s c)
      | _ \<Rightarrow> True)"

lemma out_ok_inv: "out_ok out s \<Longrightarrow> kern_inv s"
  and out_ok_Returned: "kern_inv s \<Longrightarrow> out_ok Returned s"
  by (simp_all add: out_ok_def)

lemma live_same: "tab_same s s' \<Longrightarrow> live s' e = live s e"
  by (simp add: live_def tab_sameD)

lemma tab_run_running: "curenv (tab_run i s) = Some i" "env_status (envs (tab_run i s) i) = ENV_RUNNING"
  by (simp_all add: tab_run_def Let_def)

lemma sched_yield_out:
  assumes "kern_inv s" "sched_yield hw s = Some (out, s')"
  shows "out_ok out s'"
proof -
  have "sched_result s out s'"
    using sched_yield_result assms by (simp add: kern_inv_def)
  then show ?thesis
    using sched_yield_inv [OF assms] live_run
    by (auto simp: out_ok_def sched_result_def live_same tab_sameD tab_run_running split: outcome.splits)
qed

lemma env_run_out:
  assumes "kern_inv s" "live s e" "env_run e s = Some s'"
  shows "out_ok (Switch e) s'"
  using env_run_inv [OF assms] env_run_tab [OF assms(3)] live_run [OF assms(2)]
  by (auto simp: out_ok_def live_same tab_sameD tab_run_running)

lemma env_destroy_out:
  assumes "kern_inv s" "live s e" "env_destroy hw e s = Some (out, s')"
  shows "out_ok out s'"
proof (cases "env_status (envs s e) = ENV_RUNNING \<and> curenv s \<noteq> Some e")
  case True
  have "table_ok (upd_env e (\<lambda>v. v\<lparr>env_status := ENV_DYING\<rparr>) s)"
    using assms True by (intro table_ok_upd) (auto simp: kern_inv_def)
  with True assms show ?thesis
    by (auto simp: env_destroy_def out_ok_def kern_inv_def cur_ok_def live_def)
next
  case False
  then obtain s1 where s1: "(if env_type (envs s e) = ENV_TYPE_GUEST then env_guest_free e s else env_free e s) = Some s1"
    and fin: "if curenv s1 = Some e then sched_yield hw (s1\<lparr>curenv := None\<rparr>) = Some (out, s')
      else out = Returned \<and> s' = s1"
    using assms(3) by (auto simp: env_destroy_def split: Option.bind_splits if_splits)
  have t: "tab_same (tab_free e s) s1"
    using s1 env_free_tab env_guest_free_tab by (auto split: if_splits)
  have ok: "table_ok s1"
    using table_ok_same [OF t] table_ok_free [of s e] assms by (simp add: kern_inv_def)
  show ?thesis
  proof (cases "curenv s1 = Some e")
    case True
    have "kern_inv (s1\<lparr>curenv := None\<rparr>)"
      using ok by (simp add: kern_inv_def cur_ok_def)
    moreover have "sched_yield hw (s1\<lparr>curenv := None\<rparr>) = Some (out, s')"
      using fin True by simp
    ultimately show ?thesis by (rule sched_yield_out)
  next
    case False
    then have "cur_ok s1"
      using assms(1) t by (auto simp: kern_inv_def cur_ok_def live_def tab_sameD [OF t] tab_free_def)
    with False fin ok show ?thesis by (simp add: kern_inv_def out_ok_def)
  qed
qed

lemma env_destroy_inv: "kern_inv s \<Longrightarrow> live s e \<Longrightarrow> env_destroy hw e s = Some (out, s') \<Longrightarrow> kern_inv s'"
  by (rule out_ok_inv [OF env_destroy_out])

lemma user_mem_assert_out:
  assumes "kern_inv s" "live s e" "user_mem_assert hw s e va len perm = Some (out, s')"
  shows "out_ok out s'"
proof -
  obtain r s1 where "user_mem_check s e va len (perm OR PTE_U) = Some (r, s1)"
    and fin: "if r < 0 then env_destroy hw e s1 = Some (out, s') else out = Returned \<and> s' = s1"
    using assms(3) by (auto simp: user_mem_assert_def split: Option.bind_splits if_splits)
  then have t: "tab_same s s1"
    by (blast dest: user_mem_check_tab)
  then have "kern_inv s1" "live s1 e"
    using assms by (simp_all add: kern_inv_same live_def tab_sameD)
  with fin show ?thesis
    by (auto split: if_splits intro: env_destroy_out out_ok_Returned)
qed

lemma user_mem_assert_inv:
  "kern_inv s \<Longrightarrow> live s e \<Longrightarrow> user_mem_assert hw s e va len perm = Some (out, s') \<Longrightarrow> kern_inv s'"
  by (rule out_ok_inv [OF user_mem_assert_out])

end
