(* ===== verification/Syscall_Inv.thy ===== *)
theory Syscall_Inv
  imports Sched_Inv
begin

section \<open>Every kernel entry keeps the invariant\<close>

text \<open>
  One lemma per system call of \<^verbatim>\<open>kern/syscall.c\<close>: from a state with the invariant the call ends in one
  with the invariant, whether it returns to its caller or gives up the processor.
\<close>

subsection \<open>Finding an environment\<close>

lemma envid2env_ok:
  assumes "envid2env s envid cp = Some (r, x)"
  shows "r < 0 \<and> x = None \<or> r = 0 \<and> (case x of
      None \<Rightarrow> envid = 0 \<and> curenv s = None
    | Some e \<Rightarrow> (if envid = 0 then curenv s = Some e else live s e \<and> env_id (envs s e) = envid) \<and>
        (cp \<longrightarrow> (\<exists>c. curenv s = Some c \<and> (e = c \<or> env_parent_id (envs s e) = env_id (envs s c)))))"
  using assms
  by (auto simp: envid2env_def Let_def live_def split: if_splits Option.bind_splits option.splits)

lemma with_env_post:
  assumes "kern_inv s" "\<And>e. live s e \<Longrightarrow> post (k e) Q" "\<And>r. Q (Ret r, s)"
  shows "post (with_env envid cp s k) Q"
proof -
  have "live s e" if "envid2env s envid cp = Some (r, Some e)" for r e
    using envid2env_ok [OF that] assms(1) by (auto simp: kern_inv_def cur_ok_def split: if_splits)
  with assms(2,3) show ?thesis
    unfolding with_env_def by (auto intro!: post_intros simp: ret_def)
qed

text \<open>\<open>sys_inv m\<close>: the system call \<open>m\<close> keeps the invariant, whether it returns or leaves the kernel otherwise.\<close>

definition sys_inv :: "(sysret \<times> kern) option \<Rightarrow> bool" where
  "sys_inv m \<longleftrightarrow> post m (\<lambda>(r, s'). case r of Ret _ \<Rightarrow> kern_inv s' | NoRet out \<Rightarrow> out_ok out s')"

named_theorems sys_inv_intros

lemma sys_inv_ret [simp]: "sys_inv (ret r s) = kern_inv s" "sys_inv (ret_err x s) = kern_inv s"
  by (simp_all add: sys_inv_def ret_def ret_err_def)

lemma sys_inv_with_env [sys_inv_intros]:
  "kern_inv s \<Longrightarrow> (\<And>e. live s e \<Longrightarrow> sys_inv (k e)) \<Longrightarrow> sys_inv (with_env envid cp s k)"
  unfolding sys_inv_def by (rule with_env_post) auto

lemma sys_inv_after [sys_inv_intros]:
  assumes "\<And>out s1. m = Some (out, s1) \<Longrightarrow> out_ok out s1" "\<And>s1. kern_inv s1 \<Longrightarrow> sys_inv (k s1)"
  shows "sys_inv (after m k)"
  using assms unfolding after_def sys_inv_def by (auto intro!: post_intros intro: out_ok_inv)

lemma sys_inv_bind [sys_inv_intros]: "(\<And>x. m = Some x \<Longrightarrow> sys_inv (f x)) \<Longrightarrow> sys_inv (Option.bind m f)"
  and sys_inv_if [sys_inv_intros]: "(b \<Longrightarrow> sys_inv m1) \<Longrightarrow> (\<not> b \<Longrightarrow> sys_inv m2) \<Longrightarrow> sys_inv (if b then m1 else m2)"
  and sys_inv_option [sys_inv_intros]:
    "(y = None \<Longrightarrow> sys_inv m1) \<Longrightarrow> (\<And>z. y = Some z \<Longrightarrow> sys_inv (g z)) \<Longrightarrow> sys_inv (case y of None \<Rightarrow> m1 | Some z \<Rightarrow> g z)"
  and sys_inv_prod [sys_inv_intros]:
    "(\<And>a b. p = (a, b) \<Longrightarrow> sys_inv (h a b)) \<Longrightarrow> sys_inv (case p of (a, b) \<Rightarrow> h a b)"
  unfolding sys_inv_def by (blast intro: post_intros)+

lemma kern_inv_upd:
  assumes "kern_inv s" "\<And>v. env_link (f v) = env_link v \<and> env_id (f v) = env_id v \<and> env_type (f v) = env_type v"
    and "env_status (f (envs s e)) = ENV_FREE \<longleftrightarrow> env_status (envs s e) = ENV_FREE"
    and "user_mode (env_tf (envs s e)) \<Longrightarrow> user_mode (env_tf (f (envs s e)))"
  shows "kern_inv (upd_env e f s)"
  using assms table_ok_upd [of s f e] by (auto simp: kern_inv_def cur_ok_def live_def)

lemma kern_inv_frame: "map_only s s' \<Longrightarrow> kern_inv s' = kern_inv s"
  by (simp add: map_tab_same kern_inv_same)

subsection \<open>System calls\<close>

lemma user_mode_forced [simp]: "user_mode (tf\<lparr>tf_cs := c OR 3, tf_eflags := f OR 512\<rparr>)"
proof -
  have "(c OR 3) AND 3 = 3" "(f OR 512) AND 512 = 512"
    by (rule bit_word_eqI; auto simp: bit_simps)+
  then show ?thesis by (simp add: user_mode_def)
qed

lemma user_mode_regs [simp]:
  "user_mode (tf\<lparr>tf_regs := r\<rparr>) = user_mode tf" "user_mode (tf\<lparr>tf_rip := x\<rparr>) = user_mode tf"
  "user_mode (tf\<lparr>tf_rip := x, tf_rsp := y\<rparr>) = user_mode tf"
  by (simp_all add: user_mode_def)

lemma status_code_live [simp]: "status_code n \<noteq> Some ENV_FREE"
  by (auto simp: status_code_def split: if_splits)

lemma inv_cur: "kern_inv s \<Longrightarrow> curenv s = Some c \<Longrightarrow> live s c"
  by (simp add: kern_inv_def cur_ok_def)

lemma inv_cur_status: "kern_inv s \<Longrightarrow> curenv s = Some c \<Longrightarrow> env_status (envs s c) \<noteq> ENV_FREE"
  using inv_cur by (auto simp: live_def)

lemma kern_inv_regs [simp]: "kern_inv (s\<lparr>kcons := k\<rparr>) = kern_inv s"
  by (rule kern_inv_same) simp

lemma sys_env_inv [sys_inv_intros]:
  assumes "kern_inv s"
  shows "sys_inv (sys_env_destroy hw envid s)" "sys_inv (sys_env_set_status envid n s)"
    "sys_inv (sys_env_set_trapframe envid tfp s)" "sys_inv (sys_env_set_pgfault_upcall envid func s)"
    "sys_inv (sys_getenvid s)" "sys_inv (sys_cgetc s)"
proof -
  show "sys_inv (sys_env_destroy hw envid s)"
    unfolding sys_env_destroy_def using assms by (auto intro!: sys_inv_intros intro: env_destroy_out)
  show "sys_inv (sys_env_set_status envid n s)"
    unfolding sys_env_set_status_def using assms
    by (auto intro!: sys_inv_intros kern_inv_upd simp: live_def)
  show "sys_inv (sys_env_set_trapframe envid tfp s)"
    unfolding sys_env_set_trapframe_def using assms by (auto intro!: sys_inv_intros kern_inv_upd)
  show "sys_inv (sys_env_set_pgfault_upcall envid func s)"
    unfolding sys_env_set_pgfault_upcall_def using assms by (auto intro!: sys_inv_intros kern_inv_upd)
  show "sys_inv (sys_getenvid s)"
    unfolding sys_getenvid_def using assms by (auto intro!: sys_inv_intros)
  show "sys_inv (sys_cgetc s)"
    unfolding sys_cgetc_def using assms by (auto split: prod.splits)
qed

lemma sys_page_inv [sys_inv_intros]:
  assumes "kern_inv s"
  shows "sys_inv (sys_page_alloc envid va perm s)" "sys_inv (sys_page_map a x b y perm s)"
    "sys_inv (sys_page_unmap envid va s)"
proof -
  show "sys_inv (sys_page_alloc envid va perm s)"
    unfolding sys_page_alloc_def using assms
    by (auto intro!: sys_inv_intros simp: kern_inv_frame dest!: map_frame)
  show "sys_inv (sys_page_map a x b y perm s)"
    unfolding sys_page_map_def using assms
    by (auto intro!: sys_inv_intros simp: kern_inv_frame dest!: map_frame)
  show "sys_inv (sys_page_unmap envid va s)"
    unfolding sys_page_unmap_def using assms
    by (auto intro!: sys_inv_intros simp: kern_inv_frame dest!: map_frame)
qed

lemma sys_ipc_inv [sys_inv_intros]:
  assumes "kern_inv s"
  shows "sys_inv (sys_ipc_try_send envid val va perm s)" "sys_inv (sys_ipc_recv hw va s)"
proof -
  show "sys_inv (sys_ipc_try_send envid val va perm s)"
    unfolding sys_ipc_try_send_def ipc_send_to_def ipc_finish_def Let_def using assms
    by (auto intro!: sys_inv_intros kern_inv_upd simp: kern_inv_frame live_def map_onlyD(6) dest!: map_frame)
  show "sys_inv (sys_ipc_recv hw va s)"
    unfolding sys_ipc_recv_def Let_def using assms
    by (auto intro!: sys_inv_intros kern_inv_upd simp: inv_cur_status dest!: sched_yield_out [rotated])
qed


lemma sys_ept_map_inv [sys_inv_intros]: "kern_inv s \<Longrightarrow> sys_inv (sys_ept_map a x b y perm s)"
  unfolding sys_ept_map_def
  by (auto intro!: sys_inv_intros simp: kern_inv_same dest!: page_lookup_state ept_map_tab)

lemma sys_alloc_inv:
  assumes "tab_same (tab_new e p ty tf s) s1" "env_free_list s = Some e" "kern_inv s"
    and "ty = ENV_TYPE_GUEST \<or> user_mode tf"
    and "\<And>v. env_link (f v) = env_link v \<and> env_id (f v) = env_id v \<and> env_type (f v) = env_type v"
    and "\<And>v. env_status (f v) \<noteq> ENV_FREE" "\<And>v. user_mode (env_tf v) \<Longrightarrow> user_mode (env_tf (f v))"
  shows "kern_inv (upd_env e f s1)"
proof -
  have "table_ok (tab_new e p ty tf s)" "cur_ok (tab_new e p ty tf s)"
    using assms by (auto simp: kern_inv_def intro: table_ok_new cur_ok_new)
  then have "kern_inv s1"
    using kern_inv_same [OF assms(1)] by (simp add: kern_inv_def)
  moreover have "env_status (envs s1 e) \<noteq> ENV_FREE"
    using tab_sameD(7) [OF assms(1)] by (simp add: tab_new_def)
  ultimately show ?thesis
    using assms by (intro kern_inv_upd) auto
qed

lemma sys_env_mkguest_inv [sys_inv_intros]: "kern_inv s \<Longrightarrow> sys_inv (sys_env_mkguest sz rip s)"
  unfolding sys_env_mkguest_def Let_def
  by (auto intro!: sys_inv_intros dest!: env_guest_alloc_tab simp: kern_inv_same)
    (erule (2) sys_alloc_inv; simp)

lemma sys_exofork_inv [sys_inv_intros]:
  assumes "kern_inv s" "\<And>c. curenv s = Some c \<Longrightarrow> user_mode (env_tf (envs s c))"
  shows "sys_inv (sys_exofork s)"
  unfolding sys_exofork_def Let_def using assms
  by (auto intro!: sys_inv_intros dest!: env_alloc_tab simp: kern_inv_same)
    (rule sys_alloc_inv, assumption+, auto simp: user_mode_def tab_sameD(8,9) tab_new_def)


lemma user_puts_inv: "user_puts n va s = Some s' \<Longrightarrow> tab_same s s'"
proof (induction n arbitrary: va s)
  case (Suc n)
  then show ?case
    by (auto split: Option.bind_splits if_splits dest!: Suc.IH)
qed (auto split: Option.bind_splits)

lemma sys_cputs_inv [sys_inv_intros]: "kern_inv s \<Longrightarrow> sys_inv (sys_cputs hw str len s)"
  unfolding sys_cputs_def Let_def
  by (auto intro!: sys_inv_intros simp: kern_inv_same dest!: user_puts_inv intro: user_mem_assert_out inv_cur)

text \<open>
  \<open>vmcs_loads hw\<close>: VMCLEAR and VMPTRLD succeed, as the processor promises for the address of a
  page that holds a VMCS. Then the scheduler returns to its caller only if VMX operation cannot
  be entered, and with the table as it was.
\<close>

definition vmcs_loads :: "vmx_hw \<Rightarrow> bool" where
  "vmcs_loads hw \<longleftrightarrow> (\<forall>pa. \<not> hw_vmclear_error hw pa \<and> \<not> hw_vmptrld_error hw pa)"

lemma run_guest_enters:
  "vmcs_loads hw \<Longrightarrow> env_type (envs s e) = ENV_TYPE_GUEST \<Longrightarrow> run_guest hw e s \<noteq> Some (Returned, s')"
  by (auto simp: run_guest_def vmx_vmrun_def vmcs_loads_def Let_def split: Option.bind_splits vmrun.splits if_splits)

lemma sched_yield_returned:
  assumes "vmcs_loads hw" "sched_yield hw s = Some (Returned, s')"
  shows "tab_same s s'"
proof -
  have "post (sched_yield hw s) (\<lambda>(out, s'). out = Returned \<longrightarrow> tab_same s s')"
    unfolding sched_yield_def Let_def
    by (intro post_intros postI; clarsimp simp: sched_halt_def split: if_splits dest!: vmxon_tab)
      (auto simp: run_guest_enters [OF assms(1)] tab_sameD split: option.splits if_splits)
  then show ?thesis
    using assms(2) by (auto dest: postD)
qed

lemma sys_yield_inv:
  assumes "kern_inv s" "\<And>c. curenv s = Some c \<Longrightarrow> user_mode (env_tf (envs s c))" "vmcs_loads hw"
  shows "sys_inv (after (sched_yield hw s) sys_exofork)"
proof -
  have "sys_inv (sys_exofork s1)" if "sched_yield hw s = Some (Returned, s1)" for s1
  proof -
    note t = sched_yield_returned [OF assms(3) that]
    show ?thesis
      using assms(1,2) kern_inv_same [OF t] tab_sameD [OF t]
      by (intro sys_exofork_inv) (auto simp: user_mode_def)
  qed
  then show ?thesis
    using sched_yield_out [OF assms(1), of hw]
    unfolding sys_inv_def after_def by (intro post_intros; auto)
qed

lemma syscall_inv:
  assumes "kern_inv s" "\<And>c. curenv s = Some c \<Longrightarrow> user_mode (env_tf (envs s c))" "vmcs_loads hw"
  shows "sys_inv (syscall hw no a1 a2 a3 a4 a5 s)"
  using assms unfolding syscall_def
  by (intro sys_inv_if; simp add: sys_inv_intros sys_yield_inv)

end
