(* ===== verification/Trap_Inv.thy ===== *)
theory Trap_Inv
  imports Syscall_Inv
begin

section \<open>Traps and guest exits keep the invariant\<close>

text \<open>
  \<^verbatim>\<open>page_fault_handler\<close>, \<^verbatim>\<open>trap_dispatch\<close> and \<^verbatim>\<open>trap\<close> end in a state in which the invariant
  holds and, when they leave the kernel, for an environment that may run.
\<close>

subsection \<open>Page faults\<close>

lemma page_fault_handler_out:
  assumes "kern_inv s" "page_fault_handler hw va tf s = Some (out, s')"
  shows "out_ok out s'"
proof -
  have utf: "tab_same s1 s2" if "fold_opt (\<lambda>(k, w). vm_store64 (a + of_nat (8 * k)) w) ws s1 = Some s2" for a ws s1 s2
    by (rule fold_opt_tab [OF that]) (auto dest: vm_bytes_tab)
  have "out_ok (Switch c2) s4"
    if "kern_inv s1" "fold_opt (\<lambda>(k, w). vm_store64 (a + of_nat (8 * k)) w) ws s1 = Some s2"
      "curenv s2 = Some c2" "env_run c2 (upd_env c (\<lambda>v. v\<lparr>env_tf := (env_tf v)\<lparr>tf_rip := x, tf_rsp := y\<rparr>\<rparr>) s2) = Some s4"
    for s1 s2 a ws c2 c x y s4
  proof -
    have "kern_inv s2"
      using that(1) kern_inv_same [OF utf [OF that(2)]] by simp
    then have "kern_inv (upd_env c (\<lambda>v. v\<lparr>env_tf := (env_tf v)\<lparr>tf_rip := x, tf_rsp := y\<rparr>\<rparr>) s2)"
      by (intro kern_inv_upd) auto
    then show ?thesis
      using that(3,4) by (intro env_run_out) (auto intro: inv_cur)
  qed
  moreover have "out_ok out s1" if "curenv s = Some c" "user_mem_assert hw s c a n p = Some (out, s1)" for c a n p out s1
    using user_mem_assert_out [OF assms(1) inv_cur [OF assms(1) that(1)] that(2)] .
  moreover have "out_ok out s1" if "curenv s = Some c" "env_destroy hw c s = Some (out, s1)" for c out s1
    using env_destroy_out [OF assms(1) inv_cur [OF assms(1) that(1)] that(2)] .
  ultimately have "post (page_fault_handler hw va tf s) (\<lambda>(out, s'). out_ok out s')"
    unfolding page_fault_handler_def Let_def
    by (intro post_intros postI; clarsimp) (blast dest: out_ok_inv)+
  then show ?thesis
    using assms(2) by (auto dest: postD)
qed

subsection \<open>Dispatch\<close>

text \<open>
  \<open>trap_frame_ok tf\<close>: what the processor and the kernel promise of a trap frame. One from user
  mode has interrupts enabled; the kernel itself executes no system call instruction.
\<close>

definition trap_frame_ok :: "Trapframe \<Rightarrow> bool" where
  "trap_frame_ok tf \<longleftrightarrow> (if tf_cs tf AND 3 = 3 then tf_eflags tf AND FL_IF \<noteq> 0 else tf_trapno tf \<noteq> T_SYSCALL)"

lemma kern_inv_status [simp]: "kern_inv (s\<lparr>cpu_status := x\<rparr>) = kern_inv s"
  by (rule kern_inv_same) simp

lemma trap_dispatch_out:
  assumes "kern_inv s" "vmcs_loads hw" "trap_dispatch hw cr2 tf s = Some (out, s')"
    and "tf_trapno tf = T_SYSCALL \<Longrightarrow> \<forall>c. curenv s = Some c \<longrightarrow> user_mode (env_tf (envs s c))"
  shows "out_ok out s'"
proof -
  have sys: "case r of Ret _ \<Rightarrow> kern_inv s1 | NoRet out \<Rightarrow> out_ok out s1"
    if "syscall hw no a1 a2 a3 a4 a5 s = Some (r, s1)" "tf_trapno tf = T_SYSCALL" for no a1 a2 a3 a4 a5 r s1
    using syscall_inv [OF assms(1) _ assms(2), of no a1 a2 a3 a4 a5] assms(4) that
    unfolding sys_inv_def by (auto dest: postD)
  have sysR: "kern_inv s1" if "tf_trapno tf = 48" "syscall hw no a1 a2 a3 a4 a5 s = Some (Ret v, s1)"
    for no a1 a2 a3 a4 a5 v s1
    using sys [OF that(2)] that(1) by simp
  have sysN: "out_ok out s1" if "tf_trapno tf = 48" "syscall hw no a1 a2 a3 a4 a5 s = Some (NoRet out, s1)"
    for no a1 a2 a3 a4 a5 out s1
    using sys [OF that(2)] that(1) by simp
  have "out_ok out s1" if "curenv s = Some c" "env_destroy hw c s = Some (out, s1)" for c out s1
    using env_destroy_out [OF assms(1) inv_cur [OF assms(1) that(1)] that(2)] .
  then have "post (trap_dispatch hw cr2 tf s) (\<lambda>(out, s'). out_ok out s')"
    using assms(1) unfolding trap_dispatch_def Let_def
    by (intro post_intros postI; clarsimp simp: out_ok_def [of Monitor] out_ok_Returned
        split: sysret.splits option.splits if_splits)
      (auto intro: sched_yield_out page_fault_handler_out sysR sysN intro!: out_ok_Returned kern_inv_upd)
  then show ?thesis
    using assms(3) by (auto dest: postD)
qed


lemma trap_out:
  assumes "kern_inv s" "vmcs_loads hw" "trap_frame_ok tf" "trap hw cr2 tf s = Some (out, s')"
  shows "out_ok out s'"
proof -
  define rest where "rest = (\<lambda>s. do {
       (out, s1) \<leftarrow> trap_dispatch hw cr2 tf s;
       if out \<noteq> Returned then Some (out, s1)
       else (case curenv s1 of
               Some c \<Rightarrow>
                 if env_status (envs s1 c) = ENV_RUNNING
                 then do { s2 \<leftarrow> env_run c s1; Some (Switch c, s2) }
                 else sched_yield hw s1
             | None \<Rightarrow> sched_yield hw s1)})"
  have rest: "post (rest s1) (\<lambda>(out, s'). out_ok out s')"
    if "kern_inv s1" "tf_trapno tf = T_SYSCALL \<Longrightarrow> \<forall>c. curenv s1 = Some c \<longrightarrow> user_mode (env_tf (envs s1 c))" for s1
    unfolding rest_def using trap_dispatch_out [OF that(1) assms(2) _ that(2)]
    by (intro post_intros postI; clarsimp) (blast intro: env_run_out inv_cur sched_yield_out dest: out_ok_inv)+
  let ?s = "s\<lparr>cpu_status := CPU_STARTED\<rparr>"
  have "post (trap hw cr2 tf s) (\<lambda>(out, s'). out_ok out s')"
  proof (cases "tf_cs tf AND 3 = 3")
    case False
    then have "post (rest ?s) (\<lambda>(out, s'). out_ok out s')"
      using assms(1,3) by (intro rest) (auto simp: trap_frame_ok_def)
    with False show ?thesis
      by (simp add: trap_def rest_def Let_def)
  next
    case True
    then have um: "user_mode tf"
      using assms(3) by (simp add: trap_frame_ok_def user_mode_def)
    have go: "out_ok out s'" if "rest (upd_env c (\<lambda>v. v\<lparr>env_tf := tf\<rparr>) s1) = Some (out, s')"
      "kern_inv s1" "curenv s1 = Some c" for s1 c out s'
    proof -
      have "kern_inv (upd_env c (\<lambda>v. v\<lparr>env_tf := tf\<rparr>) s1)"
        using that(2) um by (intro kern_inv_upd) auto
      then show ?thesis
        using postD [OF rest that(1)] that(3) um by auto
    qed
    have dying: "kern_inv (s1\<lparr>curenv := None\<rparr>)" if "curenv s = Some c" "env_free c ?s = Some s1" for c s1
    proof -
      have "kern_inv ?s" "curenv ?s = Some c"
        using assms(1) that(1) by simp_all
      then have "table_ok (tab_free c ?s)"
        by (intro table_ok_free inv_cur) (simp_all only: kern_inv_def)
      then have "table_ok s1"
        using table_ok_same [OF env_free_tab [OF that(2)]] by simp
      then show ?thesis by (simp add: kern_inv_def cur_ok_def)
    qed
    show ?thesis
      unfolding trap_def Let_def rest_def [symmetric]
      using True assms(1) sched_yield_returned [OF assms(2)] sched_yield_out [OF dying]
      by (intro post_intros postI; clarsimp) (force intro: go dest: out_ok_inv)+
  qed
  then show ?thesis
    using assms(4) by (auto dest: postD)
qed

end
