(* ===== verification/Kernel_Run.thy ===== *)
theory Kernel_Run
  imports Trap_Inv
begin

section \<open>Running the kernel\<close>

text \<open>
  The kernel as a state machine: from a freshly initialised environment table, programs are
  created, and then the CPU enters the kernel by traps and guest exits, in any order, with
  arbitrary changes of memory by user programs in between. The invariant holds in every state
  that can be reached.
\<close>

subsection \<open>Initialisation\<close>

lemma env_init_fold:
  "fold env_init_step [0..<k] (None, s) =
     (if k = 0 then None else Some (k - 1),
      s\<lparr>env_free_list := (if k = 0 then env_free_list s else Some 0),
        envs := (\<lambda>e. if e < k then (envs s e)\<lparr>env_type := ENV_TYPE_USER, env_id := 0,
                        env_link := (if Suc e < k then Some (Suc e) else env_link (envs s e))\<rparr>
                    else envs s e)\<rparr>)"
proof (induction k)
  case (Suc k)
  then show ?case
    by (cases k) (auto simp: env_init_step_def upd_env_def fun_eq_iff)
qed simp

definition fresh_table :: "kern \<Rightarrow> bool" where
  "fresh_table s \<longleftrightarrow> curenv s = None \<and>
     (\<forall>e < NENV. env_status (envs s e) = ENV_FREE \<and> env_link (envs s e) = None)"

lemma linked_upt:
  "i \<le> n \<Longrightarrow> (\<And>k. i \<le> k \<Longrightarrow> k < n \<Longrightarrow> l k = (if Suc k < n then Some (Suc k) else None)) \<Longrightarrow>
   linked l (if i < n then Some i else None) [i..<n]"
proof (induction "n - i" arbitrary: i)
  case (Suc d)
  then have "linked l (if Suc i < n then Some (Suc i) else None) [Suc i..<n]"
    by auto
  with Suc show ?case by (auto simp: upt_conv_Cons)
qed simp

lemma env_init_table:
  assumes "fresh_table s"
  shows "env_table (env_init s) [0..<NENV]" "kern_inv (env_init s)"
proof -
  let ?l = "\<lambda>e. env_link (envs (env_init s) e)"
  have "linked ?l (if 0 < NENV then Some 0 else None) [0..<NENV]"
    using assms by (intro linked_upt) (auto simp: env_init_def env_init_fold fresh_table_def)
  then show t: "env_table (env_init s) [0..<NENV]"
    using assms by (auto simp: env_table_def env_init_def env_init_fold fresh_table_def slot_ok_def)
  then show "kern_inv (env_init s)"
    using assms by (auto simp: kern_inv_def table_ok_def users_ok_def live_def cur_ok_def env_init_def env_init_fold fresh_table_def)
qed

subsection \<open>Creating the first programs\<close>

lemma env_create_inv:
  assumes "kern_inv s" "env_create b ty s = Some s'"
  shows "kern_inv s'"
proof -
  obtain r e s1 s2 where al: "env_alloc s 0 = Some ((r, Some e), s1)" and ld: "load_icode e b s1 = Some s2"
    and s': "s' = (let s3 = upd_env e (\<lambda>v. v\<lparr>env_type := ty\<rparr>) s2 in if ty = ENV_TYPE_FS
       then upd_env e (\<lambda>v. v\<lparr>env_tf := (env_tf v)\<lparr>tf_eflags := tf_eflags (env_tf v) OR FL_IOPL_MASK\<rparr>\<rparr>) s3 else s3)"
    using assms(2) by (auto simp: env_create_def Let_def split: Option.bind_splits)
  obtain tf where e: "env_free_list s = Some e" and "tf_cs tf AND 3 = 3" "tf_eflags tf = FL_IF"
    and t1: "tab_same (tab_new e 0 ENV_TYPE_USER tf s) s1"
    using env_alloc_tab [OF al] by blast
  then have um: "user_mode tf"
    by (simp add: user_mode_def)
  have t: "tab_same (tab_new e 0 ENV_TYPE_USER tf s) s2"
    by (rule tab_same_trans [OF t1 load_icode_tab [OF ld]])
  let ?tf = "tf\<lparr>tf_eflags := (if ty = ENV_TYPE_FS then tf_eflags tf OR FL_IOPL_MASK else tf_eflags tf)\<rparr>"
  have "tab_same (tab_new e 0 ty ?tf s) s'"
    using tab_sameD [OF t] by (auto simp: s' Let_def tab_same_def env_core_def tab_new_def split: if_splits)
  moreover have "user_mode ?tf"
  proof -
    have "(x OR 0x3000) AND 0x200 = x AND 0x200" for x :: u64
      by (simp add: bit.conj_disj_distrib2)
    with um show ?thesis by (simp add: user_mode_def)
  qed
  then have "kern_inv (tab_new e 0 ty ?tf s)"
    using assms(1) e by (auto simp: kern_inv_def intro: table_ok_new cur_ok_new)
  ultimately show ?thesis
    using kern_inv_same by blast
qed

subsection \<open>Guest exits\<close>

lemma upd_tf_tab [simp]:
  "(\<And>t. tf_cs (f t) = tf_cs t \<and> tf_eflags (f t) = tf_eflags t) \<Longrightarrow> tab_same s (upd_tf e f s') = tab_same s s'"
  by (simp add: upd_tf_def env_core_def)

lemma upd_regs_tab [simp]: "tab_same s (upd_regs e f s') = tab_same s s'"
  and advance_rip_tab [simp]: "tab_same s (advance_rip e s') = tab_same s s'"
  by (simp_all add: upd_regs_def advance_rip_def)

lemma handle_msr_tab [tab_frame]:
  "handle_rdmsr e s = Some (h, s') \<Longrightarrow> tab_same s s'" "handle_wrmsr e s = Some (h, s') \<Longrightarrow> tab_same s s'"
  by (auto simp: handle_rdmsr_def handle_wrmsr_def Let_def split: if_splits Option.bind_splits)

lemma handle_dev_tab [tab_frame]:
  "handle_ioinstr e s = Some (h, s') \<Longrightarrow> tab_same s s'" "handle_cpuid hw e s = Some (h, s') \<Longrightarrow> tab_same s s'"
  by (auto simp: handle_ioinstr_def handle_cpuid_def Let_def split: if_splits prod.splits)

lemma handle_eptviolation_tab [tab_frame]: "handle_eptviolation e s = Some (h, s') \<Longrightarrow> tab_same s s'"
  by (auto simp: handle_eptviolation_def Let_def split: if_splits Option.bind_splits option.splits
      dest!: page_alloc_frame [THEN map_tab_same] ept_map_tab; blast intro: tab_same_trans)

lemma st32s_tab [simp]: "tab_same (fold (\<lambda>(k, w). st32 f k w) ws s) s' = tab_same s s'"
proof -
  have "tab_same s (fold (\<lambda>(k, w). st32 f k w) ws s)"
    by (rule fold_tab) (auto simp: st32_def)
  then show ?thesis
    by (simp add: tab_same_def)
qed

lemma handle_vmcall_tab [tab_frame]: "handle_vmcall junk e s = Some (h, s') \<Longrightarrow> tab_same s s'"
proof -
  have "post (handle_vmcall junk e s) (\<lambda>(h, s'). tab_same s s')"
    unfolding handle_vmcall_def Let_def
    by (intro post_intros; clarsimp dest!: page_alloc_frame [THEN map_tab_same] ept_map_tab simp del: upt_Suc)
      (rule tab_same_trans; assumption)
  then show "handle_vmcall junk e s = Some (h, s') \<Longrightarrow> tab_same s s'"
    by (auto dest: postD)
qed

lemma exit_handler_tab [tab_frame]: "exit_handler hw junk r e s = Some (h, s') \<Longrightarrow> tab_same s s'"
  by (auto simp: exit_handler_def split: if_splits
      dest: handle_msr_tab handle_dev_tab handle_eptviolation_tab handle_vmcall_tab)

lemma vmexit_out:
  assumes "kern_inv s" "vmexit hw junk s = Some (out, s')"
  shows "out_ok out s'"
proof -
  have kept: "kern_inv s1" if "tab_same s s1" for s1
    using kern_inv_same [OF that] assms(1) by simp
  have destroy: "out_ok out s2" if "kern_inv s1" "curenv s1 = Some c" "env_destroy hw c s1 = Some (out, s2)" for c s1 s2 out
    using env_destroy_out [OF that(1) inv_cur [OF that(1,2)] that(3)] .
  have "post (vmexit hw junk s) (\<lambda>(out, s'). out_ok out s')"
    unfolding vmexit_def Let_def
    by (intro post_intros postI; clarsimp split: if_splits Option.bind_splits dest!: exit_handler_tab)
      (blast intro: kept destroy sched_yield_out out_ok_inv assms(1))+
  then show ?thesis
    using assms(2) by (auto dest: postD)
qed

lemma asm_vmrun_exit_out:
  assumes "kern_inv s" "asm_vmrun_exit hw junk e regs cr2 fail s = Some (out, s')"
  shows "out_ok out s'"
proof -
  let ?s1 = "upd_tf e (\<lambda>t. t\<lparr>tf_regs := regs, tf_err := cr2, tf_es := (if fail then 1 else 0)\<rparr>) s"
  have "kern_inv ?s1"
    using kern_inv_same [of s ?s1] assms(1) by simp
  moreover have "kern_inv (upd_tf c (\<lambda>t. t\<lparr>tf_rsp := x, tf_rip := y\<rparr>) ?s1)" for c x y
    using kern_inv_same [of s "upd_tf c (\<lambda>t. t\<lparr>tf_rsp := x, tf_rip := y\<rparr>) ?s1"] assms(1) by simp
  ultimately show ?thesis
    using assms(2) by (auto simp: asm_vmrun_exit_def Let_def out_ok_Returned split: if_splits Option.bind_splits
        dest!: vmexit_out [rotated])
qed

subsection \<open>Reachable states\<close>

inductive reachable :: "vmx_hw \<Rightarrow> kern \<Rightarrow> bool" for hw where
  boot: "fresh_table s \<Longrightarrow> reachable hw (env_init s)"
| create: "reachable hw s \<Longrightarrow> env_create b ty s = Some s' \<Longrightarrow> reachable hw s'"
| start: "reachable hw s \<Longrightarrow> sched_yield hw s = Some (out, s') \<Longrightarrow> reachable hw s'"
| enter: "reachable hw s \<Longrightarrow> trap_frame_ok tf \<Longrightarrow> trap hw cr2 tf s = Some (out, s') \<Longrightarrow> reachable hw s'"
| guest: "reachable hw s \<Longrightarrow> asm_vmrun_exit hw junk e regs cr2 fail s = Some (out, s') \<Longrightarrow> reachable hw s'"
| user: "reachable hw s \<Longrightarrow> reachable hw (s\<lparr>pmem := m\<rparr>)"

lemma kern_inv_pmem [simp]: "kern_inv (s\<lparr>pmem := m\<rparr>) = kern_inv s"
  by (rule kern_inv_same) (simp add: tab_same_def)

lemma reachable_inv:
  assumes "vmcs_loads hw" "reachable hw s"
  shows "kern_inv s"
  using assms(2)
proof induction
  case (enter s tf cr2 out s')
  then show ?case
    using trap_out [OF enter.IH assms(1)] by (blast intro: out_ok_inv)
next
  case (guest s junk e regs cr2 fail out s')
  then show ?case
    by (blast intro: out_ok_inv asm_vmrun_exit_out)
qed (auto intro: env_init_table env_create_inv sched_yield_inv)

text \<open>
  A hardware on which nothing fails, a state with one running environment, and a spurious
  interrupt in that environment, as an example.
\<close>

definition example_hw :: vmx_hw where
  "example_hw = \<lparr>hw_cpuid = (\<lambda>_. (0, 0, 0x20, 0)), hw_vmxon_error = (\<lambda>_. False), hw_vmclear_error = (\<lambda>_. False),
     hw_vmptrld_error = (\<lambda>_. False), hw_idtr_base = 0, hw_gdtr_base = 0, hw_cpu_ts = 0, hw_vmx_return = 0,
     hw_host_rsp = 0\<rparr>"

definition example_tf :: Trapframe where
  "example_tf = zero_tf\<lparr>tf_cs := 0x1B, tf_eflags := 0x200, tf_trapno := 39\<rparr>"

definition example_table :: kern where
  "example_table = env_init (kern_zero 16)"

definition example_running :: kern where
  "example_running = tab_run 0 (tab_new 0 0 ENV_TYPE_USER example_tf example_table)"

lemma example_hw_ok: "vmcs_loads example_hw"
  by (simp add: vmcs_loads_def example_hw_def)

lemma example_fresh: "fresh_table (kern_zero 16)"
  by (simp add: fresh_table_def kern_zero_def zero_env_def)

lemma example_tf_ok: "trap_frame_ok example_tf" "user_mode example_tf"
  by (simp_all add: trap_frame_ok_def user_mode_def example_tf_def zero_tf_def)

lemma example_running_ok: "kern_inv example_running"
proof -
  have t: "table_ok example_table" "env_free_list example_table = Some 0"
    using env_init_table [OF example_fresh] by (auto simp: example_table_def kern_inv_def env_init_def env_init_fold)
  show ?thesis
    unfolding example_running_def
    by (rule kern_inv_run [OF table_ok_new [OF t]]) (simp_all add: example_tf_ok live_def tab_new_def)
qed





end
