(* ===== verification/Isolation.thy ===== *)
theory Isolation
  imports Kernel_Run
begin

section \<open>Isolation of environments\<close>

text \<open>
  \<open>envs_but A s s'\<close>: only the environments in \<open>A\<close> may have changed between the two
  states. Every system call is followed through, to the set of environments it may touch.
\<close>

definition envs_but :: "nat set \<Rightarrow> kern \<Rightarrow> kern \<Rightarrow> bool" where
  "envs_but A s s' \<longleftrightarrow> (\<forall>e. e \<notin> A \<longrightarrow> envs s' e = envs s e)"

lemma envs_but_refl [simp]: "envs_but A s s"
  by (simp add: envs_but_def)

lemma envs_but_trans: "envs_but A s s1 \<Longrightarrow> envs_but A s1 s2 \<Longrightarrow> envs_but A s s2"
  by (simp add: envs_but_def)

lemma envs_but_mono: "envs_but A s s' \<Longrightarrow> A \<subseteq> B \<Longrightarrow> envs_but B s s'"
  by (auto simp: envs_but_def)

lemma map_envs_but: "map_only s s' \<Longrightarrow> envs_but A s s'"
  by (simp add: envs_but_def map_onlyD)

lemma envs_but_upds [simp]:
  "envs_but A s (st f i v s') = envs_but A s s'" "envs_but A s (upd_page p g s') = envs_but A s s'"
  "envs_but A s (page_incref p s') = envs_but A s s'"
  "e \<in> A \<Longrightarrow> envs_but A s (upd_env e h s') = envs_but A s s'"
  "envs_but A s (s'\<lparr>env_free_list := x\<rparr>) = envs_but A s s'" "envs_but A s (s'\<lparr>curenv := c\<rparr>) = envs_but A s s'"
  "envs_but A s (s'\<lparr>kcons := k\<rparr>) = envs_but A s s'" "envs_but A s (s'\<lparr>cpu_cr3 := r\<rparr>) = envs_but A s s'"
  "envs_but A s (s'\<lparr>cpu_cr0 := r\<rparr>) = envs_but A s s'" "envs_but A s (s'\<lparr>cpu_cr4 := r\<rparr>) = envs_but A s s'"
  "envs_but A s (s'\<lparr>msrs := m\<rparr>) = envs_but A s s'" "envs_but A s (s'\<lparr>user_mem_check_addr := r\<rparr>) = envs_but A s s'"
  "envs_but A s (s'\<lparr>is_vmx_root := b, vmxon_region := q\<rparr>) = envs_but A s s'"
  by (auto simp: envs_but_def page_incref_def)

lemma envs_but_upds_left [simp]:
  "envs_but A (st f i v s) s' = envs_but A s s'" "envs_but A (upd_page p g s) s' = envs_but A s s'"
  "envs_but A (page_incref p s) s' = envs_but A s s'"
  "e \<in> A \<Longrightarrow> envs_but A (upd_env e h s) s' = envs_but A s s'"
  "envs_but A (s\<lparr>kcons := k\<rparr>) s' = envs_but A s s'" "envs_but A (s\<lparr>cpu_cr3 := r\<rparr>) s' = envs_but A s s'"
  "envs_but A (s\<lparr>curenv := c\<rparr>) s' = envs_but A s s'"
  "envs_but A (s\<lparr>cpu_cr0 := r\<rparr>) s' = envs_but A s s'" "envs_but A (s\<lparr>cpu_cr4 := r\<rparr>) s' = envs_but A s s'"
  "envs_but A (s\<lparr>msrs := m\<rparr>) s' = envs_but A s s'"
  by (auto simp: envs_but_def page_incref_def)

subsection \<open>Which environments a function may change\<close>

lemmas map_envs = map_frame [THEN map_onlyD(6)]

lemma fold_opt_envs:
  assumes "fold_opt f xs s = Some s'" and "\<And>x s s'. f x s = Some s' \<Longrightarrow> envs s' = envs s"
  shows "envs s' = envs s"
  by (rule fold_opt_inv [where I = "\<lambda>s'. envs s' = envs s", OF assms(1)]) (auto dest!: assms(2))

lemma page_incref_envs [simp]: "envs (page_incref p s) = envs s" "curenv (page_incref p s) = curenv s"
  by (simp_all add: page_incref_def)

lemma ept_lookup_envs: "ept_lookup_gpa s r gpa c = Some (x, s') \<Longrightarrow> envs s' = envs s"
  by (auto simp: ept_lookup_gpa_def ept_st_def Let_def split: option.splits if_splits Option.bind_splits
      dest!: map_envs)

lemma ept_map_envs: "ept_map_hva2gpa s r hva gpa perm ov = Some (x, s') \<Longrightarrow> envs s' = envs s"
  by (auto simp: ept_map_hva2gpa_def split: option.splits if_splits Option.bind_splits dest!: ept_lookup_envs)

lemma free_ept_level_envs: "free_ept_level n d s = Some s' \<Longrightarrow> envs s' = envs s"
proof (induction n arbitrary: d s s')
  case 0
  then show ?case
    by (auto elim!: fold_opt_envs split: if_splits Option.bind_splits dest!: map_envs)
next
  case (Suc n)
  show ?case
    by (rule fold_opt_envs [OF Suc.prems [unfolded free_ept_level.simps]])
      (auto simp: Let_def split: if_splits Option.bind_splits dest!: Suc.IH map_envs)
qed

lemma vmx_init_vmcs_envs: "vmx_init_vmcs s = Some (p, s') \<Longrightarrow> envs s' = envs s"
  by (auto simp: vmx_init_vmcs_def Let_def split: option.splits if_splits Option.bind_splits dest!: map_envs)

lemma vmx_init_vmxon_envs: "vmx_init_vmxon hw s = Some (r, s') \<Longrightarrow> envs s' = envs s"
  unfolding vmx_init_vmxon_def Let_def
  by (auto split: option.splits if_splits Option.bind_splits dest!: vmx_init_vmcs_envs map_envs)

lemma vmxon_envs: "vmxon hw s = Some (r, s') \<Longrightarrow> envs s' = envs s"
  by (auto simp: vmxon_def split: if_splits Option.bind_splits dest!: vmx_init_vmxon_envs)

lemma sched_yield_returned_envs:
  assumes "vmcs_loads hw" "sched_yield hw s = Some (Returned, s')"
  shows "envs s' = envs s"
proof -
  have "post (sched_yield hw s) (\<lambda>(out, s'). out = Returned \<longrightarrow> envs s' = envs s)"
    unfolding sched_yield_def Let_def
    by (intro post_intros postI; clarsimp simp: sched_halt_def split: if_splits dest!: vmxon_envs)
      (auto simp: run_guest_enters [OF assms(1)] split: option.splits if_splits)
  then show ?thesis
    using assms(2) by (auto dest: postD)
qed

lemma user_mem_check_envs: "user_mem_check s e va len perm = Some (r, s') \<Longrightarrow> envs s' = envs s \<and> curenv s' = curenv s"
proof -
  have "envs s' = envs s \<and> curenv s' = curenv s" if "user_mem_check_loop n s p va a perm = Some (r, s')" for n s p va a perm r s'
    using that by (induction n arbitrary: s a)
      (auto split: option.splits if_splits Option.bind_splits dest!: page_lookup_state)
  then show "user_mem_check s e va len perm = Some (r, s') \<Longrightarrow> envs s' = envs s \<and> curenv s' = curenv s"
    by (auto simp: user_mem_check_def Let_def)
qed

lemma user_puts_envs: "user_puts n va s = Some s' \<Longrightarrow> envs s' = envs s"
proof (induction n arbitrary: va s)
  case (Suc n)
  then show ?case
    by (auto split: Option.bind_splits if_splits dest!: Suc.IH)
qed (auto split: Option.bind_splits)

lemma env_setup_vm_but: "env_setup_vm e s = Some (r, s') \<Longrightarrow> envs_but {e} s s'"
proof -
  have "envs (fold (\<lambda>i s. if n \<le> i then st root i (g i s) s else s) xs s) = envs s" for n root g xs s
    by (induction xs arbitrary: s) auto
  then show "env_setup_vm e s = Some (r, s') \<Longrightarrow> envs_but {e} s s'"
    unfolding env_setup_vm_def Let_def
    by (auto simp: envs_but_def split: option.splits Option.bind_splits dest!: map_envs)
qed

lemma env_alloc_but: "env_alloc s p = Some (r, s') \<Longrightarrow> envs_but {e. env_free_list s = Some e} s s'"
  by (auto simp: env_alloc_def Let_def envs_but_def split: option.splits Option.bind_splits if_splits
      dest!: env_setup_vm_but)

lemma alloc_guest_page_but: "alloc_guest_page s e ps f = Some (r, s') \<Longrightarrow> envs_but {e} s s'"
proof -
  have "envs s' = envs s" if "page_decrefs ps s = Some s'" for ps s s'
    using that unfolding page_decrefs_def by (rule fold_opt_envs) (auto dest!: map_envs)
  then show "alloc_guest_page s e ps f = Some (r, s') \<Longrightarrow> envs_but {e} s s'"
    by (auto simp: alloc_guest_page_def Let_def envs_but_def split: option.splits Option.bind_splits dest!: map_envs)
qed

lemma env_guest_alloc_but: "env_guest_alloc s p = Some (r, s') \<Longrightarrow> envs_but {e. env_free_list s = Some e} s s'"
proof -
  have "post (env_guest_alloc s p) (\<lambda>(r, s'). envs_but {e. env_free_list s = Some e} s s')"
    unfolding env_guest_alloc_def Let_def
    by (intro post_intros; clarsimp dest!: map_envs vmx_init_vmcs_envs alloc_guest_page_but)
      (simp_all add: envs_but_def env_guest_commit_def)
  then show "env_guest_alloc s p = Some (r, s') \<Longrightarrow> envs_but {e. env_free_list s = Some e} s s'"
    by (auto dest: postD)
qed

lemma free_pdpe_entry_envs: "free_pdpe_entry e d i s = Some s' \<Longrightarrow> envs s' = envs s"
proof -
  have pt: "envs s' = envs s" if "fold_opt (free_pt_entry e i j t) xs s = Some s'" for i j t xs s s'
    by (rule fold_opt_envs [OF that]) (auto simp: free_pt_entry_def split: if_splits dest!: map_envs)
  have pd: "envs s' = envs s" if "fold_opt (free_pgdir_entry e i t) xs s = Some s'" for i t xs s s'
    by (rule fold_opt_envs [OF that])
      (auto simp: free_pgdir_entry_def Let_def split: if_splits Option.bind_splits dest!: map_envs pt)
  show "free_pdpe_entry e d i s = Some s' \<Longrightarrow> envs s' = envs s"
    by (auto simp: free_pdpe_entry_def Let_def split: if_splits Option.bind_splits dest!: map_envs pd)
qed

lemma env_free_but: "env_free e s = Some s' \<Longrightarrow> envs_but {e} s s'"
proof -
  have pdp: "envs s' = envs s" if "fold_opt (free_pdpe_entry e d) xs s = Some s'" for d xs s s'
    by (rule fold_opt_envs [OF that free_pdpe_entry_envs])
  have "post (env_free e s) (envs_but {e} s)"
    unfolding env_free_def Let_def
    by (intro post_intros; clarsimp dest!: pdp map_envs split: if_splits) (simp_all add: envs_but_def)
  then show "env_free e s = Some s' \<Longrightarrow> envs_but {e} s s'"
    by (rule postD)
qed

lemma env_guest_free_but: "env_guest_free e s = Some s' \<Longrightarrow> envs_but {e} s s'"
proof -
  have "post (env_guest_free e s) (envs_but {e} s)"
    unfolding env_guest_free_def Let_def
    by (intro post_intros; clarsimp simp: free_guest_mem_def dest!: free_ept_level_envs map_envs; simp add: envs_but_def)
  then show "env_guest_free e s = Some s' \<Longrightarrow> envs_but {e} s s'"
    by (rule postD)
qed

lemma env_destroy_but:
  assumes "vmcs_loads hw" "env_destroy hw e s = Some (Returned, s')"
  shows "envs_but {e} s s'"
proof -
  have "post (env_destroy hw e s) (\<lambda>(out, s'). out = Returned \<longrightarrow> envs_but {e} s s')"
    unfolding env_destroy_def
    by (intro post_intros postI; clarsimp split: if_splits
        dest!: sched_yield_returned_envs [OF assms(1)] env_free_but env_guest_free_but)
      (simp_all add: envs_but_def)
  then show ?thesis
    using assms(2) by (auto dest: postD)
qed

subsection \<open>System calls\<close>

text \<open>
  The environments that a system call of the current environment may change: itself, its
  children, free slots, and environments that wait for a message.
\<close>

definition reach_of :: "kern \<Rightarrow> nat set" where
  "reach_of s = {e. (\<exists>c. curenv s = Some c \<and> (e = c \<or> env_parent_id (envs s e) = env_id (envs s c))) \<or>
     env_free_list s = Some e \<or> env_ipc_recving (envs s e)}"

definition ret_but :: "nat set \<Rightarrow> kern \<Rightarrow> sysret \<times> kern \<Rightarrow> bool" where
  "ret_but A s = (\<lambda>(r, s'). case r of Ret _ \<Rightarrow> envs_but A s s' | NoRet _ \<Rightarrow> True)"

lemma ret_but_simps [simp]:
  "post (ret r s') (ret_but A s) = envs_but A s s'" "post (ret_err x s') (ret_but A s) = envs_but A s s'"
  by (simp_all add: ret_def ret_err_def ret_but_def)

lemma post_after:
  "(\<And>s1. m = Some (Returned, s1) \<Longrightarrow> post (k s1) (ret_but A s)) \<Longrightarrow> post (after m k) (ret_but A s)"
  unfolding after_def by (auto intro!: post_intros simp: ret_but_def)

lemma post_with_env:
  assumes "\<And>e. (cp \<Longrightarrow> e \<in> reach_of s) \<Longrightarrow> post (k e) (ret_but A s)"
  shows "post (with_env envid cp s k) (ret_but A s)"
proof -
  have "e \<in> reach_of s" if "envid2env s envid cp = Some (r, Some e)" cp for r e
    using envid2env_ok [OF that(1)] that(2) by (auto simp: reach_of_def)
  then have "post (k e) (ret_but A s)" if "envid2env s envid cp = Some (r, Some e)" for r e
    using assms that by blast
  then show ?thesis
    unfolding with_env_def by (auto intro!: post_intros)
qed

lemma syscall_env_but:
  assumes "vmcs_loads hw"
  shows "post (sys_env_destroy hw envid s) (ret_but (reach_of s) s)"
    "post (sys_env_set_status envid n s) (ret_but (reach_of s) s)"
    "post (sys_env_set_trapframe envid tfp s) (ret_but (reach_of s) s)"
    "post (sys_env_set_pgfault_upcall envid f s) (ret_but (reach_of s) s)"
  unfolding sys_env_destroy_def sys_env_set_status_def sys_env_set_trapframe_def sys_env_set_pgfault_upcall_def
  by (auto intro!: post_intros post_with_env post_after
      dest!: env_destroy_but [OF assms] intro: envs_but_mono)

lemma syscall_page_but:
  "post (sys_page_alloc envid va perm s) (ret_but A s)" "post (sys_page_map a x b y perm s) (ret_but A s)"
  "post (sys_page_unmap envid va s) (ret_but A s)" "post (sys_ept_map a x b y perm s) (ret_but A s)"
  unfolding sys_page_alloc_def sys_page_map_def sys_page_unmap_def sys_ept_map_def
  by (auto intro!: post_intros post_with_env simp: envs_but_def dest!: map_envs ept_map_envs)

lemma ipc_send_to_but:
  assumes [simp]: "e \<in> A"
  shows "post (ipc_send_to e val va perm s) (ret_but A s)"
  unfolding ipc_send_to_def ipc_finish_def Let_def
  by (intro post_intros; clarsimp dest!: page_lookup_state page_insert_frame [THEN map_onlyD(6)])
    (auto simp: envs_but_def)

lemma syscall_ipc_but:
  assumes "vmcs_loads hw"
  shows "post (sys_ipc_try_send envid val va perm s) (ret_but (reach_of s) s)"
    "post (sys_ipc_recv hw va s) (ret_but (reach_of s) s)"
proof -
  have c: "c \<in> reach_of s" if "curenv s = Some c" for c
    using that by (simp add: reach_of_def)
  show "post (sys_ipc_try_send envid val va perm s) (ret_but (reach_of s) s)"
    unfolding sys_ipc_try_send_def
    by (auto intro!: post_intros post_with_env ipc_send_to_but simp: reach_of_def)
  show "post (sys_ipc_recv hw va s) (ret_but (reach_of s) s)"
    unfolding sys_ipc_recv_def Let_def
    by (intro post_intros post_after; clarsimp dest!: c sched_yield_returned_envs [OF assms])
      (auto simp: envs_but_def)
qed

lemma sys_exofork_but:
  assumes "{e. env_free_list s = Some e} \<subseteq> A"
  shows "post (sys_exofork s) (ret_but A s)"
proof -
  have but: "envs_but A s s1" if "env_alloc s p = Some (r, s1)" for p r s1
    using env_alloc_but [OF that] assms by (rule envs_but_mono)
  have "e \<in> A" if "env_alloc s p = Some ((r, Some e), s1)" for p r e s1
    using env_alloc_tab [OF that] assms by auto
  then show ?thesis
    unfolding sys_exofork_def Let_def by (auto intro!: post_intros dest: but)
qed

lemma sys_env_mkguest_but:
  assumes "{e. env_free_list s = Some e} \<subseteq> A"
  shows "post (sys_env_mkguest sz rip s) (ret_but A s)"
proof -
  have but: "envs_but A s s1" if "env_guest_alloc s p = Some (r, s1)" for p r s1
    using env_guest_alloc_but [OF that] assms by (rule envs_but_mono)
  have "e \<in> A" if "env_guest_alloc s p = Some ((r, Some e), s1)" for p r e s1
    using env_guest_alloc_tab [OF that] assms by auto
  then show ?thesis
    unfolding sys_env_mkguest_def Let_def by (auto intro!: post_intros dest: but)
qed

lemma syscall_but:
  assumes "vmcs_loads hw"
  shows "post (syscall hw no a1 a2 a3 a4 a5 s) (ret_but (reach_of s) s)"
proof -
  let ?P = "\<lambda>m. post m (ret_but (reach_of s) s)"
  have free: "{e. env_free_list s = Some e} \<subseteq> reach_of s"
    by (auto simp: reach_of_def)
  have yield: "?P (after (sched_yield hw s) sys_exofork)"
  proof (rule post_after)
    fix s1 assume "sched_yield hw s = Some (Returned, s1)"
    from sched_yield_returned [OF assms this] sched_yield_returned_envs [OF assms this]
    have *: "env_free_list s1 = env_free_list s" and "envs s1 = envs s"
      by (simp_all add: tab_sameD)
    then have "envs_but (reach_of s) s1 = envs_but (reach_of s) s"
      by (simp add: envs_but_def fun_eq_iff)
    with * have "ret_but (reach_of s) s1 = ret_but (reach_of s) s" "{e. env_free_list s1 = Some e} \<subseteq> reach_of s"
      using free by (auto simp: ret_but_def fun_eq_iff split: sysret.splits)
    then show "?P (sys_exofork s1)"
      using sys_exofork_but [of s1 "reach_of s"] by simp
  qed
  have cputs: "?P (sys_cputs hw a1 a2 s)"
  proof -
    have "envs_but (reach_of s) s s2" if "curenv s = Some c" "user_mem_assert hw s c str len perm = Some (Returned, s2)" for c str len perm s2
      using that by (auto simp: user_mem_assert_def envs_but_def reach_of_def split: Option.bind_splits if_splits
          dest!: user_mem_check_envs env_destroy_but [OF assms])
    then show ?thesis
      unfolding sys_cputs_def Let_def
      by (intro post_intros post_after; clarsimp dest!: user_puts_envs) (simp add: envs_but_def)
  qed
  have "?P (sys_cgetc s)" "?P (sys_getenvid s)"
    by (auto simp: sys_cgetc_def sys_getenvid_def split: prod.splits intro!: post_intros)
  then show ?thesis
    unfolding syscall_def using free
    by (intro post_if; simp add: syscall_env_but [OF assms] syscall_page_but syscall_ipc_but [OF assms]
        sys_exofork_but sys_env_mkguest_but yield cputs)
qed


text \<open>Two environments, of which the first runs and the second is a child of neither.\<close>

definition example_two :: kern where
  "example_two = tab_run 0 (tab_new 1 7 ENV_TYPE_USER example_tf (tab_new 0 0 ENV_TYPE_USER example_tf example_table))"

lemma example_two_ok:
  "kern_inv example_two" "curenv example_two = Some 0" "env_id (envs example_two 0) = 0x1000"
  "env_status (envs example_two 1) = ENV_RUNNABLE" "env_parent_id (envs example_two 1) = 7"
  "env_id (envs example_two 1) = 0x1001" "\<not> env_ipc_recving (envs example_two e)"
proof -
  let ?s1 = "tab_new 0 0 ENV_TYPE_USER example_tf example_table"
  have t: "table_ok example_table" "env_free_list example_table = Some 0" "env_link (envs example_table 0) = Some 1"
    using env_init_table [OF example_fresh] by (auto simp: example_table_def kern_inv_def env_init_def env_init_fold)
  have "table_ok ?s1"
    using t example_tf_ok by (intro table_ok_new) auto
  then have "table_ok (tab_new 1 7 ENV_TYPE_USER example_tf ?s1)"
    using t example_tf_ok by (intro table_ok_new) (auto simp: tab_new_def)
  then show "kern_inv example_two"
    unfolding example_two_def by (rule kern_inv_run) (simp add: live_def tab_new_def)
  show "curenv example_two = Some 0" "env_id (envs example_two 0) = 0x1000"
    "env_status (envs example_two 1) = ENV_RUNNABLE" "env_parent_id (envs example_two 1) = 7"
    "env_id (envs example_two 1) = 0x1001" "\<not> env_ipc_recving (envs example_two e)"
    by (simp_all add: example_two_def tab_run_def tab_new_def Let_def example_table_def env_init_def env_init_fold
        kern_zero_def zero_env_def next_generation_def)
qed


end
