(* ===== verification/Syscall_Props.thy ===== *)
theory Syscall_Props
  imports Isolation
begin

section \<open>What system calls do\<close>

text \<open>
  Sharing of pages, messages, and registers set by another environment. Each error that the
  code can return is a case of the statements.
\<close>

subsection \<open>Permissions\<close>

lemma bad_perm_scast:
  assumes "\<not> bad_perm perm"
  shows "(scast perm :: u64) = ucast perm" "perm AND 0xE07 = perm"
proof -
  have z: "perm AND NOT 0xE07 = 0"
    using assms by (simp add: bad_perm_def)
  have sub: "bit (0xE07 :: u32) n" if "bit perm n" for n
  proof (rule ccontr)
    assume "\<not> bit (0xE07 :: u32) n"
    with that have "bit (perm AND NOT 0xE07) n"
      using bit_imp_le_length [OF that] by (simp only: bit_and_iff bit_not_iff possible_bit_word) simp
    with z show False by simp
  qed
  have "\<not> bit (0xE07 :: u32) 31"
    by simp
  then have "\<not> bit perm 31"
    using sub by blast
  then have lt: "n < 31" if "bit perm n" for n
    using that bit_imp_le_length [OF that] by (cases "n = 31") auto
  have "bit (scast perm :: u64) n = bit (ucast perm :: u64) n" if "n < LENGTH(64)" for n
    using lt [of n] lt [of 31] that by (auto simp: bit_simps min_def)
  then show "(scast perm :: u64) = ucast perm"
    by (rule bit_word_eqI)
  show "perm AND 0xE07 = perm"
    by (rule bit_word_eqI) (auto simp: bit_and_iff dest: sub)
qed

lemma ucast_perm:
  "(ucast (p AND 0xE07 :: u32) :: u64) = ucast p AND 0xE07"
  by (simp add: unsigned_and_eq)

lemma bad_perm_mask:
  assumes "\<not> bad_perm perm"
  shows "(scast perm :: u64) AND NOT PTE_SYSCALL = 0" "unat (scast perm :: u64) < 4096"
    "(scast perm :: u64) AND (PTE_U OR PTE_P) = PTE_U OR PTE_P"
proof -
  have e: "(scast perm :: u64) = ucast perm AND 0xE07"
    using bad_perm_scast [OF assms] ucast_perm by metis
  show "(scast perm :: u64) AND NOT PTE_SYSCALL = 0"
    unfolding e by (simp add: and.assoc)
  show "unat (scast perm :: u64) < 4096"
  proof -
    have "ucast perm AND 0xE07 = take_bit 12 (ucast perm AND 0xE07 :: u64)"
      by (simp add: take_bit_eq_mask mask_eq_exp_minus_1 and.assoc)
    then show ?thesis
      unfolding e using unat_take_bit_less [of 12 "ucast perm AND 0xE07"] by simp
  qed
  have "(ucast (perm AND 5) :: u64) = 5"
    using assms by (simp add: bad_perm_def)
  then show "(scast perm :: u64) AND (PTE_U OR PTE_P) = PTE_U OR PTE_P"
    unfolding e by (simp add: and.assoc unsigned_and_eq)
qed

subsection \<open>Sharing pages\<close>

definition caller_may :: "kern \<Rightarrow> envid_t \<Rightarrow> nat \<Rightarrow> bool" where
  "caller_may s envid e \<longleftrightarrow>
     (\<exists>c. curenv s = Some c \<and> (if envid = 0 then e = c else env_status (envs s e) \<noteq> ENV_FREE \<and>
        env_id (envs s e) = envid \<and> ENVX envid = e \<and> (e = c \<or> env_parent_id (envs s e) = env_id (envs s c))))"

lemma envid2env_success:
  "envid2env s envid True = Some (r, Some e) \<longleftrightarrow> r = 0 \<and> caller_may s envid e"
  by (auto simp: envid2env_def caller_may_def Let_def split: if_splits Option.bind_splits)

lemma envid2env_sign: "envid2env s envid cp = Some (r, x) \<Longrightarrow> r \<le> 0 \<and> (x \<noteq> None \<longrightarrow> r = 0)"
  by (auto simp: envid2env_def Let_def split: if_splits Option.bind_splits)

lemma page_insert_sign: "page_insert s r p va perm = Some (x, s') \<Longrightarrow> x = 0 \<or> x = err E_NO_MEM"
  by (auto simp: page_insert_def Let_def split: option.splits if_splits Option.bind_splits)


subsection \<open>Messages\<close>

lemma ipc_send_plain:
  assumes "curenv s = Some c" "envid \<noteq> 0" "e = ENVX envid" "env_id (envs s e) = envid"
    and "env_status (envs s e) \<noteq> ENV_FREE" "env_ipc_recving (envs s e)"
    and "srcva = 0 \<or> UTOP \<le> srcva \<or> env_ipc_dstva (envs s e) = 0 \<or> UTOP \<le> env_ipc_dstva (envs s e)"
  shows "sys_ipc_try_send envid val srcva perm s = Some (Ret 0,
    upd_env e (\<lambda>v. v\<lparr>env_ipc_recving := False, env_ipc_from := env_id (envs s c), env_ipc_perm := 0,
      env_ipc_value := val, env_status := ENV_RUNNABLE\<rparr>) s)"
proof -
  have "envid2env s envid False = Some (0, Some e)"
    using assms(2-5) by (simp add: envid2env_def)
  then show ?thesis
    using assms(1,6,7) unfolding sys_ipc_try_send_def with_env_def ipc_send_to_def ipc_finish_def Let_def
    by (auto simp: ret_def upd_env_def not_le [symmetric])
qed

lemma ipc_send_refused:
  assumes "envid \<noteq> 0" "env_id (envs s (ENVX envid)) = envid" "\<not> env_ipc_recving (envs s (ENVX envid))"
    and "env_status (envs s (ENVX envid)) \<noteq> ENV_FREE"
  shows "sys_ipc_try_send envid val srcva perm s = Some (Ret (err E_IPC_NOT_RECV), s)"
  using assms by (simp add: sys_ipc_try_send_def with_env_def envid2env_def ret_err_def)


text \<open>The second environment of \<open>example_two\<close>, waiting for a message with a page at \<open>dst\<close>.\<close>

definition example_waiting :: "u64 \<Rightarrow> kern" where
  "example_waiting dst = upd_env 1 (\<lambda>v. v\<lparr>env_ipc_recving := True, env_status := ENV_NOT_RUNNABLE,
     env_ipc_dstva := dst\<rparr>) example_two"

lemma ENVX_1001: "ENVX 0x1001 = 1"
  by (simp add: ENVX_def)


lemma sched_yield_switch:
  "sched_yield hw s = Some (Switch d, s') \<Longrightarrow> env_run d s = Some s' \<and> env_status (envs s d) \<in> {ENV_RUNNABLE, ENV_RUNNING}"
  by (auto simp: sched_yield_def run_guest_def sched_halt_def Let_def
      split: option.splits if_splits Option.bind_splits vmrun.splits dest!: sched_search_Some)

lemma env_run_others:
  "env_run d s = Some s' \<Longrightarrow> e \<noteq> d \<Longrightarrow> \<not> (curenv s = Some e \<and> env_status (envs s e) = ENV_RUNNING) \<Longrightarrow>
   envs s' e = envs s e"
  by (auto simp: env_run_def env_pop_tf_def Let_def split: option.splits)

lemma env_run_ids:
  "env_run d s = Some s' \<Longrightarrow> curenv s' = Some d \<and> env_id (envs s' e) = env_id (envs s e)"
  by (auto simp: env_run_def env_pop_tf_def Let_def split: option.splits)





subsection \<open>Registers and memory\<close>

text \<open>
  C29. \<^verbatim>\<open>sys_env_set_trapframe\<close> installs the caller's flags register unchanged except for the
  interrupt flag: an environment can give itself or a child I/O privilege.
\<close>

theorem set_trapframe_keeps_iopl:
  assumes "caller_may s envid e" "read_tf s (pte_frame (cpu_cr3 s)) tfp = Some tf"
  shows "\<exists>s'. sys_env_set_trapframe envid tfp s = Some (Ret 0, s') \<and>
    tf_eflags (env_tf (envs s' e)) AND FL_IOPL_MASK = tf_eflags tf AND FL_IOPL_MASK"
proof -
  have "(x OR 0x200) AND 0x3000 = x AND 0x3000" for x :: u64
    by (simp add: bit.conj_disj_distrib2)
  moreover have "envid2env s envid True = Some (0, Some e)"
    using assms(1) by (simp add: envid2env_success)
  ultimately show ?thesis
    using assms(2) by (simp add: sys_env_set_trapframe_def with_env_def ret_def)
qed

text \<open>
  C36. \<^verbatim>\<open>sys_page_alloc\<close> with a bad address or bad permissions loses a page: the page it took
  is neither on the free list again nor referenced.
\<close>

theorem page_alloc_error_leaks:
  assumes "caller_may s envid e" "free_pages s (p # xs)" "bad_va va \<or> bad_perm perm"
  shows "\<exists>s'. sys_page_alloc envid va perm s = Some (Ret (err E_INVAL), s') \<and> free_pages s' xs \<and>
    p \<notin> set xs \<and> pp_ref (pages s' p) = 0"
proof -
  obtain h where "page_alloc s 0 = Some (Some p, taken s h p)" "free_pages (taken s h p) xs"
    using page_alloc_cons [OF assms(2)] by blast
  moreover have "envid2env s envid True = Some (0, Some e)"
    using assms(1) by (simp add: envid2env_success)
  moreover have "p \<notin> set xs" "pp_ref (pages (taken s h p) p) = 0"
    using assms(2) by (simp_all add: free_pages_def taken_def)
  ultimately show ?thesis
    using assms(3) by (auto simp: sys_page_alloc_def with_env_def ret_err_def)
qed

theorem page_alloc_error_leaks_witness:
  "\<exists>s'. sys_page_alloc 0 UTOP 7 (example_kern\<lparr>curenv := Some 0\<rparr>) = Some (Ret (err E_INVAL), s') \<and>
     free_pages s' [5, 6, 7, 8] \<and> pp_ref (pages s' 4) = 0"
proof -
  have "free_pages (example_kern\<lparr>curenv := Some 0\<rparr>) [4, 5, 6, 7, 8]"
    using example_kern_ok(1) by (simp add: free_pages_def)
  then show ?thesis
    using page_alloc_error_leaks [of "example_kern\<lparr>curenv := Some 0\<rparr>" 0 0 4 "[5, 6, 7, 8]" UTOP 7]
    by (auto simp: caller_may_def bad_va_def)
qed

subsection \<open>A mapped page as an example\<close>

text \<open>An environment whose page 0x800000 is mapped; the flags word of a trap frame there asks for I/O privilege.\<close>

definition example_space :: kern where
  "example_space = (st 8 21 0x3000 example_mapped)\<lparr>curenv := Some 0, cpu_cr3 := 0x1000\<rparr>"

lemma example_space_mem:
  "pmem example_space 1 0 = 0x2007" "pmem example_space 2 0 = 0x3007" "pmem example_space 3 4 = 0x9007"
  "pmem example_space 9 0 = 0x8007" "pmem example_space 9 1 = 0" "pmem example_space 8 21 = 0x3000"
  "npages example_space = 10" "env_pml4e (envs example_space 0) = Some 1" "curenv example_space = Some 0"
  "cpu_cr3 example_space = 0x1000"
  by (simp_all add: example_space_def example_mapped_def example_kern_ok) (simp_all add: example_kern_def kern_zero_def)

lemma example_frames:
  "pte_frame 0x2007 = 2" "pte_frame 0x3007 = 3" "pte_frame 0x9007 = 9" "pte_frame 0x8007 = 8" "pte_frame 0x1000 = 1"
  "pte_frame 0x8000 = 8"
  by (simp_all add: pte_frame_def PTE_ADDR_def PPN_def)

lemmas example_KADDR = KADDR_PTE [of "0x2007" example_space] KADDR_PTE [of "0x3007" example_space]
  KADDR_PTE [of "0x9007" example_space] pa2page_PTE [of "0x8007" example_space]

lemmas index_defs = PML4_def PDPE_def PDX_def PTX_def VPML4E_def VPDPE_def VPD_def PPN_def

lemma example_walk:
  "pml4e_walk example_space (Some 1) 0x801000 True = Some (Some (9, 1), example_space)"
  "page_lookup example_space (Some 1) 0x800000 = Some (Some (8, 9, 0), example_space)"
  using example_KADDR
  by (simp_all add: page_lookup_def pml4e_walk_def pdpe_walk_def pgdir_walk_def index_defs example_space_mem [simplified]
      example_frames)


lemma example_space_load:
  assumes "unat va div 4096 = 0x800"
  shows "vm_load example_space 1 va =
    Some (get_byte (pmem example_space 8 (unat (PGOFF va) div 8)) (unat (PGOFF va) mod 8))"
proof -
  have "unat (ROUNDDOWN va PGSIZE) = unat (0x800000 :: u64)"
    unfolding unat_ROUNDDOWN_page assms by simp
  then have "ROUNDDOWN va PGSIZE = 0x800000"
    by (rule unsigned_word_eqI)
  with indices_ROUNDDOWN [of va]
  have "PML4 va = 0" "PDPE va = 0" "PDX va = 4" "PTX va = 0"
    by (simp_all add: index_defs)
  then show ?thesis
    using example_KADDR
    by (simp add: vm_load_def check_va2pa_def Let_def example_space_mem [simplified] example_frames)
qed

lemma vm_read_total:
  "(\<And>k. k < n \<Longrightarrow> vm_load s root (va + of_nat k) \<noteq> None) \<Longrightarrow> vm_read n s root va \<noteq> None"
proof (induction n arbitrary: va)
  case (Suc n)
  have "vm_load s root va \<noteq> None"
    using Suc.prems [of 0] by simp
  moreover have "vm_read n s root (va + 1) \<noteq> None"
  proof (rule Suc.IH)
    fix k assume "k < n"
    then show "vm_load s root (va + 1 + of_nat k) \<noteq> None"
      using Suc.prems [of "Suc k"] by (simp add: add.assoc)
  qed
  ultimately show ?case by auto
qed simp

lemma example_space_read:
  assumes "unat va = 0x800000 + k" "k + n \<le> 4096"
  shows "vm_read n example_space 1 va \<noteq> None"
proof (rule vm_read_total)
  fix j assume "j < n"
  then have "unat (va + of_nat j) = 0x800000 + (k + j)"
    using assms by (subst unat_add_lem [THEN iffD1]) (simp_all add: unat_of_nat)
  moreover have "k + j < 4096"
    using assms \<open>j < n\<close> by simp
  ultimately have "unat (va + of_nat j) div 4096 = 0x800"
    by simp
  from example_space_load [OF this] show "vm_load example_space 1 (va + of_nat j) \<noteq> None"
    by simp
qed

lemma take_bit_bytes:
  "(ucast (get_byte w j) :: u64) OR push_bit 8 (take_bit (8 * n) (drop_bit (8 * Suc j) w)) =
     take_bit (8 * Suc n) (drop_bit (8 * j) w)"
  by (rule bit_word_eqI) (auto simp: get_byte_def bit_simps le_diff_conv2 add.commute add.left_commute)

lemma vm_read_bytes:
  "(\<And>k. k < n \<Longrightarrow> vm_load s root (va + of_nat k) = Some (get_byte w (j + k))) \<Longrightarrow>
     vm_read n s root va = Some (take_bit (8 * n) (drop_bit (8 * j) w))"
proof (induction n arbitrary: va j)
  case (Suc n)
  have "vm_load s root va = Some (get_byte w j)"
    using Suc.prems [of 0] by simp
  moreover have "vm_read n s root (va + 1) = Some (take_bit (8 * n) (drop_bit (8 * Suc j) w))"
  proof (rule Suc.IH)
    fix k assume "k < n"
    then show "vm_load s root (va + 1 + of_nat k) = Some (get_byte w (Suc j + k))"
      using Suc.prems [of "Suc k"] by (simp add: add.assoc)
  qed
  ultimately show ?case
    using take_bit_bytes [of w j n] by simp
qed simp

lemma unat_and_FFF: "unat (a AND 0xFFF :: u64) = unat a mod 4096"
  unfolding and_0xFFF by (simp add: take_bit_eq_mod unat_mod)

lemma example_space_eflags: "vm_read 8 example_space 1 0x8000A8 = Some 0x3000"
proof -
  have "vm_read 8 example_space 1 0x8000A8 = Some (take_bit (8 * 8) (drop_bit (8 * 0) 0x3000))"
  proof (rule vm_read_bytes)
    fix k :: nat assume "k < 8"
    then have u: "unat (0x8000A8 + of_nat k :: u64) = 0x8000A8 + k"
      by (subst unat_add_lem [THEN iffD1]) (simp_all add: unat_of_nat)
    then have "unat (PGOFF (0x8000A8 + of_nat k)) = (0x8000A8 + k) mod 4096"
      by (simp add: PGOFF_def unat_and_FFF)
    also have "\<dots> = ((168 + k) + 2048 * 4096) mod 4096"
      by simp
    also have "\<dots> = 168 + k"
      unfolding mod_mult_self1 using \<open>k < 8\<close> by (intro mod_less) simp
    finally have "unat (PGOFF (0x8000A8 + of_nat k)) = 168 + k" .
    moreover have "(168 + k) div 8 = 21" "(168 + k) mod 8 = k"
      using \<open>k < 8\<close> mod_mult_self1 [of k 21 8] by (simp_all add: add.commute)
    ultimately show "vm_load example_space 1 (0x8000A8 + of_nat k) = Some (get_byte 0x3000 (0 + k))"
      using \<open>k < 8\<close> u by (subst example_space_load) (simp_all add: example_space_mem)
  qed
  then show ?thesis by simp
qed

lemma example_space_tf: "\<exists>tf. read_tf example_space 1 0x800000 = Some tf \<and> tf_eflags tf = 0x3000"
proof -
  have "vm_read n example_space 1 a \<noteq> None" if "0x800000 \<le> unat a" "unat a + n \<le> 0x801000" for n a
    using that by (intro example_space_read [of _ "unat a - 0x800000"]) simp_all
  moreover define f where "f n a = the (vm_read n example_space 1 a)" for n a
  ultimately have f: "vm_read n example_space 1 a = Some (f n a)"
    if "0x800000 \<le> unat a" "unat a + n \<le> 0x801000" for n a
    using that by simp
  then have "f 8 0x8000A8 = 0x3000"
    using f [of "0x8000A8" 8] example_space_eflags by simp
  then show ?thesis
    by (simp add: read_tf_def read_regs_def f [simplified])
qed

theorem set_trapframe_keeps_iopl_witness:
  "\<exists>s'. sys_env_set_trapframe 0 0x800000 example_space = Some (Ret 0, s') \<and>
     tf_eflags (env_tf (envs s' 0)) AND FL_IOPL_MASK = 0x3000"
proof -
  obtain tf where "read_tf example_space 1 0x800000 = Some tf" "tf_eflags tf = 0x3000"
    using example_space_tf by blast
  moreover have "caller_may example_space 0 0"
    by (simp add: caller_may_def example_space_mem)
  ultimately show ?thesis
    using set_trapframe_keeps_iopl [of example_space 0 0 "0x800000" tf] example_space_mem example_frames
    by simp
qed

end
