(* ===== verification/Monitor_Cmd.thy ===== *)
theory Monitor_Cmd
  imports JOS_Prelude
begin

section \<open>The kernel monitor's command interpreter\<close>

text \<open>
  \<^verbatim>\<open>kern/monitor.c\<close>: splitting a line into arguments and running the command. The result is
  what the command returns (a negative number would end the monitor) with the number of the
  command that ran, if any. What the commands print is not modelled.
\<close>

definition MAXARGS :: nat where [simp]: "MAXARGS = 16"

definition whitespace :: "char \<Rightarrow> bool" where
  "whitespace c \<longleftrightarrow> c \<in> {CHR 0x09, CHR 0x0D, CHR 0x0A, CHR '' ''}"

text \<open>The scanning loop with the arguments found so far; \<open>None\<close> if there are too many.\<close>

function scan_args :: "string \<Rightarrow> string list \<Rightarrow> string list option" where
  "scan_args buf argv =
     (let rest = dropWhile whitespace buf
      in if rest = [] then Some argv
         else if length argv = MAXARGS - 1 then None
         else scan_args (dropWhile (\<lambda>c. \<not> whitespace c) rest) (argv @ [takeWhile (\<lambda>c. \<not> whitespace c) rest]))"
  by pat_completeness auto
termination
proof (relation "measure (\<lambda>(buf, argv). length buf)", simp)
  fix buf argv rest
  assume r: "rest = dropWhile whitespace buf" "rest \<noteq> []"
  then have "\<not> whitespace (hd rest)"
    using hd_dropWhile by blast
  then have "length (dropWhile (\<lambda>c. \<not> whitespace c) rest) < length rest"
    using r(2) by (cases rest) (simp_all add: length_dropWhile_le less_Suc_eq_le)
  also have "\<dots> \<le> length buf"
    by (simp add: r(1) length_dropWhile_le)
  finally show "((dropWhile (\<lambda>c. \<not> whitespace c) rest, argv @ [takeWhile (\<lambda>c. \<not> whitespace c) rest]), buf, argv)
      \<in> measure (\<lambda>(buf, argv). length buf)"
    by simp
qed

declare scan_args.simps [simp del]

definition commands :: "string list" where
  "commands = [''help'', ''kerninfo'']"

definition mon_help :: "string list \<Rightarrow> int" where "mon_help argv = 0"
definition mon_kerninfo :: "string list \<Rightarrow> int" where "mon_kerninfo argv = 0"

definition runcmd :: "string \<Rightarrow> int \<times> nat option" where
  "runcmd buf =
     (case scan_args buf [] of
        None \<Rightarrow> (0, None)
      | Some [] \<Rightarrow> (0, None)
      | Some (cmd # args) \<Rightarrow>
          if cmd = commands ! 0 then (mon_help (cmd # args), Some 0)
          else if cmd = commands ! 1 then (mon_kerninfo (cmd # args), Some 1)
          else (0, None))"

text \<open>
  The loop of \<^verbatim>\<open>monitor\<close> on the lines typed so far (\<open>None\<close> is a null pointer from
  \<^verbatim>\<open>readline\<close>): whether it has ended.
\<close>

fun monitor_ends :: "string option list \<Rightarrow> bool" where
  "monitor_ends [] = False"
| "monitor_ends (None # ls) = monitor_ends ls"
| "monitor_ends (Some buf # ls) = (if fst (runcmd buf) < 0 then True else monitor_ends ls)"

end
