(* ===== verification/Libc.thy ===== *)
theory Libc
  imports JOS_Prelude
begin

section \<open>Strings and memory\<close>

text \<open>
  \<^verbatim>\<open>lib/string.c\<close>. The memory is a function from addresses to bytes, and a routine that writes
  returns the new memory. A loop that runs to a null byte may not end; it is a
  \<open>partial_function\<close> whose value is then \<open>None\<close>. A loop that counts down is recursion on its
  count. Each read is of the memory at that moment, so that overlapping arguments are
  treated as the code treats them.

  The lemmas: the string functions on null-terminated strings; \<^verbatim>\<open>memset\<close> and \<^verbatim>\<open>memmove\<close>, which store
  four bytes at a time where they can, in either direction, are the plain byte fill and the plain
  copy, overlapping regions included.
\<close>

type_synonym mem = "u64 \<Rightarrow> u8"

subsection \<open>Strings\<close>

partial_function (option) strlen_loop :: "mem \<Rightarrow> u64 \<Rightarrow> u32 \<Rightarrow> u32 option" where
  "strlen_loop m s n = (if m s = 0 then Some n else strlen_loop m (s + 1) (n + 1))"

definition strlen :: "mem \<Rightarrow> u64 \<Rightarrow> u32 option" where
  "strlen m s = strlen_loop m s 0"

primrec strnlen_loop :: "nat \<Rightarrow> mem \<Rightarrow> u64 \<Rightarrow> u32 \<Rightarrow> u32" where
  "strnlen_loop 0 m s n = n"
| "strnlen_loop (Suc k) m s n = (if m s = 0 then n else strnlen_loop k m (s + 1) (n + 1))"

definition strnlen :: "mem \<Rightarrow> u64 \<Rightarrow> u64 \<Rightarrow> u32" where
  "strnlen m s sz = strnlen_loop (unat sz) m s 0"

partial_function (option) strcpy :: "u64 \<Rightarrow> u64 \<Rightarrow> mem \<Rightarrow> mem option" where
  "strcpy dst src m =
     (let m1 = m(dst := m src) in if m1 dst \<noteq> 0 then strcpy (dst + 1) (src + 1) m1 else Some m1)"

definition strcat :: "u64 \<Rightarrow> u64 \<Rightarrow> mem \<Rightarrow> mem option" where
  "strcat dst src m = do { len \<leftarrow> strlen m dst; strcpy (dst + scast len) src m }"

primrec strncpy_loop :: "nat \<Rightarrow> u64 \<Rightarrow> u64 \<Rightarrow> mem \<Rightarrow> mem" where
  "strncpy_loop 0 dst src m = m"
| "strncpy_loop (Suc k) dst src m =
     (let m1 = m(dst := m src) in strncpy_loop k (dst + 1) (if m1 src \<noteq> 0 then src + 1 else src) m1)"

definition strncpy :: "u64 \<Rightarrow> u64 \<Rightarrow> u64 \<Rightarrow> mem \<Rightarrow> mem" where
  "strncpy dst src sz m = strncpy_loop (unat sz) dst src m"

text \<open>\<open>strlcpy_loop k\<close> runs with \<open>k\<close> bytes of room besides the one for the final null byte.\<close>

primrec strlcpy_loop :: "nat \<Rightarrow> u64 \<Rightarrow> u64 \<Rightarrow> mem \<Rightarrow> u64 \<times> mem" where
  "strlcpy_loop 0 dst src m = (dst, m)"
| "strlcpy_loop (Suc k) dst src m =
     (if m src \<noteq> 0 then strlcpy_loop k (dst + 1) (src + 1) (m(dst := m src)) else (dst, m))"

definition strlcpy :: "u64 \<Rightarrow> u64 \<Rightarrow> u64 \<Rightarrow> mem \<Rightarrow> u64 \<times> mem" where
  "strlcpy dst src sz m =
     (if sz > 0
      then let (d, m1) = strlcpy_loop (unat (sz - 1)) dst src m in (d - dst, m1(d := 0))
      else (0, m))"

definition char_diff :: "u8 \<Rightarrow> u8 \<Rightarrow> int" where
  "char_diff a b = uint a - uint b"

partial_function (option) strcmp :: "mem \<Rightarrow> u64 \<Rightarrow> u64 \<Rightarrow> int option" where
  "strcmp m p q =
     (if m p \<noteq> 0 \<and> m p = m q then strcmp m (p + 1) (q + 1) else Some (char_diff (m p) (m q)))"

primrec strncmp_loop :: "nat \<Rightarrow> mem \<Rightarrow> u64 \<Rightarrow> u64 \<Rightarrow> int" where
  "strncmp_loop 0 m p q = 0"
| "strncmp_loop (Suc k) m p q =
     (if m p \<noteq> 0 \<and> m p = m q then strncmp_loop k m (p + 1) (q + 1) else char_diff (m p) (m q))"

definition strncmp :: "mem \<Rightarrow> u64 \<Rightarrow> u64 \<Rightarrow> u64 \<Rightarrow> int" where
  "strncmp m p q n = strncmp_loop (unat n) m p q"

text \<open>\<open>strchr\<close> returns the null pointer as 0.\<close>

partial_function (option) strchr :: "mem \<Rightarrow> u64 \<Rightarrow> u8 \<Rightarrow> u64 option" where
  "strchr m s c =
     (if m s = 0 then Some 0 else if m s = c then Some s else strchr m (s + 1) c)"

partial_function (option) strfind :: "mem \<Rightarrow> u64 \<Rightarrow> u8 \<Rightarrow> u64 option" where
  "strfind m s c =
     (if m s = 0 then Some s else if m s = c then Some s else strfind m (s + 1) c)"

subsection \<open>Memory blocks\<close>

text \<open>The string instructions with a repeat count, forwards; the backward ones run with the direction flag set.\<close>

primrec rep_stosb :: "nat \<Rightarrow> u64 \<Rightarrow> u8 \<Rightarrow> mem \<Rightarrow> mem" where
  "rep_stosb 0 d c m = m"
| "rep_stosb (Suc k) d c m = rep_stosb k (d + 1) c (m(d := c))"

definition store4 :: "u64 \<Rightarrow> u32 \<Rightarrow> mem \<Rightarrow> mem" where
  "store4 d w m =
     m(d := ucast w, d + 1 := ucast (drop_bit 8 w), d + 2 := ucast (drop_bit 16 w), d + 3 := ucast (drop_bit 24 w))"

primrec rep_stosl :: "nat \<Rightarrow> u64 \<Rightarrow> u32 \<Rightarrow> mem \<Rightarrow> mem" where
  "rep_stosl 0 d w m = m"
| "rep_stosl (Suc k) d w m = rep_stosl k (d + 4) w (store4 d w m)"

definition copy4 :: "u64 \<Rightarrow> u64 \<Rightarrow> mem \<Rightarrow> mem" where
  "copy4 d s m = m(d := m s, d + 1 := m (s + 1), d + 2 := m (s + 2), d + 3 := m (s + 3))"

primrec rep_movsb :: "u64 \<Rightarrow> nat \<Rightarrow> u64 \<Rightarrow> u64 \<Rightarrow> mem \<Rightarrow> mem" where
  "rep_movsb step 0 d s m = m"
| "rep_movsb step (Suc k) d s m = rep_movsb step k (d + step) (s + step) (m(d := m s))"

primrec rep_movsl :: "u64 \<Rightarrow> nat \<Rightarrow> u64 \<Rightarrow> u64 \<Rightarrow> mem \<Rightarrow> mem" where
  "rep_movsl step 0 d s m = m"
| "rep_movsl step (Suc k) d s m = rep_movsl step k (d + 4 * step) (s + 4 * step) (copy4 d s m)"

definition memset :: "u64 \<Rightarrow> u32 \<Rightarrow> u64 \<Rightarrow> mem \<Rightarrow> mem" where
  "memset v c n m =
     (if n = 0 then m
      else if v mod 4 = 0 \<and> n mod 4 = 0
      then let c = c AND 0xFF; c = push_bit 24 c OR push_bit 16 c OR push_bit 8 c OR c
           in rep_stosl (unat (n div 4)) v c m
      else rep_stosb (unat n) v (ucast c) m)"

definition memmove :: "u64 \<Rightarrow> u64 \<Rightarrow> u64 \<Rightarrow> mem \<Rightarrow> mem" where
  "memmove dst src n m =
     (if src < dst \<and> src + n > dst
      then let s = src + n; d = dst + n
           in if s mod 4 = 0 \<and> d mod 4 = 0 \<and> n mod 4 = 0
              then rep_movsl (- 1) (unat (n div 4)) (d - 4) (s - 4) m
              else rep_movsb (- 1) (unat n) (d - 1) (s - 1) m
      else if src mod 4 = 0 \<and> dst mod 4 = 0 \<and> n mod 4 = 0
      then rep_movsl 1 (unat (n div 4)) dst src m
      else rep_movsb 1 (unat n) dst src m)"

definition memcpy :: "u64 \<Rightarrow> u64 \<Rightarrow> u64 \<Rightarrow> mem \<Rightarrow> mem" where
  "memcpy dst src n m = memmove dst src n m"

primrec memcmp_loop :: "nat \<Rightarrow> mem \<Rightarrow> u64 \<Rightarrow> u64 \<Rightarrow> int" where
  "memcmp_loop 0 m s1 s2 = 0"
| "memcmp_loop (Suc k) m s1 s2 =
     (if m s1 \<noteq> m s2 then char_diff (m s1) (m s2) else memcmp_loop k m (s1 + 1) (s2 + 1))"

definition memcmp :: "mem \<Rightarrow> u64 \<Rightarrow> u64 \<Rightarrow> u64 \<Rightarrow> int" where
  "memcmp m v1 v2 n = memcmp_loop (unat n) m v1 v2"

lemma unat_Suc_less:
  assumes "s < (e :: u64)"
  shows "unat (s + 1) = Suc (unat s)"
proof -
  have "unat e < 2 ^ 64"
    using unsigned_less [of e] by simp
  with assms show ?thesis
    by (simp add: word_less_nat_alt unat_word_ariths)
qed

function memfind_loop :: "mem \<Rightarrow> u64 \<Rightarrow> u64 \<Rightarrow> u8 \<Rightarrow> u64" where
  "memfind_loop m s ends c =
     (if s < ends then if m s = c then s else memfind_loop m (s + 1) ends c else s)"
  by pat_completeness auto
termination
proof (relation "measure (\<lambda>(m, s, ends, c). unat ends - unat s)")
  fix m :: mem and s ends :: u64 and c :: u8
  assume "s < ends"
  then have "unat (s + 1) = Suc (unat s)" "unat s < unat ends"
    by (rule unat_Suc_less, simp add: word_less_nat_alt)
  then show "((m, s + 1, ends, c), m, s, ends, c) \<in> measure (\<lambda>(m, s, ends, c). unat ends - unat s)"
    by simp
qed simp

definition memfind :: "mem \<Rightarrow> u64 \<Rightarrow> u32 \<Rightarrow> u64 \<Rightarrow> u64" where
  "memfind m s c n = memfind_loop m s (s + n) (ucast c)"

subsection \<open>Numbers and substrings\<close>

text \<open>\<open>digit_val\<close>: the value of a digit in any base up to 36; \<open>None\<close> ends the number.\<close>

definition digit_val :: "u8 \<Rightarrow> u32 option" where
  "digit_val ch =
     (if 0x30 \<le> ch \<and> ch \<le> 0x39 then Some (ucast ch - 0x30)
      else if 0x61 \<le> ch \<and> ch \<le> 0x7A then Some (ucast ch - 0x61 + 10)
      else if 0x41 \<le> ch \<and> ch \<le> 0x5A then Some (ucast ch - 0x41 + 10)
      else None)"

partial_function (option) strtol_digits :: "mem \<Rightarrow> u64 \<Rightarrow> u32 \<Rightarrow> u64 \<Rightarrow> (u64 \<times> u64) option" where
  "strtol_digits m s base val =
     (case digit_val (m s) of
        None \<Rightarrow> Some (val, s)
      | Some dig \<Rightarrow> if sint dig \<ge> sint base then Some (val, s)
                    else strtol_digits m (s + 1) base (val * scast base + scast dig))"

partial_function (option) skip_blanks :: "mem \<Rightarrow> u64 \<Rightarrow> u64 option" where
  "skip_blanks m s = (if m s = 0x20 \<or> m s = 9 then skip_blanks m (s + 1) else Some s)"

definition strtol_sign :: "mem \<Rightarrow> u64 \<Rightarrow> bool \<times> u64" where
  "strtol_sign m s = (if m s = 0x2B then (False, s + 1) else if m s = 0x2D then (True, s + 1) else (False, s))"

definition strtol_base :: "mem \<Rightarrow> u64 \<Rightarrow> u32 \<Rightarrow> u64 \<times> u32" where
  "strtol_base m s base =
     (if (base = 0 \<or> base = 16) \<and> (m s = 0x30 \<and> m (s + 1) = 0x78) then (s + 2, 16)
      else if base = 0 \<and> m s = 0x30 then (s + 1, 8)
      else if base = 0 then (s, 10)
      else (s, base))"

definition strtol :: "mem \<Rightarrow> u64 \<Rightarrow> u32 \<Rightarrow> (u64 \<times> u64) option" where
  "strtol m s base =
     do {
       s1 \<leftarrow> skip_blanks m s;
       let (neg, s2) = strtol_sign m s1;
       let (s3, base1) = strtol_base m s2 base;
       (val, s4) \<leftarrow> strtol_digits m s3 base1 0;
       Some (if neg then - val else val, s4)
     }"

text \<open>The inner loop of \<open>strstr\<close>: the address after the next occurrence of the first character, if there is one.\<close>

partial_function (option) strstr_scan :: "mem \<Rightarrow> u64 \<Rightarrow> u8 \<Rightarrow> u64 option option" where
  "strstr_scan m p c =
     (if m p = 0 then Some None else if m p = c then Some (Some (p + 1)) else strstr_scan m (p + 1) c)"

partial_function (option) strstr_loop :: "mem \<Rightarrow> u64 \<Rightarrow> u64 \<Rightarrow> u8 \<Rightarrow> u64 \<Rightarrow> u64 option" where
  "strstr_loop m p str c len =
     Option.bind (strstr_scan m p c) (\<lambda>r.
       case r of
         None \<Rightarrow> Some 0
       | Some q \<Rightarrow> if strncmp m q str len \<noteq> 0 then strstr_loop m q str c len else Some (q - 1))"

definition strstr :: "mem \<Rightarrow> u64 \<Rightarrow> u64 \<Rightarrow> u64 option" where
  "strstr m p str =
     (if m str = 0 then Some p
      else do { len \<leftarrow> strlen m (str + 1); strstr_loop m p (str + 1) (m str) (scast len) })"

subsection \<open>Blocks of memory\<close>

text \<open>
  \<open>copied d s n m\<close>: \<open>n\<close> bytes from \<open>s\<close> copied to \<open>d\<close>, all read before any is written.
  \<open>filled d n c m\<close>: \<open>n\<close> bytes from \<open>d\<close> on set to \<open>c\<close>.
\<close>

definition copied :: "u64 \<Rightarrow> u64 \<Rightarrow> nat \<Rightarrow> mem \<Rightarrow> mem" where
  "copied d s n m = (\<lambda>a. if unat (a - d) < n then m (s + (a - d)) else m a)"

definition filled :: "u64 \<Rightarrow> nat \<Rightarrow> u8 \<Rightarrow> mem \<Rightarrow> mem" where
  "filled d n c m = (\<lambda>a. if unat (a - d) < n then c else m a)"

lemma unat_minus_of_nat:
  "j \<le> unat x \<Longrightarrow> unat (x - of_nat j :: u64) = unat x - j"
  "unat x < j \<Longrightarrow> j < 2 ^ 64 \<Longrightarrow> unat (x - of_nat j :: u64) = 2 ^ 64 + unat x - j"
proof -
  assume "j \<le> unat x"
  moreover have "unat x < 2 ^ 64"
    using unsigned_less [of x] by simp
  ultimately show "unat (x - of_nat j :: u64) = unat x - j"
    by (simp add: unat_sub_if' unat_of_nat)
next
  assume "unat x < j" "j < 2 ^ 64"
  then show "unat (x - of_nat j :: u64) = 2 ^ 64 + unat x - j"
    by (simp add: unat_sub_if' unat_of_nat)
qed

lemma copied_0 [simp]: "copied d s 0 m = m"
  by (simp add: copied_def)

lemma copied_same [simp]: "copied d d n m = m"
  by (auto simp: copied_def)

lemma copied_1: "m(d := m s) = copied d s 1 m"
  by (auto simp: copied_def fun_eq_iff unat_eq_zero)

lemma copied_4: "copy4 d s m = copied d s 4 m"
proof
  fix a
  have "unat (a - d) < 4 \<longleftrightarrow> a - d = 0 \<or> a - d = 1 \<or> a - d = 2 \<or> a - d = 3"
    by (auto simp: word_unat_eq_iff)
  then have "unat (a - d) < 4 \<longleftrightarrow> a = d \<or> a = d + 1 \<or> a = d + 2 \<or> a = d + 3"
    by (auto simp: diff_eq_eq add.commute)
  then show "copy4 d s m a = copied d s 4 m a"
    by (auto simp: copied_def copy4_def)
qed

lemma copied_forward:
  assumes "d = s \<or> j + k \<le> unat (d - s)"
  shows "copied (d + of_nat j) (s + of_nat j) k (copied d s j m) = copied d s (j + k) m"
proof (cases "d = s")
  case False
  with assms have le: "j + k \<le> unat (d - s)"
    by simp
  have lim: "unat (d - s) < 2 ^ 64"
    using unsigned_less [of "d - s"] by simp
  show ?thesis
  proof
    fix a
    have e: "a - (d + of_nat j) = (a - d) - of_nat j" "s + of_nat j + (a - (d + of_nat j)) = s + (a - d)"
      by simp_all
    have rd: "copied d s j m (s + (a - d)) = m (s + (a - d))" if "j \<le> unat (a - d)" "unat (a - d) < j + k"
    proof -
      have "s + (a - d) - d = (a - d) - of_nat (unat (d - s))"
        by simp
      then have "unat (s + (a - d) - d) = 2 ^ 64 + unat (a - d) - unat (d - s)"
        using that le lim by (simp only: unat_minus_of_nat(2))
      then have "\<not> unat (s + (a - d) - d) < j"
        using that lim by linarith
      then show ?thesis
        by (simp only: copied_def if_False)
    qed
    show "copied (d + of_nat j) (s + of_nat j) k (copied d s j m) a = copied d s (j + k) m a"
    proof (cases "j \<le> unat (a - d)")
      case True
      then show ?thesis
        using rd unfolding copied_def [of "d + of_nat j"] e unat_minus_of_nat(1) [OF True]
        by (auto simp: copied_def)
    next
      case False
      then have "unat (a - d - of_nat j) = 2 ^ 64 + unat (a - d) - j"
        using le lim by (intro unat_minus_of_nat(2)) simp_all
      then have "\<not> unat (a - d - of_nat j) < k"
        using False le lim by linarith
      then show ?thesis
        using False unfolding copied_def [of "d + of_nat j"] e by (simp add: copied_def)
    qed
  qed
qed simp

lemma copied_backward:
  assumes "d = s \<or> j + k \<le> unat (s - d)"
  shows "copied d s j (copied (d + of_nat j) (s + of_nat j) k m) = copied d s (j + k) m"
proof (cases "d = s")
  case False
  with assms have le: "j + k \<le> unat (s - d)"
    by simp
  have lim: "unat (s - d) < 2 ^ 64"
    using unsigned_less [of "s - d"] by simp
  show ?thesis
  proof
    fix a
    have e: "a - (d + of_nat j) = (a - d) - of_nat j" "s + of_nat j + (a - (d + of_nat j)) = s + (a - d)"
      by simp_all
    have rd: "copied (d + of_nat j) (s + of_nat j) k m (s + (a - d)) = m (s + (a - d))" if "unat (a - d) < j"
    proof -
      have "s + (a - d) - (d + of_nat j) = (s - d) - of_nat (j - unat (a - d))"
        using that by (simp add: of_nat_diff)
      then have "unat (s + (a - d) - (d + of_nat j)) = unat (s - d) - (j - unat (a - d))"
        using le by (simp only: unat_minus_of_nat(1))
      then have "\<not> unat (s + (a - d) - (d + of_nat j)) < k"
        using that le by linarith
      then show ?thesis
        by (simp only: copied_def if_False)
    qed
    show "copied d s j (copied (d + of_nat j) (s + of_nat j) k m) a = copied d s (j + k) m a"
    proof (cases "j \<le> unat (a - d)")
      case True
      then show ?thesis
        unfolding copied_def [of d] copied_def [of "d + of_nat j"] e unat_minus_of_nat(1) [OF True]
        by auto
    next
      case False
      then show ?thesis
        using rd by (simp add: copied_def [of d])
    qed
  qed
qed simp

lemma rep_movsb_forward:
  "d = s \<or> k \<le> unat (d - s) \<Longrightarrow> rep_movsb 1 k d s m = copied d s k m"
proof (induction k arbitrary: d s m)
  case (Suc k)
  then have "rep_movsb 1 k (d + 1) (s + 1) (copied d s 1 m) = copied (d + 1) (s + 1) k (copied d s 1 m)"
    by (intro Suc.IH) auto
  then show ?case
    using copied_forward [of d s 1 k m] Suc.prems unfolding rep_movsb.simps copied_1 by simp
qed simp

lemma rep_movsl_forward:
  "d = s \<or> 4 * k \<le> unat (d - s) \<Longrightarrow> rep_movsl 1 k d s m = copied d s (4 * k) m"
proof (induction k arbitrary: d s m)
  case (Suc k)
  then have "rep_movsl 1 k (d + 4) (s + 4) (copied d s 4 m) = copied (d + 4) (s + 4) (4 * k) (copied d s 4 m)"
    by (intro Suc.IH) auto
  then show ?case
    using copied_forward [of d s 4 "4 * k" m] Suc.prems unfolding rep_movsl.simps copied_4 by simp
qed simp

lemma rep_movsb_backward:
  "d = s \<or> k \<le> unat (s - d) \<Longrightarrow>
     rep_movsb (- 1) k (d + of_nat k - 1) (s + of_nat k - 1) m = copied d s k m"
proof (induction k arbitrary: m)
  case (Suc k)
  have "rep_movsb (- 1) k (d + of_nat k - 1) (s + of_nat k - 1) (copied (d + of_nat k) (s + of_nat k) 1 m) =
      copied d s k (copied (d + of_nat k) (s + of_nat k) 1 m)"
    using Suc.prems by (intro Suc.IH) auto
  then show ?case
    using copied_backward [of d s k 1 m] Suc.prems unfolding rep_movsb.simps copied_1 by (simp add: add.commute)
qed simp

lemma rep_movsl_backward:
  "d = s \<or> 4 * k \<le> unat (s - d) \<Longrightarrow>
     rep_movsl (- 1) k (d + of_nat (4 * k) - 4) (s + of_nat (4 * k) - 4) m = copied d s (4 * k) m"
proof (induction k arbitrary: m)
  case (Suc k)
  let ?m = "copied (d + of_nat (4 * k)) (s + of_nat (4 * k)) 4 m"
  have "rep_movsl (- 1) k (d + of_nat (4 * k) - 4) (s + of_nat (4 * k) - 4) ?m = copied d s (4 * k) ?m"
    using Suc.prems by (intro Suc.IH) auto
  then show ?case
    using copied_backward [of d s "4 * k" 4 m] Suc.prems unfolding rep_movsl.simps copied_4
    by (simp add: algebra_simps)
qed simp

lemma div4_mult:
  assumes "n mod 4 = (0 :: u64)"
  shows "4 * unat (n div 4) = unat n" "of_nat (4 * unat (n div 4)) = n"
proof -
  have "unat (n mod 4) = 0"
    using assms by simp
  then have "unat n mod 4 = 0"
    by (simp only: unat_mod_distrib) simp
  then show "4 * unat (n div 4) = unat n"
    by (simp only: unat_div_distrib) auto
  then show "of_nat (4 * unat (n div 4)) = n"
    by simp
qed

lemma memmove_copied:
  assumes "unat src + unat n < 2 ^ 64" "unat dst + unat n \<le> 2 ^ 64"
  shows "memmove dst src n m = copied dst src (unat n) m"
proof -
  have unat_inv: "of_nat (unat x) = x" for x :: u64
    by simp
  have add: "unat (src + n) = unat src + unat n"
    using assms(1) by (intro unat_add_lem [THEN iffD1]) simp
  have bw: "unat n \<le> unat (src - dst)" if "src < dst \<and> dst < src + n"
    using that assms(2) by (auto simp: word_less_nat_alt add unat_sub_if')
  have fw: "dst = src \<or> unat n \<le> unat (dst - src)" if "\<not> (src < dst \<and> dst < src + n)"
    using that assms by (auto simp: word_less_nat_alt add unat_sub_if' not_less word_le_nat_alt word_unat_eq_iff)
  consider "src < dst \<and> dst < src + n" "(src + n) mod 4 = 0 \<and> (dst + n) mod 4 = 0 \<and> n mod 4 = 0"
    | "src < dst \<and> dst < src + n" "\<not> ((src + n) mod 4 = 0 \<and> (dst + n) mod 4 = 0 \<and> n mod 4 = 0)"
    | "\<not> (src < dst \<and> dst < src + n)" "src mod 4 = 0 \<and> dst mod 4 = 0 \<and> n mod 4 = 0"
    | "\<not> (src < dst \<and> dst < src + n)" "\<not> (src mod 4 = 0 \<and> dst mod 4 = 0 \<and> n mod 4 = 0)"
    by blast
  then show ?thesis
  proof cases
    case 1
    then show ?thesis
      using rep_movsl_backward [of dst src "unat (n div 4)" m] bw [OF 1(1)]
      unfolding memmove_def Let_def by (simp only: div4_mult if_True simp_thms unat_inv)
  next
    case 2
    then show ?thesis
      using rep_movsb_backward [of dst src "unat n" m] bw [OF 2(1)]
      unfolding memmove_def Let_def by (simp only: if_True if_False simp_thms unat_inv)
  next
    case 3
    then show ?thesis
      using rep_movsl_forward [of dst src "unat (n div 4)" m] fw [OF 3(1)]
      unfolding memmove_def Let_def by (simp only: div4_mult if_True if_False simp_thms)
  next
    case 4
    then show ?thesis
      using rep_movsb_forward [of dst src "unat n" m] fw [OF 4(1)]
      unfolding memmove_def Let_def by (simp only: if_True if_False simp_thms)
  qed
qed

lemma filled_1: "m(d := c) = filled d 1 c m"
  by (auto simp: filled_def fun_eq_iff unat_eq_zero)

lemma filled_4: "m(d := c, d + 1 := c, d + 2 := c, d + 3 := c) = filled d 4 c m"
proof
  fix a
  have "unat (a - d) < 4 \<longleftrightarrow> a - d = 0 \<or> a - d = 1 \<or> a - d = 2 \<or> a - d = 3"
    by (auto simp: word_unat_eq_iff)
  then have "unat (a - d) < 4 \<longleftrightarrow> a = d \<or> a = d + 1 \<or> a = d + 2 \<or> a = d + 3"
    by (auto simp: diff_eq_eq add.commute)
  then show "(m(d := c, d + 1 := c, d + 2 := c, d + 3 := c)) a = filled d 4 c m a"
    by (auto simp: filled_def)
qed

lemma filled_append:
  assumes "j + k \<le> 2 ^ 64"
  shows "filled (d + of_nat j) k c (filled d j c m) = filled d (j + k) c m"
proof
  fix a
  have e: "a - (d + of_nat j) = (a - d) - of_nat j"
    by simp
  show "filled (d + of_nat j) k c (filled d j c m) a = filled d (j + k) c m a"
  proof (cases "j \<le> unat (a - d)")
    case True
    then show ?thesis
      unfolding filled_def e unat_minus_of_nat(1) [OF True] by auto
  next
    case False
    then show ?thesis
      by (simp add: filled_def)
  qed
qed

lemma rep_stosb_filled: "k \<le> 2 ^ 64 \<Longrightarrow> rep_stosb k d c m = filled d k c m"
proof (induction k arbitrary: d m)
  case (Suc k)
  then show ?case
    using filled_append [of 1 k d c m] unfolding rep_stosb.simps filled_1 by simp
qed (simp add: filled_def)

definition bytes4 :: "u8 \<Rightarrow> u32" where
  "bytes4 c = push_bit 24 (ucast c) OR push_bit 16 (ucast c) OR push_bit 8 (ucast c) OR ucast c"

lemma store4_bytes4: "store4 d (bytes4 c) m = filled d 4 c m"
proof -
  have "(ucast (bytes4 c) :: u8) = c" "(ucast (drop_bit 8 (bytes4 c)) :: u8) = c"
    "(ucast (drop_bit 16 (bytes4 c)) :: u8) = c" "(ucast (drop_bit 24 (bytes4 c)) :: u8) = c"
    unfolding bytes4_def by (rule bit_word_eqI, auto simp: bit_simps dest: bit_imp_le_length)+
  then show ?thesis
    by (simp add: store4_def filled_4)
qed

lemma rep_stosl_filled: "4 * k \<le> 2 ^ 64 \<Longrightarrow> rep_stosl k d (bytes4 c) m = filled d (4 * k) c m"
proof (induction k arbitrary: d m)
  case (Suc k)
  then show ?case
    using filled_append [of 4 "4 * k" d c m] by (simp add: store4_bytes4)
qed (simp add: filled_def)

lemma memset_filled: "memset v c n m = filled v (unat n) (ucast c) m"
proof -
  have lim: "unat n < 2 ^ 64"
    using unsigned_less [of n] by simp
  have c: "c AND 0xFF = ucast (ucast c :: u8)"
    using take_bit_eq_mask [of 8 c] by (simp add: mask_eq_exp_minus_1 unsigned_ucast_eq)
  consider "n = 0" | "n \<noteq> 0" "v mod 4 = 0 \<and> n mod 4 = 0" | "n \<noteq> 0" "\<not> (v mod 4 = 0 \<and> n mod 4 = 0)"
    by blast
  then show ?thesis
  proof cases
    case 1
    then show ?thesis
      by (simp add: memset_def filled_def)
  next
    case 2
    then have "rep_stosl (unat (n div 4)) v (bytes4 (ucast c)) m = filled v (unat n) (ucast c) m"
      using rep_stosl_filled [of "unat (n div 4)" v "ucast c" m] lim div4_mult [of n] by simp
    then show ?thesis
      using 2 unfolding memset_def Let_def c bytes4_def by (simp only: if_True if_False simp_thms)
  next
    case 3
    then show ?thesis
      using rep_stosb_filled [of "unat n" v "ucast c" m] lim unfolding memset_def by auto
  qed
qed

subsection \<open>Null-terminated strings\<close>

text \<open>\<open>cstring m p cs\<close>: the string at \<open>p\<close> is \<open>cs\<close>; \<open>bytes_at\<close>: the bytes from \<open>p\<close> on start with \<open>bs\<close>.\<close>

primrec bytes_at :: "mem \<Rightarrow> u64 \<Rightarrow> u8 list \<Rightarrow> bool" where
  "bytes_at m p [] = True"
| "bytes_at m p (b # bs) = (m p = b \<and> bytes_at m (p + 1) bs)"

definition cstring :: "mem \<Rightarrow> u64 \<Rightarrow> u8 list \<Rightarrow> bool" where
  "cstring m p cs \<longleftrightarrow> bytes_at m p (cs @ [0]) \<and> 0 \<notin> set cs"

lemma cstring_Nil [simp]: "cstring m p [] \<longleftrightarrow> m p = 0"
  and cstring_Cons [simp]: "cstring m p (c # cs) \<longleftrightarrow> m p = c \<and> c \<noteq> 0 \<and> cstring m (p + 1) cs"
  by (auto simp: cstring_def)

lemma bytes_at_append: "bytes_at m p (xs @ ys) \<longleftrightarrow> bytes_at m p xs \<and> bytes_at m (p + of_nat (length xs)) ys"
  by (induction xs arbitrary: p) (simp_all add: add.assoc add.commute)

lemma strlen_loop_cstring: "cstring m p cs \<Longrightarrow> strlen_loop m p n = Some (n + of_nat (length cs))"
  by (induction cs arbitrary: p n) (subst strlen_loop.simps, simp add: add.commute add.left_commute)+

lemma strlen_cstring: "cstring m p cs \<Longrightarrow> strlen m p = Some (of_nat (length cs))"
  by (simp add: strlen_def strlen_loop_cstring)

lemma strcmp_cstring:
  "cstring m p xs \<Longrightarrow> cstring m q ys \<Longrightarrow>
     \<exists>r. strcmp m p q = Some r \<and> (r = 0 \<longleftrightarrow> xs = ys) \<and> (r < 0 \<longleftrightarrow> (xs, ys) \<in> lexord {(a, b). a < b})"
proof (induction xs arbitrary: p q ys)
  case Nil
  then show ?case
    by (cases ys) (simp_all add: strcmp.simps char_diff_def word_less_alt order_less_le unsigned_eq_0_iff)
next
  case (Cons x xs)
  show ?case
  proof (cases ys)
    case Nil
    with Cons.prems show ?thesis
      by (simp add: strcmp.simps char_diff_def unsigned_eq_0_iff)
  next
    case (Cons y ys')
    then show ?thesis
      using Cons.prems Cons.IH [of "p + 1" "q + 1" ys']
      by (cases "x = y") (auto simp: strcmp.simps [of m p] char_diff_def word_less_alt dest: word_uint_eqI)
  qed
qed

lemma bytes_at_upd:
  "length bs \<le> unat (a - p) \<Longrightarrow> bytes_at (m(a := v)) p bs = bytes_at m p bs"
proof (induction bs arbitrary: p)
  case (Cons b bs)
  then have "a - p \<noteq> 0"
    by auto
  then have "unat (a - (p + 1)) = unat (a - p) - 1"
    using unat_minus_one [of "a - p"] by (simp add: diff_diff_eq)
  with Cons show ?case
    by auto
qed simp

lemma cstring_step:
  assumes "cstring m src (c # cs)" "dst = src \<or> Suc (length (c # cs)) \<le> unat (dst - src)"
  shows "cstring (m(dst := m src)) (src + 1) cs"
proof (cases "dst = src")
  case False
  then have "dst - src \<noteq> 0"
    by simp
  then have "unat (dst - (src + 1)) = unat (dst - src) - 1"
    using unat_minus_one [of "dst - src"] by (simp add: diff_diff_eq)
  then show ?thesis
    using assms False unfolding cstring_Cons unfolding cstring_def by (subst bytes_at_upd) auto
qed (use assms in \<open>auto simp: fun_upd_idem\<close>)

lemma strcpy_copied:
  assumes "cstring m src cs" "dst = src \<or> Suc (length cs) \<le> unat (dst - src)"
  shows "strcpy dst src m = Some (copied dst src (Suc (length cs)) m)"
proof -
  have "strcpy dst src m = Some (rep_movsb 1 (Suc (length cs)) dst src m)"
    using assms
  proof (induction cs arbitrary: dst src m)
    case Nil
    then show ?case
      by (simp add: strcpy.simps fun_upd_def)
  next
    case (Cons c cs)
    then have "strcpy (dst + 1) (src + 1) (m(dst := m src)) =
        Some (rep_movsb 1 (Suc (length cs)) (dst + 1) (src + 1) (m(dst := m src)))"
      by (intro Cons.IH cstring_step) auto
    then show ?case
      using Cons.prems by (subst strcpy.simps) simp
  qed
  then show ?thesis
    using assms(2) by (simp only: rep_movsb_forward)
qed

text \<open>A copy bounded by the size of the destination: at most \<open>sz - 1\<close> characters and a null byte.\<close>

lemma strlcpy_copied:
  assumes "cstring m src cs" "dst = src \<or> Suc (length cs) \<le> unat (dst - src)" "0 < sz"
  defines "n \<equiv> min (unat sz - 1) (length cs)"
  shows "strlcpy dst src sz m = (of_nat n, (copied dst src n m)(dst + of_nat n := 0))"
proof -
  have "strlcpy_loop k dst src m =
      (dst + of_nat (min k (length cs)), rep_movsb 1 (min k (length cs)) dst src m)" for k
    using assms(1,2)
  proof (induction k arbitrary: cs dst src m)
    case (Suc k)
    show ?case
    proof (cases cs)
      case Nil
      with Suc.prems show ?thesis by simp
    next
      case (Cons c cs')
      then have "strlcpy_loop k (dst + 1) (src + 1) (m(dst := m src)) =
        (dst + 1 + of_nat (min k (length cs')), rep_movsb 1 (min k (length cs')) (dst + 1) (src + 1) (m(dst := m src)))"
        using Suc.prems by (intro Suc.IH cstring_step) auto
      then show ?thesis
        using Suc.prems Cons by simp
    qed
  qed simp
  moreover have "unat (sz - 1) = unat sz - 1"
    using assms(3) by (intro unat_minus_one) auto
  moreover have "rep_movsb 1 n dst src m = copied dst src n m"
    using assms(2) by (intro rep_movsb_forward) (auto simp: n_def)
  ultimately show ?thesis
    using assms(3) by (simp add: strlcpy_def n_def)
qed

subsection \<open>Reading numbers\<close>

text \<open>A run of digits of the base is folded into the value, 64 bits wide.\<close>

definition digits_val :: "u32 \<Rightarrow> u8 list \<Rightarrow> u64 \<Rightarrow> u64" where
  "digits_val base ds val = foldl (\<lambda>v d. v * scast base + scast (the (digit_val d))) val ds"

definition is_digit_of :: "u32 \<Rightarrow> u8 \<Rightarrow> bool" where
  "is_digit_of base ch \<longleftrightarrow> (case digit_val ch of None \<Rightarrow> False | Some d \<Rightarrow> sint d < sint base)"

lemma strtol_digits_run:
  "bytes_at m p (ds @ [e]) \<Longrightarrow> \<forall>d \<in> set ds. is_digit_of base d \<Longrightarrow> \<not> is_digit_of base e \<Longrightarrow>
     strtol_digits m p base val = Some (digits_val base ds val, p + of_nat (length ds))"
proof (induction ds arbitrary: p val)
  case Nil
  then show ?case
    by (subst strtol_digits.simps) (auto simp: is_digit_of_def digits_val_def split: option.splits)
next
  case (Cons d ds)
  then obtain v where "digit_val (m p) = Some v" "sint v < sint base"
    by (auto simp: is_digit_of_def split: option.splits)
  with Cons show ?case
    by (subst strtol_digits.simps) (simp add: digits_val_def add.assoc)
qed

lemma digits_val_snoc: "digits_val base (ds @ [d]) val = digits_val base ds val * scast base + scast (the (digit_val d))"
  by (simp add: digits_val_def)

lemma unat_diff_less:
  assumes "unat d + n \<le> 2 ^ 64"
  shows "unat (a - d :: u64) < n \<longleftrightarrow> unat d \<le> unat a \<and> unat a < unat d + n"
proof (cases "unat d \<le> unat a")
  case True
  then show ?thesis
    by (simp add: unat_sub_if') linarith
next
  case False
  then show ?thesis
    using assms by (simp add: unat_sub_if')
qed

text \<open>
  C23. \<^verbatim>\<open>memmove\<close>, whichever of its four loops it takes (by words or bytes, upwards or downwards), copies
  \<open>n\<close> bytes as if all were read before the first is written, also when the regions overlap, and
  changes nothing else. The source must not reach the end of the address space.
\<close>

theorem memmove_correct:
  assumes "unat src + unat n < 2 ^ 64" "unat dst + unat n \<le> 2 ^ 64"
  shows "memmove dst src n m =
    (\<lambda>a. if unat dst \<le> unat a \<and> unat a < unat dst + unat n then m (src + (a - dst)) else m a)"
  unfolding memmove_copied [OF assms] copied_def unat_diff_less [OF assms(2)] by (rule refl)

theorem memmove_correct_witness:
  "memmove 4 0 8 (\<lambda>a. ucast a) 11 = 7 \<and> memmove 1 0 4 (\<lambda>a. ucast a) 4 = 3"
  using fun_cong [OF memmove_correct [of 0 8 4 ucast], of 11] fun_cong [OF memmove_correct [of 0 4 1 ucast], of 4]
  by simp

end
