(* ===== verification/Printfmt.thy ===== *)
theory Printfmt
  imports Libc Console
begin

section \<open>Formatted output\<close>

text \<open>
  \<^verbatim>\<open>lib/printfmt.c\<close> and its clients \<^verbatim>\<open>kern/printf.c\<close>, \<^verbatim>\<open>lib/printf.c\<close> and \<^verbatim>\<open>lib/fprintf.c\<close>. A format
  string is the list of its bytes without the final null byte. The variable arguments are a
  list of slots: a 64-bit word, or a pointer to readable bytes, where \<open>Str None\<close> is the null pointer
  and a read past the end of the list is a fault. The result is the sequence of characters
  given to \<^verbatim>\<open>putch\<close>, or \<open>None\<close> for a fault or a missing argument.
\<close>

datatype varg = Num u64 | Str "u8 list option"

subsection \<open>Numbers\<close>

definition digit_char :: "u64 \<Rightarrow> u32" where
  "digit_char d = (map of_char ''0123456789abcdef'') ! unat d"

text \<open>
  \<open>printnum\<close> for a base of at least 2; with base 1 the recursion would not end and with base 0 the
  division faults. The base is at most 16.
\<close>

function printnum :: "u64 \<Rightarrow> u32 \<Rightarrow> int \<Rightarrow> u32 \<Rightarrow> u32 list option" where
  "printnum num base width padc =
     (if base < 2 \<or> base > 16 then None
      else if num \<ge> ucast base
      then do { out \<leftarrow> printnum (num div ucast base) base (width - 1) padc;
                Some (out @ [digit_char (num mod ucast base)]) }
      else Some (replicate (nat (width - 1)) padc @ [digit_char (num mod ucast base)]))"
  by pat_completeness auto
termination
proof (relation "measure (\<lambda>(num, base, width, padc). unat num)")
  fix num :: u64 and base :: u32 and width :: int and padc :: u32
  assume "\<not> (base < 2 \<or> base > 16)" "num \<ge> ucast base"
  then have "1 < unat (ucast base :: u64)" "unat (ucast base :: u64) \<le> unat num"
    by (simp_all add: word_le_nat_alt word_less_nat_alt)
  then show "((num div ucast base, base, width - 1, padc), num, base, width, padc) \<in>
      measure (\<lambda>(num, base, width, padc). unat num)"
    by (simp add: unat_div_distrib)
qed simp

declare printnum.simps [simp del]

subsection \<open>Conversions\<close>

record fspec =
  f_padc :: u32
  f_width :: int
  f_precision :: int
  f_lflag :: nat
  f_altflag :: bool

definition fspec_init :: fspec where
  "fspec_init = \<lparr>f_padc = 0x20, f_width = - 1, f_precision = - 1, f_lflag = 0, f_altflag = False\<rparr>"

definition is_digit :: "u8 \<Rightarrow> bool" where
  "is_digit ch \<longleftrightarrow> 0x30 \<le> ch \<and> ch \<le> 0x39"

definition wrap32 :: "int \<Rightarrow> int" where
  "wrap32 x = sint (word_of_int x :: u32)"

definition read_digits :: "u8 list \<Rightarrow> int" where
  "read_digits ds = foldl (\<lambda>p d. wrap32 (p * 10 + (uint d - 0x30))) 0 ds"

definition process_precision :: "fspec \<Rightarrow> fspec" where
  "process_precision f = (if f_width f < 0 then f\<lparr>f_width := f_precision f, f_precision := - 1\<rparr> else f)"

text \<open>
  The labels up to the conversion character: that character (0 at the end of the
  format), the format after it, the flags and the arguments left.
\<close>

function parse_spec :: "u8 list \<Rightarrow> fspec \<Rightarrow> varg list \<Rightarrow> (u8 \<times> u8 list \<times> fspec \<times> varg list) option" where
  "parse_spec [] f args = Some (0, [], f, args)"
| "parse_spec (ch # fmt) f args =
     (if ch = 0x2D then parse_spec fmt (f\<lparr>f_padc := 0x2D\<rparr>) args
      else if ch = 0x30 then parse_spec fmt (f\<lparr>f_padc := 0x30\<rparr>) args
      else if is_digit ch
      then parse_spec (dropWhile is_digit fmt)
             (process_precision (f\<lparr>f_precision := read_digits (ch # takeWhile is_digit fmt)\<rparr>)) args
      else if ch = 0x2A
      then (case args of
              Num x # args1 \<Rightarrow>
                parse_spec fmt (process_precision (f\<lparr>f_precision := sint (ucast x :: u32)\<rparr>)) args1
            | _ \<Rightarrow> None)
      else if ch = 0x2E then parse_spec fmt (if f_width f < 0 then f\<lparr>f_width := 0\<rparr> else f) args
      else if ch = 0x23 then parse_spec fmt (f\<lparr>f_altflag := True\<rparr>) args
      else if ch = 0x6C then parse_spec fmt (f\<lparr>f_lflag := Suc (f_lflag f)\<rparr>) args
      else Some (ch, fmt, f, args))"
  by pat_completeness auto
termination
  by (relation "measure (\<lambda>(fmt, f, args). length fmt)") (auto simp: le_imp_less_Suc length_dropWhile_le)

definition error_string :: "int \<Rightarrow> string option" where
  "error_string e = map_of
     [(1, ''unspecified error''), (2, ''bad environment''), (3, ''invalid parameter''), (4, ''out of memory''),
      (5, ''out of environments''), (6, ''segmentation fault''), (8, ''env is not recving''),
      (9, ''unexpected end of file''), (10, ''no free space on disk''), (11, ''too many files are open''),
      (12, ''file or block not found''), (13, ''invalid path''), (14, ''file already exists''),
      (15, ''file is not a valid executable''), (16, ''operation not supported'')] e"

text \<open>\<open>strnlen\<close> on readable bytes, of which at most \<open>k\<close> are looked at.\<close>

fun strnlen_bytes :: "u8 list \<Rightarrow> nat \<Rightarrow> nat option" where
  "strnlen_bytes bs 0 = Some 0"
| "strnlen_bytes [] (Suc k) = None"
| "strnlen_bytes (b # bs) (Suc k) = (if b = 0 then Some 0 else do { n \<leftarrow> strnlen_bytes bs k; Some (Suc n) })"

text \<open>The loop over a string reads a character before it looks at the precision.\<close>

fun fmt_chars :: "u8 list \<Rightarrow> int \<Rightarrow> int \<Rightarrow> bool \<Rightarrow> (u32 list \<times> int) option" where
  "fmt_chars [] precision width alt = None"
| "fmt_chars (ch # p) precision width alt =
     (if ch \<noteq> 0 \<and> (precision < 0 \<or> precision - 1 \<ge> 0)
      then do {
        (out, w) \<leftarrow> fmt_chars p (if precision < 0 then precision else precision - 1) (width - 1) alt;
        Some ((if alt \<and> (sint ch < 0x20 \<or> sint ch > 0x7E) then 0x3F else scast ch) # out, w)
      }
      else Some ([], width))"

definition fmt_string :: "u8 list \<Rightarrow> fspec \<Rightarrow> u32 list option" where
  "fmt_string p f =
     do {
       (pad, width) \<leftarrow>
         (if f_width f > 0 \<and> f_padc f \<noteq> 0x2D
          then do {
            n \<leftarrow> strnlen_bytes p (unat (word_of_int (f_precision f) :: u64));
            let w = f_width f - int n;
            Some (replicate (nat w) (f_padc f), min w 0)
          }
          else Some ([], f_width f));
       (out, w) \<leftarrow> fmt_chars p (f_precision f) width (f_altflag f);
       Some (pad @ out @ replicate (nat w) 0x20)
     }"

definition fmt_signed :: "u64 \<Rightarrow> fspec \<Rightarrow> u32 list option" where
  "fmt_signed x f =
     (if sint x < 0 then do { out \<leftarrow> printnum (- x) 10 (f_width f) (f_padc f); Some (0x2D # out) }
      else printnum x 10 (f_width f) (f_padc f))"

text \<open>
  \<^verbatim>\<open>%e\<close> calls \<open>printfmt\<close> again, with \<^verbatim>\<open>"error %d"\<close> and a signed code, or with \<^verbatim>\<open>"%s"\<close> and a string
  of the table.
\<close>

definition fmt_error :: "u64 \<Rightarrow> u32 list option" where
  "fmt_error x =
     (let e = sint (ucast x :: u32); e = (if e < 0 then wrap32 (- e) else e)
      in if e < 0 then None
         else case (if e \<ge> MAXERROR then None else error_string e) of
           None \<Rightarrow> do { out \<leftarrow> fmt_signed (word_of_int e) fspec_init; Some (map of_char ''error '' @ out) }
         | Some msg \<Rightarrow> fmt_string (chars msg @ [0]) fspec_init)"

text \<open>
  One conversion: the characters and the arguments left; \<open>Inl ()\<close> is an unknown conversion
  character. \<^verbatim>\<open>getint\<close> and \<^verbatim>\<open>getuint\<close> are called with the constant 3 instead of the count of
  \<^verbatim>\<open>l\<close> flags, so that every number takes the whole slot.
\<close>

definition conversion :: "u8 \<Rightarrow> fspec \<Rightarrow> varg list \<Rightarrow> (unit + u32 list \<times> varg list) option" where
  "conversion ch f args =
     (if ch = 0x63 then
        (case args of Num x # args1 \<Rightarrow> Some (Inr ([ucast x], args1)) | _ \<Rightarrow> None)
      else if ch = 0x65 then
        (case args of Num x # args1 \<Rightarrow> do { out \<leftarrow> fmt_error x; Some (Inr (out, args1)) } | _ \<Rightarrow> None)
      else if ch = 0x73 then
        (case args of
           Str p # args1 \<Rightarrow>
             do { out \<leftarrow> fmt_string (case p of None \<Rightarrow> chars ''(null)'' @ [0] | Some bs \<Rightarrow> bs) f;
                  Some (Inr (out, args1)) }
         | _ \<Rightarrow> None)
      else if ch = 0x64 then
        (case args of Num x # args1 \<Rightarrow> do { out \<leftarrow> fmt_signed x f; Some (Inr (out, args1)) } | _ \<Rightarrow> None)
      else if ch = 0x75 then
        (case args of
           Num x # args1 \<Rightarrow> do { out \<leftarrow> printnum x 10 (f_width f) (f_padc f); Some (Inr (out, args1)) }
         | _ \<Rightarrow> None)
      else if ch = 0x6F then Some (Inr (map of_char ''XXX'', args))
      else if ch = 0x70 then
        (case args of
           Num x # args1 \<Rightarrow>
             do { out \<leftarrow> printnum x 16 (f_width f) (f_padc f); Some (Inr (map of_char ''0x'' @ out, args1)) }
         | _ \<Rightarrow> None)
      else if ch = 0x78 then
        (case args of
           Num x # args1 \<Rightarrow> do { out \<leftarrow> printnum x 16 (f_width f) (f_padc f); Some (Inr (out, args1)) }
         | _ \<Rightarrow> None)
      else if ch = 0x25 then Some (Inr ([0x25], args))
      else Some (Inl ()))"

lemma parse_spec_length: "parse_spec fmt f args = Some (ch, fmt', f', args') \<Longrightarrow> length fmt' \<le> length fmt"
proof (induction fmt f args rule: parse_spec.induct)
  case (2 c fmt f args)
  have "length (dropWhile is_digit fmt) \<le> length fmt"
    by (rule length_dropWhile_le)
  with 2 show ?case
    by (auto split: if_splits list.splits varg.splits intro: le_SucI)
qed simp

text \<open>
  The main loop. After an unknown conversion the percent sign is printed and the scan goes on right
  after it; the arguments that a star has taken stay taken.
\<close>

function vprintfmt :: "u8 list \<Rightarrow> varg list \<Rightarrow> u32 list option" where
  "vprintfmt [] args = Some []"
| "vprintfmt (ch # fmt) args =
     (if ch = 0 then Some []
      else if ch \<noteq> 0x25 then do { out \<leftarrow> vprintfmt fmt args; Some (ucast ch # out) }
      else case parse_spec fmt fspec_init args of
        None \<Rightarrow> None
      | Some (cv, fmt1, f, args1) \<Rightarrow>
          (case conversion cv f args1 of
             None \<Rightarrow> None
           | Some (Inl _) \<Rightarrow> do { out \<leftarrow> vprintfmt fmt args1; Some (0x25 # out) }
           | Some (Inr (out1, args2)) \<Rightarrow> do { out \<leftarrow> vprintfmt fmt1 args2; Some (out1 @ out) }))"
  by pat_completeness auto
termination
  by (relation "measure (\<lambda>(fmt, args). length fmt)") (auto dest: parse_spec_length simp: le_imp_less_Suc)

subsection \<open>Printing into a buffer\<close>

record sprintbuf =
  b_buf :: nat
  b_ebuf :: nat
  b_cnt :: u32
  b_mem :: "u8 list"

definition sprintputch :: "u32 \<Rightarrow> sprintbuf \<Rightarrow> sprintbuf" where
  "sprintputch ch b =
     (let b1 = b\<lparr>b_cnt := b_cnt b + 1\<rparr>
      in if b_buf b1 < b_ebuf b1
         then b1\<lparr>b_mem := (b_mem b1)[b_buf b1 := ucast ch], b_buf := Suc (b_buf b1)\<rparr> else b1)"

text \<open>The buffer is the bytes at the address given; \<open>None\<close> is the null pointer.\<close>

definition vsnprintf :: "u8 list option \<Rightarrow> int \<Rightarrow> u8 list \<Rightarrow> varg list \<Rightarrow> (int \<times> u8 list) option" where
  "vsnprintf buf n fmt args =
     (if buf = None \<or> n < 1 then Some (err E_INVAL, case buf of None \<Rightarrow> [] | Some bs \<Rightarrow> bs)
      else do {
        out \<leftarrow> vprintfmt fmt args;
        let b = fold sprintputch out \<lparr>b_buf = 0, b_ebuf = nat (n - 1), b_cnt = 0, b_mem = the buf\<rparr>;
        Some (sint (b_cnt b), (b_mem b)[b_buf b := 0])
      })"

definition snprintf :: "u8 list option \<Rightarrow> int \<Rightarrow> u8 list \<Rightarrow> varg list \<Rightarrow> (int \<times> u8 list) option" where
  "snprintf buf n fmt args = vsnprintf buf n fmt args"

subsection \<open>Printing to the console\<close>

text \<open>
  In the kernel, \<^verbatim>\<open>putch\<close> increments its pointer to the count and not the count, which therefore
  stays 0.
\<close>

definition kern_putch :: "u32 \<Rightarrow> int \<times> console \<Rightarrow> int \<times> console" where
  "kern_putch ch = (\<lambda>(cnt, d). (cnt, cputchar ch d))"

definition kern_vcprintf :: "u8 list \<Rightarrow> varg list \<Rightarrow> console \<Rightarrow> (int \<times> console) option" where
  "kern_vcprintf fmt args d = do { out \<leftarrow> vprintfmt fmt args; Some (fold kern_putch out (0, d)) }"

text \<open>
  A user program collects characters and prints 255 at a time; \<open>sent\<close> is the
  sequence of the \<^verbatim>\<open>sys_cputs\<close> calls.
\<close>

record printbuf =
  p_buf :: "u8 list"
  p_cnt :: u32
  p_sent :: "u8 list list"

definition user_putch :: "u32 \<Rightarrow> printbuf \<Rightarrow> printbuf" where
  "user_putch ch b =
     (let b1 = b\<lparr>p_buf := p_buf b @ [ucast ch]\<rparr>;
          b2 = (if length (p_buf b1) = 255 then b1\<lparr>p_sent := p_sent b1 @ [p_buf b1], p_buf := []\<rparr> else b1)
      in b2\<lparr>p_cnt := p_cnt b2 + 1\<rparr>)"

definition user_vcprintf :: "u8 list \<Rightarrow> varg list \<Rightarrow> (int \<times> u8 list list) option" where
  "user_vcprintf fmt args =
     do {
       out \<leftarrow> vprintfmt fmt args;
       let b = fold user_putch out \<lparr>p_buf = [], p_cnt = 0, p_sent = []\<rparr>;
       Some (sint (p_cnt b), p_sent b @ [p_buf b])
     }"

subsection \<open>Printing to a file\<close>

text \<open>
  \<^verbatim>\<open>lib/fprintf.c\<close> over a \<open>write\<close> that takes the bytes and returns the number written or a negative
  error. After a short or failed write nothing more is written.
\<close>

record fprintbuf =
  fp_buf :: "u8 list"
  fp_result :: int
  fp_error :: int

definition writebuf :: "(u8 list \<Rightarrow> 's \<Rightarrow> int \<times> 's) \<Rightarrow> fprintbuf \<times> 's \<Rightarrow> fprintbuf \<times> 's" where
  "writebuf write = (\<lambda>(b, s).
     if fp_error b > 0
     then let (result, s1) = write (fp_buf b) s;
              b1 = (if result > 0 then b\<lparr>fp_result := fp_result b + result\<rparr> else b);
              b2 = (if result \<noteq> int (length (fp_buf b)) then b1\<lparr>fp_error := (if result < 0 then result else 0)\<rparr>
                    else b1)
          in (b2, s1)
     else (b, s))"

definition file_putch :: "(u8 list \<Rightarrow> 's \<Rightarrow> int \<times> 's) \<Rightarrow> u32 \<Rightarrow> fprintbuf \<times> 's \<Rightarrow> fprintbuf \<times> 's" where
  "file_putch write ch = (\<lambda>(b, s).
     let b1 = b\<lparr>fp_buf := fp_buf b @ [ucast ch]\<rparr>
     in if length (fp_buf b1) = 256
        then let (b2, s1) = writebuf write (b1, s) in (b2\<lparr>fp_buf := []\<rparr>, s1)
        else (b1, s))"

definition vfprintf ::
  "(u8 list \<Rightarrow> 's \<Rightarrow> int \<times> 's) \<Rightarrow> u8 list \<Rightarrow> varg list \<Rightarrow> 's \<Rightarrow> (int \<times> 's) option" where
  "vfprintf write fmt args s =
     do {
       out \<leftarrow> vprintfmt fmt args;
       let (b, s1) = fold (file_putch write) out (\<lparr>fp_buf = [], fp_result = 0, fp_error = 1\<rparr>, s);
       let (b1, s2) = (if fp_buf b \<noteq> [] then writebuf write (b, s1) else (b, s1));
       Some (if fp_result b1 \<noteq> 0 then fp_result b1 else fp_error b1, s2)
     }"

subsection \<open>Printed numbers read back\<close>

lemma digit_char_val:
  assumes "unat v < 16"
  shows "\<exists>d. digit_char v = ucast d \<and> digit_val d = Some (ucast v) \<and> d \<noteq> 0"
proof -
  have "v \<in> of_nat ` set [0..<16]"
    using assms by (intro image_eqI [of _ _ "unat v"]) simp_all
  also have "[0..<16] = [0, 1, 2, 3, 4, 5, 6, 7, 8, 9, 10, 11, 12, 13, 14, 15]"
    by (simp add: upt_rec)
  finally have "v \<in> {0, 1, 2, 3, 4, 5, 6, 7, 8, 9, 10, 11, 12, 13, 14, 15}"
    by simp
  moreover have "digit_char 0 = ucast (0x30 :: u8)"  "digit_char 1 = ucast (0x31 :: u8)"
    "digit_char 2 = ucast (0x32 :: u8)"  "digit_char 3 = ucast (0x33 :: u8)"
    "digit_char 4 = ucast (0x34 :: u8)"  "digit_char 5 = ucast (0x35 :: u8)"
    "digit_char 6 = ucast (0x36 :: u8)"  "digit_char 7 = ucast (0x37 :: u8)"
    "digit_char 8 = ucast (0x38 :: u8)"  "digit_char 9 = ucast (0x39 :: u8)"
    "digit_char 10 = ucast (0x61 :: u8)"  "digit_char 11 = ucast (0x62 :: u8)"
    "digit_char 12 = ucast (0x63 :: u8)"  "digit_char 13 = ucast (0x64 :: u8)"
    "digit_char 14 = ucast (0x65 :: u8)"  "digit_char 15 = ucast (0x66 :: u8)"
    by (simp_all add: digit_char_def)
  moreover have "digit_val 0x30 = Some 0" "digit_val 0x31 = Some 1" "digit_val 0x32 = Some 2"
    "digit_val 0x33 = Some 3" "digit_val 0x34 = Some 4" "digit_val 0x35 = Some 5" "digit_val 0x36 = Some 6"
    "digit_val 0x37 = Some 7" "digit_val 0x38 = Some 8" "digit_val 0x39 = Some 9" "digit_val 0x61 = Some 10"
    "digit_val 0x62 = Some 11" "digit_val 0x63 = Some 12" "digit_val 0x64 = Some 13" "digit_val 0x65 = Some 14"
    "digit_val 0x66 = Some 15"
    by (simp_all add: digit_val_def)
  ultimately show ?thesis
    by (elim insertE; force)
qed

lemma printnum_digits:
  assumes "2 \<le> base" "base \<le> 16" "width \<le> 1"
  shows "\<exists>ds. printnum num base width padc = Some (map ucast ds) \<and> ds \<noteq> [] \<and> 0 \<notin> set ds \<and>
    (\<forall>d \<in> set ds. is_digit_of base d) \<and> digits_val base ds 0 = num"
  using assms
proof (induction num base width padc rule: printnum.induct)
  case (1 num base width padc)
  have b: "unat base \<le> 16" "2 \<le> unat base"
    using "1.prems" by (simp_all add: word_le_nat_alt)
  then have sb: "(scast base :: u64) = ucast base" "sint base = uint base"
    by (simp_all add: small_signed)
  have r: "unat (num mod ucast base) < unat base"
    using b by (simp add: unat_mod_distrib)
  then obtain d where d: "digit_char (num mod ucast base) = ucast d"
      "digit_val d = Some (ucast (num mod ucast base))" "d \<noteq> 0"
    using digit_char_val [of "num mod ucast base"] b by auto
  have u: "unat (ucast (num mod ucast base) :: u32) = unat (num mod ucast base)"
    using r b by (simp add: unsigned_ucast_eq take_bit_nat_eq_self)
  then have "(scast (ucast (num mod ucast base) :: u32) :: u64) = num mod ucast base"
    using r b by (subst small_signed) (auto intro!: unsigned_word_eqI simp: word_unat_eq_iff)
  moreover have "sint (ucast (num mod ucast base) :: u32) < sint base"
    using r b unfolding sb u [symmetric]
    by (subst small_signed(1)) (simp_all only: uint_nat of_nat_less_iff u, simp_all)
  ultimately have dv: "is_digit_of base d" "scast (the (digit_val d)) = num mod ucast base"
    using d(2) by (simp_all add: is_digit_of_def)
  show ?case
  proof (cases "num \<ge> ucast base")
    case True
    then obtain ds where ds: "printnum (num div ucast base) base (width - 1) padc = Some (map ucast ds)"
      "0 \<notin> set ds" "\<forall>d \<in> set ds. is_digit_of base d" "digits_val base ds 0 = num div ucast base"
      using 1 by force
    then have "printnum num base width padc = Some (map ucast (ds @ [d]))"
      using True "1.prems" d(1) by (simp add: printnum.simps [of num] not_less)
    moreover have "digits_val base (ds @ [d]) 0 = num"
      using ds(4) dv(2) by (simp add: digits_val_snoc sb div_mult_mod_eq)
    ultimately show ?thesis
      using ds dv(1) d(3) by (intro exI [of _ "ds @ [d]"]) auto
  next
    case False
    then have "printnum num base width padc = Some (map ucast [d])"
      using "1.prems" d(1) by (simp add: printnum.simps [of num] not_less)
    moreover have "num mod ucast base = num"
      using False by (simp add: word_unat_eq_iff unat_mod_distrib word_le_nat_alt not_le)
    then have "digits_val base [d] 0 = num"
      using dv(2) by (simp add: digits_val_def)
    ultimately show ?thesis
      using dv(1) d(3) by (intro exI [of _ "[d]"]) auto
  qed
qed

lemma ucast_8_32 [simp]: "(ucast (ucast (d :: u8) :: u32) :: u8) = d"
  by (rule bit_word_eqI) (simp add: bit_simps)

lemma map_ucast_8_32 [simp]: "map (ucast \<circ> (ucast :: u8 \<Rightarrow> u32)) ds = ds"
  by (simp add: map_idI)

lemma vprintfmt_dec: "vprintfmt (chars ''%d'') [Num x] = fmt_signed x fspec_init"
  by (cases "fmt_signed x fspec_init") (simp_all add: chars_def is_digit_def conversion_def)

lemma digit_not_special:
  assumes "is_digit_of base ch"
  shows "ch \<noteq> 0" "ch \<noteq> 0x20" "ch \<noteq> 9" "ch \<noteq> 0x2B" "ch \<noteq> 0x2D"
  using assms by (auto simp: is_digit_of_def digit_val_def)

lemma strtol_run:
  assumes "cstring m p ds" "ds \<noteq> []" "\<forall>d \<in> set ds. is_digit_of 10 d"
  shows "strtol_digits m p 10 0 = Some (digits_val 10 ds 0, p + of_nat (length ds))"
    and "skip_blanks m p = Some p" and "strtol_sign m p = (False, p)"
proof -
  have "\<not> is_digit_of 10 0"
    using digit_not_special(1) by blast
  then show "strtol_digits m p 10 0 = Some (digits_val 10 ds 0, p + of_nat (length ds))"
    using assms by (intro strtol_digits_run) (auto simp: cstring_def)
  obtain d ds' where "ds = d # ds'"
    using assms(2) by (cases ds) auto
  then have "is_digit_of 10 (m p)"
    using assms by auto
  from digit_not_special [OF this] show "skip_blanks m p = Some p" "strtol_sign m p = (False, p)"
    by (simp_all add: skip_blanks.simps strtol_sign_def)
qed

lemma fmt_signed_strtol:
  "\<exists>ds. fmt_signed x fspec_init = Some (map ucast ds) \<and> 0 \<notin> set ds \<and> ds \<noteq> [] \<and>
     (\<forall>m p. cstring m p ds \<longrightarrow> strtol m p 10 = Some (x, p + of_nat (length ds)))"
proof (cases "sint x < 0")
  case True
  obtain ds where ds: "printnum (- x) 10 (- 1) 0x20 = Some (map ucast ds)" "ds \<noteq> []" "0 \<notin> set ds"
      "\<forall>d \<in> set ds. is_digit_of 10 d" "digits_val 10 ds 0 = - x"
    using printnum_digits [of 10 "- 1" "- x" "0x20"] by auto
  have "strtol m p 10 = Some (x, p + of_nat (length (0x2D # ds)))" if "cstring m p (0x2D # ds)" for m p
    using that strtol_run(1) [of m "p + 1" ds] ds
    by (simp add: strtol_def skip_blanks.simps [of m p] strtol_sign_def strtol_base_def)
  moreover have "fmt_signed x fspec_init = Some (map ucast (0x2D # ds))"
    using True ds(1) by (simp add: fmt_signed_def fspec_init_def)
  ultimately show ?thesis
    using ds(3) by (intro exI [of _ "0x2D # ds"]) auto
next
  case False
  obtain ds where ds: "printnum x 10 (- 1) 0x20 = Some (map ucast ds)" "ds \<noteq> []" "0 \<notin> set ds"
      "\<forall>d \<in> set ds. is_digit_of 10 d" "digits_val 10 ds 0 = x"
    using printnum_digits [of 10 "- 1" x "0x20"] by auto
  have "strtol m p 10 = Some (x, p + of_nat (length ds))" if "cstring m p ds" for m p
    using strtol_run [OF that ds(2,4)] ds(5) by (simp add: strtol_def strtol_base_def)
  with False ds show ?thesis
    by (intro exI [of _ ds]) (auto simp: fmt_signed_def fspec_init_def)
qed

subsection \<open>The bounded buffer\<close>

lemma sprintputch_fold:
  assumes "0 < n" "n \<le> length buf"
  shows "fold sprintputch out \<lparr>b_buf = 0, b_ebuf = n - 1, b_cnt = 0, b_mem = buf\<rparr> =
    \<lparr>b_buf = min (n - 1) (length out), b_ebuf = n - 1, b_cnt = of_nat (length out),
     b_mem = map ucast (take (n - 1) out) @ drop (min (n - 1) (length out)) buf\<rparr>"
proof (induction out rule: rev_induct)
  case (snoc ch out)
  show ?case
  proof (cases "length out < n - 1")
    case True
    then have "drop (length out) buf = buf ! length out # drop (Suc (length out)) buf"
      using assms by (intro Cons_nth_drop_Suc [symmetric]) simp
    moreover have "min (n - Suc 0) (length out) = length out" "min (n - Suc 0) (Suc (length out)) = Suc (length out)"
      using True by simp_all
    ultimately show ?thesis
      using snoc.IH True by (simp add: sprintputch_def list_update_append add.commute)
  next
    case False
    then show ?thesis
      using snoc.IH by (simp add: sprintputch_def min_def add.commute)
  qed
qed simp

lemma vsnprintf_result:
  assumes "vprintfmt fmt args = Some out" "1 \<le> n" "nat n \<le> length buf"
  shows "vsnprintf (Some buf) n fmt args =
    Some (sint (of_nat (length out) :: u32),
      map ucast (take (nat n - 1) out) @ [0] @ drop (Suc (min (nat n - 1) (length out))) buf)"
proof -
  have "drop (min (nat n - 1) (length out)) buf =
      buf ! min (nat n - 1) (length out) # drop (Suc (min (nat n - 1) (length out))) buf"
    using assms by (intro Cons_nth_drop_Suc [symmetric]) linarith
  moreover have "nat (n - 1) = nat n - 1"
    by simp
  ultimately show ?thesis
    using assms sprintputch_fold [of "nat n" buf out]
    by (simp add: vsnprintf_def list_update_append min_def)
qed

lemma printnum_length:
  "printnum num base width padc = Some out \<Longrightarrow> width \<le> 1 \<Longrightarrow> unat num < 2 ^ k \<Longrightarrow> 0 < k \<Longrightarrow> length out \<le> k"
proof (induction num base width padc arbitrary: out k rule: printnum.induct)
  case (1 num base width padc)
  then have b: "2 \<le> unat base"
    by (auto simp: printnum.simps [of num] word_less_nat_alt split: if_splits)
  show ?case
  proof (cases "num \<ge> ucast base")
    case True
    then obtain out' where out': "printnum (num div ucast base) base (width - 1) padc = Some out'"
        "length out = Suc (length out')" and nb: "\<not> (base < 2 \<or> base > 16)"
      using "1.prems"(1) by (auto simp: printnum.simps [of num] split: if_splits Option.bind_splits)
    have "2 \<le> unat num"
      using True b by (simp add: word_le_nat_alt)
    then have k: "1 < k"
      using "1.prems"(3,4) by (cases "k = 1") auto
    have "unat (num div ucast base) \<le> unat num div 2"
      using b by (simp add: unat_div_distrib div_le_mono2)
    also have "\<dots> < 2 ^ (k - 1)"
      using "1.prems"(3) k by (simp add: less_mult_imp_div_less power_Suc2 [symmetric] del: power_Suc)
    finally have "length out' \<le> k - 1"
      using "1.IH" [OF nb True out'(1)] "1.prems" k by simp
    then show ?thesis
      using out' k by simp
  next
    case False
    then have "length out = 1"
      using "1.prems"(1,2) by (auto simp: printnum.simps [of num] split: if_splits)
    then show ?thesis
      using "1.prems" by simp
  qed
qed

lemma fmt_signed_length:
  assumes "fmt_signed x fspec_init = Some out"
  shows "length out \<le> 65"
proof -
  have "unat y < 2 ^ 64" for y :: u64
    using unsigned_less [of y] by simp
  then have "length ds \<le> 64" if "printnum y 10 (- 1) 0x20 = Some ds" for y ds
    using printnum_length [OF that, of 64] by simp
  then show ?thesis
    using assms by (auto simp: fmt_signed_def fspec_init_def split: if_splits Option.bind_splits) fastforce+
qed

text \<open>
  C22. Printing any 64-bit number with \<^verbatim>\<open>%d\<close> into a buffer always succeeds. If the result says that it was
  not truncated, then \<^verbatim>\<open>strtol\<close> in base 10 reads the number back from the buffer, wherever in memory
  that is, and stops at the end of what was printed.
\<close>

theorem snprintf_strtol_roundtrip:
  assumes "1 \<le> n" "nat n = length buf"
  shows "\<exists>r buf'. snprintf (Some buf) n (chars ''%d'') [Num x] = Some (r, buf') \<and> 0 < r \<and> r \<le> 65 \<and>
    (r < n \<longrightarrow> (\<forall>m p. bytes_at m p buf' \<longrightarrow> strtol m p 10 = Some (x, p + word_of_int r)))"
proof -
  obtain ds where ds: "fmt_signed x fspec_init = Some (map ucast ds)" "0 \<notin> set ds" "ds \<noteq> []"
      "\<And>m p. cstring m p ds \<Longrightarrow> strtol m p 10 = Some (x, p + of_nat (length ds))"
    using fmt_signed_strtol [of x] by blast
  then have len: "length ds \<le> 65"
    using fmt_signed_length by fastforce
  let ?buf = "map ucast (take (nat n - 1) (map ucast ds :: u32 list)) @ [0] @
    drop (Suc (min (nat n - 1) (length ds))) buf"
  have r: "snprintf (Some buf) n (chars ''%d'') [Num x] = Some (int (length ds), ?buf)"
    unfolding snprintf_def using vsnprintf_result [of "chars ''%d''" "[Num x]" "map ucast ds" n buf] assms ds(1) len
    by (simp add: vprintfmt_dec sint_of_nat_small)
  have "strtol m p 10 = Some (x, p + of_nat (length ds))" if "int (length ds) < n" "bytes_at m p ?buf" for m p
  proof -
    have "bytes_at m p (ds @ [0] @ drop (Suc (min (nat n - 1) (length ds))) buf)"
      using that by simp
    then have "cstring m p ds"
      using ds(2) by (simp add: cstring_def bytes_at_append)
    then show ?thesis
      by (rule ds(4))
  qed
  with r ds(3) len show ?thesis
    by (intro exI [of _ "int (length ds)"] exI [of _ ?buf]) simp
qed

theorem snprintf_strtol_roundtrip_witness:
  "\<exists>r buf'. snprintf (Some (replicate 8 0)) 8 (chars ''%d'') [Num (- 42)] = Some (r, buf') \<and> 0 < r \<and> r \<le> 65 \<and>
    (r < 8 \<longrightarrow> (\<forall>m p. bytes_at m p buf' \<longrightarrow> strtol m p 10 = Some (- 42, p + word_of_int r)))"
  using snprintf_strtol_roundtrip [of 8 "replicate 8 0" "- 42"] by simp

text \<open>
  C24. \<^verbatim>\<open>vsnprintf\<close> never writes outside the buffer: it returns the number of characters of the whole
  output, the buffer holds the part of it that fits with a null byte after it, and its other bytes are
  untouched. Without a buffer, or with room for no byte, the result is \<^verbatim>\<open>-E_INVAL\<close>.
\<close>

theorem vsnprintf_bounded:
  assumes "vprintfmt fmt args = Some out" "nat n \<le> length buf" "length out < 2 ^ 31"
  shows "vsnprintf (Some buf) n fmt args =
    (if n < 1 then Some (err E_INVAL, buf)
     else let k = min (nat n - 1) (length out)
          in Some (int (length out), map ucast (take k out) @ [0] @ drop (Suc k) buf))"
proof (cases "n < 1")
  case False
  then show ?thesis
    using vsnprintf_result [OF assms(1) _ assms(2)] assms(3)
    by (simp add: sint_of_nat_small Let_def min_def)
qed (simp add: vsnprintf_def)

theorem vsnprintf_bounded_witness:
  "vsnprintf (Some [7, 7, 7, 7]) 3 (chars ''abc'') [] = Some (3, [0x61, 0x62, 0, 7])"
proof -
  have "vprintfmt (chars ''abc'') [] = Some [0x61, 0x62, 0x63]"
    by (simp add: chars_def)
  from vsnprintf_bounded [OF this, of 3 "[7, 7, 7, 7]"] show ?thesis
    by simp
qed

lemma fmt_chars_exact:
  "0 \<notin> set bs \<Longrightarrow> fmt_chars bs (int (length bs)) w alt = None"
  by (induction bs arbitrary: w) auto

lemma fmt_chars_room:
  "0 \<notin> set bs \<Longrightarrow> fmt_chars (bs @ [b]) (int (length bs)) w False = Some (map scast bs, w - int (length bs))"
  by (induction bs arbitrary: w) auto

text \<open>
  C37. \<^verbatim>\<open>%.*s\<close> reads one byte more than the count: with a count that covers exactly the readable bytes,
  none of them null, the read after them faults.
\<close>

theorem precision_reads_past:
  assumes "0 \<notin> set bs" "length bs < 2 ^ 31"
  shows "vprintfmt (chars ''%.*s'') [Num (of_nat (length bs)), Str (Some bs)] = None \<and>
    vprintfmt (chars ''%.*s'') [Num (of_nat (length bs)), Str (Some (bs @ [b]))] = Some (map scast bs)"
proof -
  have "sint (ucast (of_nat (length bs) :: u64) :: u32) = int (length bs)"
    using assms(2) by (simp add: unsigned_of_nat take_bit_nat_eq_self sint_of_nat_small)
  then show ?thesis
    using fmt_chars_exact [OF assms(1)] fmt_chars_room [OF assms(1)]
    by (simp_all add: chars_def is_digit_def conversion_def fspec_init_def process_precision_def fmt_string_def)
qed

theorem precision_reads_past_witness:
  "vprintfmt (chars ''%.*s'') [Num 2, Str (Some [0x68, 0x69])] = None"
  using precision_reads_past [of "[0x68, 0x69]"] by simp

lemma user_putch_fold:
  "fold user_putch out \<lparr>p_buf = [], p_cnt = 0, p_sent = []\<rparr> = b \<Longrightarrow>
     concat (p_sent b) @ p_buf b = map ucast out \<and> length (p_buf b) < 255 \<and> p_cnt b = of_nat (length out) \<and>
     (\<forall>c \<in> set (p_sent b). length c = 255)"
proof (induction out arbitrary: b rule: rev_induct)
  case (snoc ch out)
  define b0 where "b0 = fold user_putch out \<lparr>p_buf = [], p_cnt = 0, p_sent = []\<rparr>"
  then have "concat (p_sent b0) @ p_buf b0 = map ucast out" "length (p_buf b0) < 255"
    "p_cnt b0 = of_nat (length out)" "\<forall>c \<in> set (p_sent b0). length c = 255"
    using snoc.IH by blast+
  moreover have "b = user_putch ch b0"
    using snoc.prems by (simp add: b0_def)
  ultimately show ?case
    by (auto simp: user_putch_def Let_def add.commute)
qed auto

text \<open>
  C25. A user program's \<^verbatim>\<open>cprintf\<close> hands the whole output to \<^verbatim>\<open>sys_cputs\<close> in order, in pieces of at most
  255 bytes, and returns its length.
\<close>

theorem user_cprintf_complete:
  assumes "vprintfmt fmt args = Some out" "length out < 2 ^ 31"
  shows "\<exists>pieces. user_vcprintf fmt args = Some (int (length out), pieces) \<and> concat pieces = map ucast out \<and>
    (\<forall>c \<in> set pieces. length c \<le> 255)"
proof -
  define b where "b = fold user_putch out \<lparr>p_buf = [], p_cnt = 0, p_sent = []\<rparr>"
  then have "concat (p_sent b) @ p_buf b = map ucast out" "length (p_buf b) < 255"
    "p_cnt b = of_nat (length out)" "\<forall>c \<in> set (p_sent b). length c = 255"
    using user_putch_fold by blast+
  then show ?thesis
    using assms by (auto simp: user_vcprintf_def b_def [symmetric] sint_of_nat_small)
qed

theorem user_cprintf_complete_witness:
  "\<exists>pieces. user_vcprintf (chars ''hi'') [] = Some (2, pieces) \<and> concat pieces = [0x68, 0x69] \<and>
    (\<forall>c \<in> set pieces. length c \<le> 255)"
proof -
  have "vprintfmt (chars ''hi'') [] = Some [0x68, 0x69]"
    by (simp add: chars_def)
  from user_cprintf_complete [OF this] show ?thesis
    by simp
qed

text \<open>
  A file that takes all the bytes it is given receives exactly the output.
\<close>

lemma file_putch_fold:
  assumes wr: "\<And>bs s. write bs s = (int (length bs), s @ bs)"
  shows "fold (file_putch write) out (\<lparr>fp_buf = [], fp_result = 0, fp_error = 1\<rparr>, s) = (b, s1) \<Longrightarrow>
    s1 @ fp_buf b = s @ map ucast out \<and> length (fp_buf b) < 256 \<and> fp_error b = 1 \<and>
    fp_result b + int (length (fp_buf b)) = int (length out) \<and> 0 \<le> fp_result b"
proof (induction out arbitrary: b s1 rule: rev_induct)
  case (snoc ch out)
  obtain b0 s0 where f: "fold (file_putch write) out (\<lparr>fp_buf = [], fp_result = 0, fp_error = 1\<rparr>, s) = (b0, s0)"
    by fastforce
  then have "(b, s1) = file_putch write ch (b0, s0)"
    using snoc.prems by simp
  with snoc.IH [OF f] show ?case
    by (auto simp: file_putch_def writebuf_def wr Let_def split: if_splits)
qed auto



end
