(* ===== verification/Fs.thy ===== *)
theory Fs
  imports JOS_Prelude "HOL-Library.Signed_Division"
begin

section \<open>The file system\<close>

text \<open>
  \<^verbatim>\<open>fs/fs.c\<close> and \<^verbatim>\<open>fs/fs.h\<close>, \<^verbatim>\<open>inc/fs.h\<close>. The disk is mapped at \<^verbatim>\<open>DISKMAP\<close> and an address here is the
  distance from it, so that block \<open>b\<close> starts at \<open>b * BLKSIZE\<close>. \<open>dmem\<close> is the disk as the
  server sees it through the block cache. A \<^verbatim>\<open>struct
  File *\<close> is an address, its fields are bytes at fixed distances from it. Every access checks what the page fault
  handler of the cache checks when it loads the block; \<open>None\<close> is its panic, or another one. A function
  that can fail returns \<open>Inl e\<close> for \<^verbatim>\<open>-e\<close>.

  \<^verbatim>\<open>flush_block\<close> checks its address and does nothing else; the loops that only flush keep their panics.
\<close>

definition BLKSIZE :: nat where [simp]: "BLKSIZE = 4096"
definition BLKBITSIZE :: nat where [simp]: "BLKBITSIZE = 8 * BLKSIZE"
definition MAXNAMELEN :: nat where [simp]: "MAXNAMELEN = 128"
definition NDIRECT :: nat where [simp]: "NDIRECT = 10"
definition NINDIRECT :: nat where [simp]: "NINDIRECT = BLKSIZE div 4"
definition BLKFILES :: nat where [simp]: "BLKFILES = BLKSIZE div 256"
definition FTYPE_REG :: u32 where [simp]: "FTYPE_REG = 0"
definition FTYPE_DIR :: u32 where [simp]: "FTYPE_DIR = 1"
definition FS_MAGIC :: u32 where [simp]: "FS_MAGIC = 0x4A0530AE"
definition DISKSIZE :: nat where [simp]: "DISKSIZE = 0xC0000000"

record fs =
  dmem :: "nat \<Rightarrow> u8"
  super_on :: bool

type_synonym 'a res = "(jos_error + 'a) option"

subsection \<open>Access to the disk\<close>

definition rd32 :: "(nat \<Rightarrow> u8) \<Rightarrow> nat \<Rightarrow> u32" where
  "rd32 m a = ucast (rd_le 4 m a)"

definition wr32 :: "nat \<Rightarrow> u32 \<Rightarrow> (nat \<Rightarrow> u8) \<Rightarrow> nat \<Rightarrow> u8" where
  "wr32 a w m =
     m(a := ucast w, a + 1 := ucast (drop_bit 8 w), a + 2 := ucast (drop_bit 16 w), a + 3 := ucast (drop_bit 24 w))"

definition s_nblocks :: "fs \<Rightarrow> nat" where
  "s_nblocks s = unat (rd32 (dmem s) (BLKSIZE + 4))"

definition s_root :: nat where [simp]: "s_root = BLKSIZE + 8"

definition blk_ok :: "fs \<Rightarrow> nat \<Rightarrow> bool" where
  "blk_ok s b \<longleftrightarrow> b < DISKSIZE div BLKSIZE \<and> (super_on s \<longrightarrow> b < s_nblocks s)"

definition ld8 :: "fs \<Rightarrow> nat \<Rightarrow> u8 option" where
  "ld8 s a = (if blk_ok s (a div BLKSIZE) then Some (dmem s a) else None)"

definition ld32 :: "fs \<Rightarrow> nat \<Rightarrow> u32 option" where
  "ld32 s a = (if blk_ok s (a div BLKSIZE) then Some (rd32 (dmem s) a) else None)"

definition sto8 :: "nat \<Rightarrow> u8 \<Rightarrow> fs \<Rightarrow> fs option" where
  "sto8 a b s = (if blk_ok s (a div BLKSIZE) then Some (s\<lparr>dmem := (dmem s)(a := b)\<rparr>) else None)"

definition sto32 :: "nat \<Rightarrow> u32 \<Rightarrow> fs \<Rightarrow> fs option" where
  "sto32 a w s = (if blk_ok s (a div BLKSIZE) then Some (s\<lparr>dmem := wr32 a w (dmem s)\<rparr>) else None)"

definition diskaddr :: "fs \<Rightarrow> nat \<Rightarrow> nat option" where
  "diskaddr s b = (if b = 0 \<or> (super_on s \<and> b \<ge> s_nblocks s) then None else Some (b * BLKSIZE))"

definition flush_block :: "nat \<Rightarrow> unit option" where
  "flush_block a = (if a \<ge> DISKSIZE then None else Some ())"

subsection \<open>The super block and the bitmap\<close>

definition check_super :: "fs \<Rightarrow> unit option" where
  "check_super s =
     do {
       magic \<leftarrow> ld32 s BLKSIZE;
       n \<leftarrow> ld32 s (BLKSIZE + 4);
       if magic \<noteq> FS_MAGIC then None
       else if unat n > DISKSIZE div BLKSIZE then None
       else Some ()
     }"

definition bitmap_word :: "nat \<Rightarrow> nat" where
  "bitmap_word b = 2 * BLKSIZE + 4 * (b div 32)"

definition block_is_free :: "fs \<Rightarrow> nat \<Rightarrow> bool option" where
  "block_is_free s b =
     (if \<not> super_on s \<or> b \<ge> s_nblocks s then Some False
      else do { w \<leftarrow> ld32 s (bitmap_word b); Some (w AND push_bit (b mod 32) 1 \<noteq> 0) })"

definition free_block :: "nat \<Rightarrow> fs \<Rightarrow> fs option" where
  "free_block b s =
     (if b = 0 then None
      else do { w \<leftarrow> ld32 s (bitmap_word b); sto32 (bitmap_word b) (w OR push_bit (b mod 32) 1) s })"

text \<open>\<^verbatim>\<open>alloc_block\<close> is a panic.\<close>

definition alloc_block :: "fs \<Rightarrow> (int \<times> fs) option" where
  "alloc_block s = None"

definition assert_used :: "fs \<Rightarrow> nat \<Rightarrow> unit option" where
  "assert_used s b = do { fr \<leftarrow> block_is_free s b; if fr then None else Some () }"

definition check_bitmap :: "fs \<Rightarrow> unit option" where
  "check_bitmap s =
     do {
       fold_opt (\<lambda>i _. assert_used s (2 + i)) [0..<(s_nblocks s + BLKBITSIZE - 1) div BLKBITSIZE] ();
       assert_used s 0;
       assert_used s 1
     }"

definition fs_init :: "fs \<Rightarrow> fs option" where
  "fs_init s =
     do {
       a \<leftarrow> diskaddr s 1;
       b \<leftarrow> ld8 s a;
       let s1 = s\<lparr>super_on := True\<rparr>;
       check_super s1;
       a2 \<leftarrow> diskaddr s1 2;
       check_bitmap s1;
       Some s1
     }"

subsection \<open>The blocks of a file\<close>

definition f_size :: "fs \<Rightarrow> nat \<Rightarrow> int option" where
  "f_size s f = map_option sint (ld32 s (f + 128))"

definition f_type :: "fs \<Rightarrow> nat \<Rightarrow> u32 option" where
  "f_type s f = ld32 s (f + 132)"

definition f_direct :: "nat \<Rightarrow> nat \<Rightarrow> nat" where
  "f_direct f i = f + 136 + 4 * i"

definition f_indirect :: "nat \<Rightarrow> nat" where
  "f_indirect f = f + 176"

definition set_f_size :: "nat \<Rightarrow> int \<Rightarrow> fs \<Rightarrow> fs option" where
  "set_f_size f n s = sto32 (f + 128) (word_of_int n) s"

text \<open>The quotient by the block size as an unsigned 32-bit number; the division is signed.\<close>

definition nblocks_of :: "int \<Rightarrow> nat" where
  "nblocks_of n = unat (word_of_int (n sdiv int BLKSIZE) :: u32)"

text \<open>The address of the slot that holds the number of the disk block.\<close>

definition file_block_walk :: "fs \<Rightarrow> nat \<Rightarrow> nat \<Rightarrow> nat res" where
  "file_block_walk s f filebno =
     (if filebno \<ge> NDIRECT + NINDIRECT then Some (Inl E_INVAL)
      else do {
        n \<leftarrow> f_size s f;
        if filebno > nblocks_of n then Some (Inl E_NOT_FOUND)
        else if filebno < NDIRECT then Some (Inr (f_direct f filebno))
        else do {
          ind \<leftarrow> ld32 s (f_indirect f);
          if ind = 0 then Some (Inl E_NOT_FOUND)
          else do { index \<leftarrow> diskaddr s (unat ind); Some (Inr (index + 4 * (filebno - NDIRECT))) }
        }
      })"

definition file_get_block :: "fs \<Rightarrow> nat \<Rightarrow> nat \<Rightarrow> nat res" where
  "file_get_block s f filebno =
     (if filebno \<ge> NDIRECT + NINDIRECT then Some (Inl E_INVAL)
      else do {
        r \<leftarrow> file_block_walk s f filebno;
        (case r of
           Inl e \<Rightarrow> Some (Inl e)
         | Inr slot \<Rightarrow>
             do {
               b \<leftarrow> ld32 s slot;
               if b = 0 then Some (Inl E_NO_DISK)
               else do { blk \<leftarrow> diskaddr s (unat b); Some (Inr blk) }
             })
      })"

subsection \<open>Directories\<close>

text \<open>\<^verbatim>\<open>strcmp(f_name, name) == 0\<close>, for a name without null bytes.\<close>

primrec name_is :: "fs \<Rightarrow> nat \<Rightarrow> u8 list \<Rightarrow> bool option" where
  "name_is s a [] = do { b \<leftarrow> ld8 s a; Some (b = 0) }"
| "name_is s a (c # cs) = do { b \<leftarrow> ld8 s a; if b = c then name_is s (a + 1) cs else Some False }"

text \<open>The first of the entries \<open>js\<close> of a block for which a test holds.\<close>

primrec find_entry :: "(nat \<Rightarrow> bool option) \<Rightarrow> nat \<Rightarrow> nat list \<Rightarrow> nat option option" where
  "find_entry test blk [] = Some None"
| "find_entry test blk (j # js) =
     do { t \<leftarrow> test (blk + 256 * j); if t then Some (Some (blk + 256 * j)) else find_entry test blk js }"

primrec dir_search :: "fs \<Rightarrow> nat \<Rightarrow> (nat \<Rightarrow> bool option) \<Rightarrow> nat list \<Rightarrow> nat option res" where
  "dir_search s dir test [] = Some (Inr None)"
| "dir_search s dir test (i # is) =
     do {
       r \<leftarrow> file_get_block s dir i;
       (case r of
          Inl e \<Rightarrow> Some (Inl e)
        | Inr blk \<Rightarrow>
            do {
              m \<leftarrow> find_entry test blk [0..<BLKFILES];
              (case m of Some f \<Rightarrow> Some (Inr (Some f)) | None \<Rightarrow> dir_search s dir test is)
            })
     }"

definition dir_blocks :: "fs \<Rightarrow> nat \<Rightarrow> nat option" where
  "dir_blocks s dir =
     do { n \<leftarrow> f_size s dir; if n smod int BLKSIZE \<noteq> 0 then None else Some (nblocks_of n) }"

definition dir_lookup :: "fs \<Rightarrow> nat \<Rightarrow> u8 list \<Rightarrow> nat res" where
  "dir_lookup s dir name =
     do {
       n \<leftarrow> dir_blocks s dir;
       r \<leftarrow> dir_search s dir (\<lambda>f. name_is s f name) [0..<n];
       Some (case r of Inl e \<Rightarrow> Inl e | Inr None \<Rightarrow> Inl E_NOT_FOUND | Inr (Some f) \<Rightarrow> Inr f)
     }"

definition unused_entry :: "fs \<Rightarrow> nat \<Rightarrow> bool option" where
  "unused_entry s f = do { b \<leftarrow> ld8 s f; Some (b = 0) }"

definition dir_alloc_file :: "nat \<Rightarrow> fs \<Rightarrow> ((jos_error + nat) \<times> fs) option" where
  "dir_alloc_file dir s =
     do {
       n \<leftarrow> dir_blocks s dir;
       r \<leftarrow> dir_search s dir (unused_entry s) [0..<n];
       (case r of
          Inl e \<Rightarrow> Some (Inl e, s)
        | Inr (Some f) \<Rightarrow> Some (Inr f, s)
        | Inr None \<Rightarrow>
            do {
              sz \<leftarrow> f_size s dir;
              s1 \<leftarrow> set_f_size dir (sz + int BLKSIZE) s;
              r \<leftarrow> file_get_block s1 dir n;
              Some (r, s1)
            })
     }"

subsection \<open>Paths\<close>

definition skip_slash :: "u8 list \<Rightarrow> u8 list" where
  "skip_slash p = dropWhile (\<lambda>c. c = 0x2F) p"

text \<open>
  The loop of \<^verbatim>\<open>walk_path\<close>: the error, if any, then \<^verbatim>\<open>*pdir\<close>,
  \<^verbatim>\<open>*pf\<close> and \<^verbatim>\<open>lastelem\<close>.
\<close>

record walk =
  w_err :: "jos_error option"
  w_dir :: "nat option"
  w_file :: "nat option"
  w_last :: "u8 list option"

definition walk_fail :: "jos_error \<Rightarrow> walk" where
  "walk_fail e = \<lparr>w_err = Some e, w_dir = None, w_file = None, w_last = None\<rparr>"

lemma skip_slash_shorter:
  assumes "path \<noteq> []"
  shows "length (skip_slash (dropWhile (\<lambda>c. c \<noteq> 0x2F) path)) < length path"
proof (cases path)
  case (Cons c cs)
  have "length (dropWhile P xs) \<le> length xs" for P and xs :: "u8 list"
    by (rule length_dropWhile_le)
  then have "length (dropWhile P (dropWhile Q cs)) < Suc (length cs)" for P Q
    by (meson le_imp_less_Suc order_trans)
  with Cons show ?thesis
    by (simp add: skip_slash_def length_dropWhile_le le_imp_less_Suc)
qed (use assms in simp)

function walk_loop :: "fs \<Rightarrow> nat option \<Rightarrow> nat \<Rightarrow> u8 list \<Rightarrow> walk option" where
  "walk_loop s dir f path =
     (if path = [] then Some \<lparr>w_err = None, w_dir = dir, w_file = Some f, w_last = None\<rparr>
      else
        let name = takeWhile (\<lambda>c. c \<noteq> 0x2F) path; rest = skip_slash (dropWhile (\<lambda>c. c \<noteq> 0x2F) path)
        in if length name \<ge> MAXNAMELEN then Some (walk_fail E_BAD_PATH)
           else do {
             t \<leftarrow> f_type s f;
             if t \<noteq> FTYPE_DIR then Some (walk_fail E_NOT_FOUND)
             else do {
               r \<leftarrow> dir_lookup s f name;
               (case r of
                  Inl e \<Rightarrow>
                    Some (if e = E_NOT_FOUND \<and> rest = []
                          then \<lparr>w_err = Some e, w_dir = Some f, w_file = None, w_last = Some name\<rparr>
                          else walk_fail e)
                | Inr f1 \<Rightarrow> walk_loop s (Some f) f1 rest)
             }
           })"
  by pat_completeness auto
termination
  by (relation "measure (\<lambda>(s, dir, f, path). length path)") (auto intro: skip_slash_shorter)

declare walk_loop.simps [simp del]

definition walk_path :: "fs \<Rightarrow> u8 list \<Rightarrow> walk option" where
  "walk_path s path = walk_loop s None s_root (skip_slash path)"

subsection \<open>Files\<close>

primrec store_bytes :: "nat \<Rightarrow> u8 list \<Rightarrow> fs \<Rightarrow> fs option" where
  "store_bytes a [] s = Some s"
| "store_bytes a (b # bs) s = do { s1 \<leftarrow> sto8 a b s; store_bytes (a + 1) bs s1 }"

definition file_flush :: "fs \<Rightarrow> nat \<Rightarrow> unit option" where
  "file_flush s f =
     do {
       n \<leftarrow> f_size s f;
       fold_opt (\<lambda>i _.
         do {
           r \<leftarrow> file_block_walk s f i;
           (case r of
              Inl e \<Rightarrow> Some ()
            | Inr slot \<Rightarrow>
                do { b \<leftarrow> ld32 s slot;
                     if b = 0 then Some () else do { a \<leftarrow> diskaddr s (unat b); flush_block a } })
         }) [0..<nat ((n + int BLKSIZE - 1) sdiv int BLKSIZE)] ();
       flush_block f;
       ind \<leftarrow> ld32 s (f_indirect f);
       if ind = 0 then Some () else do { a \<leftarrow> diskaddr s (unat ind); flush_block a }
     }"

definition file_create :: "u8 list \<Rightarrow> fs \<Rightarrow> ((jos_error + nat) \<times> fs) option" where
  "file_create path s =
     do {
       w \<leftarrow> walk_path s path;
       (case w_err w of
          None \<Rightarrow> Some (Inl E_FILE_EXISTS, s)
        | Some e \<Rightarrow>
            if e \<noteq> E_NOT_FOUND then Some (Inl e, s)
            else case (w_dir w, w_last w) of
              (Some dir, Some name) \<Rightarrow>
                do {
                  (r, s1) \<leftarrow> dir_alloc_file dir s;
                  (case r of
                     Inl e \<Rightarrow> Some (Inl e, s1)
                   | Inr f \<Rightarrow>
                       do {
                         s2 \<leftarrow> store_bytes f (name @ [0]) s1;
                         file_flush s2 dir;
                         Some (Inr f, s2)
                       })
                }
            | _ \<Rightarrow> Some (Inl e, s))
     }"

definition file_open :: "fs \<Rightarrow> u8 list \<Rightarrow> nat res" where
  "file_open s path =
     do {
       w \<leftarrow> walk_path s path;
       (case (w_err w, w_file w) of
          (Some e, _) \<Rightarrow> Some (Inl e)
        | (None, Some f) \<Rightarrow> Some (Inr f)
        | (None, None) \<Rightarrow> None)
     }"

text \<open>
  The loop of \<^verbatim>\<open>file_read\<close> from position \<open>pos\<close> (signed) up to \<open>stop\<close> (unsigned, the sum of the offset and
  the count): the bytes that were put into the buffer and the error, if any. The comparison
  converts the position to 64 bits with its sign, the block number and the place in the block
  are computed with signed division.
\<close>

definition chunk_len :: "u32 \<Rightarrow> u64 \<Rightarrow> u32" where
  "chunk_len pos stop =
     ucast (min (word_of_int (int BLKSIZE - sint pos smod int BLKSIZE)) (stop - scast pos) :: u64)"

definition in_block :: "nat \<Rightarrow> u32 \<Rightarrow> nat option" where
  "in_block blk pos =
     (let a = int blk + sint pos smod int BLKSIZE in if a < 0 then None else Some (nat a))"

primrec load_bytes :: "fs \<Rightarrow> nat \<Rightarrow> nat \<Rightarrow> u8 list option" where
  "load_bytes s a 0 = Some []"
| "load_bytes s a (Suc n) = do { b \<leftarrow> ld8 s a; bs \<leftarrow> load_bytes s (a + 1) n; Some (b # bs) }"

partial_function (option) file_read_loop ::
  "fs \<Rightarrow> nat \<Rightarrow> u32 \<Rightarrow> u64 \<Rightarrow> u8 list \<Rightarrow> (jos_error option \<times> u8 list) option" where
  "file_read_loop s f pos stop buf =
     (if scast pos < stop
      then Option.bind (file_get_block s f (nblocks_of (sint pos))) (\<lambda>r.
        case r of
          Inl e \<Rightarrow> Some (Some e, buf)
        | Inr blk \<Rightarrow>
            Option.bind (in_block blk pos) (\<lambda>a.
            Option.bind (load_bytes s a (unat (chunk_len pos stop))) (\<lambda>bs.
            file_read_loop s f (pos + chunk_len pos stop) stop (buf @ bs))))
      else Some (None, buf))"

definition file_read :: "fs \<Rightarrow> nat \<Rightarrow> u64 \<Rightarrow> u32 \<Rightarrow> ((jos_error + u64) \<times> u8 list) option" where
  "file_read s f count offset =
     do {
       n \<leftarrow> f_size s f;
       if sint offset \<ge> n then Some (Inr 0, [])
       else
         let count = min count (scast (word_of_int n - offset));
             stop = scast offset + count
         in do {
           (e, buf) \<leftarrow> file_read_loop s f offset stop [];
           Some (case e of Some e \<Rightarrow> Inl e | None \<Rightarrow> Inr count, buf)
         }
     }"

subsection \<open>Changing a file\<close>

definition file_free_block :: "nat \<Rightarrow> nat \<Rightarrow> fs \<Rightarrow> (jos_error option \<times> fs) option" where
  "file_free_block f filebno s =
     do {
       r \<leftarrow> file_block_walk s f filebno;
       (case r of
          Inl e \<Rightarrow> Some (Some e, s)
        | Inr slot \<Rightarrow>
            do {
              b \<leftarrow> ld32 s slot;
              if b = 0 then Some (None, s)
              else do { s1 \<leftarrow> free_block (unat b) s; s2 \<leftarrow> sto32 slot 0 s1; Some (None, s2) }
            })
     }"

text \<open>\<open>size_blocks n\<close>: the number of blocks for \<open>n\<close> bytes, with signed 32-bit arithmetic.\<close>

definition size_blocks :: "int \<Rightarrow> nat" where
  "size_blocks n = nblocks_of (sint (word_of_int (n + int BLKSIZE - 1) :: u32))"

definition file_truncate_blocks :: "nat \<Rightarrow> int \<Rightarrow> fs \<Rightarrow> fs option" where
  "file_truncate_blocks f newsize s =
     do {
       n \<leftarrow> f_size s f;
       let new_nblocks = size_blocks newsize;
       s1 \<leftarrow> fold_opt (\<lambda>bno s. map_option snd (file_free_block f bno s)) [new_nblocks..<size_blocks n] s;
       ind \<leftarrow> ld32 s1 (f_indirect f);
       if new_nblocks \<le> NDIRECT \<and> ind \<noteq> 0
       then do { s2 \<leftarrow> free_block (unat ind) s1; sto32 (f_indirect f) 0 s2 }
       else Some s1
     }"

definition file_set_size :: "nat \<Rightarrow> int \<Rightarrow> fs \<Rightarrow> fs option" where
  "file_set_size f newsize s =
     do {
       n \<leftarrow> f_size s f;
       s1 \<leftarrow> (if n > newsize then file_truncate_blocks f newsize s else Some s);
       s2 \<leftarrow> set_f_size f newsize s1;
       flush_block f;
       Some s2
     }"

partial_function (option) file_write_loop ::
  "nat \<Rightarrow> u32 \<Rightarrow> u64 \<Rightarrow> u8 list \<Rightarrow> fs \<Rightarrow> (jos_error option \<times> fs) option" where
  "file_write_loop f pos stop buf s =
     (if scast pos < stop
      then Option.bind (file_get_block s f (nblocks_of (sint pos))) (\<lambda>r.
        case r of
          Inl e \<Rightarrow> Some (Some e, s)
        | Inr blk \<Rightarrow>
            Option.bind (in_block blk pos) (\<lambda>a.
            Option.bind (store_bytes a (take (unat (chunk_len pos stop)) buf) s) (\<lambda>s1.
            file_write_loop f (pos + chunk_len pos stop) stop (drop (unat (chunk_len pos stop)) buf) s1)))
      else Some (None, s))"

text \<open>The buffer of \<^verbatim>\<open>file_write\<close> is the \<open>count\<close> bytes given.\<close>

definition file_write :: "nat \<Rightarrow> u8 list \<Rightarrow> u32 \<Rightarrow> fs \<Rightarrow> ((jos_error + u64) \<times> fs) option" where
  "file_write f buf offset s =
     do {
       n \<leftarrow> f_size s f;
       let stop = (scast offset + of_nat (length buf) :: u64);
       s1 \<leftarrow> (if stop > word_of_int n then file_set_size f (sint (ucast stop :: u32)) s else Some s);
       (e, s2) \<leftarrow> file_write_loop f offset stop buf s1;
       Some (case e of Some e \<Rightarrow> Inl e | None \<Rightarrow> Inr (of_nat (length buf)), s2)
     }"

definition file_remove :: "u8 list \<Rightarrow> fs \<Rightarrow> (jos_error option \<times> fs) option" where
  "file_remove path s =
     do {
       r \<leftarrow> file_open s path;
       (case r of
          Inl e \<Rightarrow> Some (Some e, s)
        | Inr f \<Rightarrow>
            do {
              s1 \<leftarrow> file_truncate_blocks f 0 s;
              s2 \<leftarrow> sto8 f 0 s1;
              s3 \<leftarrow> set_f_size f 0 s2;
              flush_block f;
              Some (None, s3)
            })
     }"

definition fs_sync :: "fs \<Rightarrow> unit option" where
  "fs_sync s =
     fold_opt (\<lambda>i _. do { a \<leftarrow> diskaddr s i; flush_block a }) [1..<s_nblocks s] ()"

end
