(* ===== verification/Fs_Files.thy ===== *)
theory Fs_Files
  imports Fs
begin

section \<open>The file system: files, paths, directories and the bitmap\<close>

text \<open>
  A well-formed file is a sequence of bytes, and \<^verbatim>\<open>file_read\<close> and \<^verbatim>\<open>file_write\<close> are the operations on that
  sequence; \<^verbatim>\<open>walk_path\<close> is lookup by components; \<^verbatim>\<open>free_block\<close> changes one bit of the bitmap. Two theorems show
  where the code departs from what it means to do: a negative offset reads foreign bytes, and a
  failed creation damages the directory.
\<close>

subsection \<open>A file as a sequence of bytes\<close>

text \<open>
  \<open>file_blk s f i\<close>: the disk block of block \<open>i\<close> of the file; \<open>fsize\<close> its size; \<open>contents\<close> its bytes.
  \<open>file_ok s f\<close>: the descriptor lies in one block, the size is in range, and every block up to the
  size, and the indirect block if one is needed, is a block of the disk.
\<close>

definition fsize :: "fs \<Rightarrow> nat \<Rightarrow> nat" where
  "fsize s f = nat (sint (rd32 (dmem s) (f + 128)))"

definition ind_blk :: "fs \<Rightarrow> nat \<Rightarrow> nat" where
  "ind_blk s f = unat (rd32 (dmem s) (f_indirect f))"

definition slot_addr :: "fs \<Rightarrow> nat \<Rightarrow> nat \<Rightarrow> nat" where
  "slot_addr s f i = (if i < NDIRECT then f_direct f i else ind_blk s f * BLKSIZE + 4 * (i - NDIRECT))"

definition file_blk :: "fs \<Rightarrow> nat \<Rightarrow> nat \<Rightarrow> nat" where
  "file_blk s f i = unat (rd32 (dmem s) (slot_addr s f i))"

definition file_addr :: "fs \<Rightarrow> nat \<Rightarrow> nat \<Rightarrow> nat" where
  "file_addr s f i = file_blk s f (i div BLKSIZE) * BLKSIZE + i mod BLKSIZE"

definition contents :: "fs \<Rightarrow> nat \<Rightarrow> u8 list" where
  "contents s f = map (\<lambda>i. dmem s (file_addr s f i)) [0..<fsize s f]"

definition file_blocks :: "fs \<Rightarrow> nat \<Rightarrow> nat" where
  "file_blocks s f = (fsize s f + BLKSIZE - 1) div BLKSIZE"

definition file_ok :: "fs \<Rightarrow> nat \<Rightarrow> bool" where
  "file_ok s f \<longleftrightarrow> super_on s \<and> s_nblocks s \<le> DISKSIZE div BLKSIZE \<and>
     f mod BLKSIZE + 256 \<le> BLKSIZE \<and> f div BLKSIZE < s_nblocks s \<and>
     0 \<le> sint (rd32 (dmem s) (f + 128)) \<and> fsize s f \<le> (NDIRECT + NINDIRECT) * BLKSIZE \<and>
     (\<forall>i < file_blocks s f. 0 < file_blk s f i \<and> file_blk s f i < s_nblocks s) \<and>
     (file_blocks s f > NDIRECT \<longrightarrow> 0 < ind_blk s f \<and> ind_blk s f < s_nblocks s)"

lemma file_field:
  assumes "file_ok s f" "k < 256"
  shows "ld32 s (f + k) = Some (rd32 (dmem s) (f + k))"
proof -
  have "(f + k) div 4096 = f div 4096"
    using assms by (intro div_add_within(1)) (simp add: file_ok_def)
  then show ?thesis
    using assms by (simp add: ld32_def blk_ok_def file_ok_def)
qed

lemma nblocks_of_nat:
  assumes "n < 2 ^ 31"
  shows "nblocks_of (int n) = n div 4096"
proof -
  have "int n sdiv 4096 = int (n div 4096)"
    by (cases "n = 0") (simp_all add: signed_divide_int_def zdiv_int)
  then have "nblocks_of (int n) = unat (of_nat (n div 4096) :: u32)"
    by (simp add: nblocks_of_def)
  also have "\<dots> = n div 4096"
    using assms by (simp add: unat_of_nat unsigned_of_nat take_bit_nat_eq_self)
  finally show ?thesis .
qed

lemma file_get_block_ok:
  assumes ok: "file_ok s f" and i: "i < file_blocks s f"
  shows "file_get_block s f i = Some (Inr (file_blk s f i * BLKSIZE))"
proof -
  have lim: "fsize s f \<le> 4235264" "0 \<le> sint (rd32 (dmem s) (f + 128))"
    using ok by (simp_all add: file_ok_def)
  have sz: "f_size s f = Some (int (fsize s f))"
    using file_field [OF ok, of 128] lim(2) by (simp add: f_size_def fsize_def)
  have "i \<le> (fsize s f + 4095) div 4096 - 1"
    using i by (simp add: file_blocks_def)
  then have le: "i < 1034" "i \<le> fsize s f div 4096"
    using i lim(1) by (simp_all add: file_blocks_def)
  have walk: "file_block_walk s f i = Some (Inr (slot_addr s f i))"
  proof (cases "i < 10")
    case True
    then show ?thesis
      using le sz lim by (simp add: file_block_walk_def slot_addr_def nblocks_of_nat)
  next
    case False
    then have "0 < ind_blk s f" "ind_blk s f < s_nblocks s"
      using ok i by (simp_all add: file_ok_def)
    then show ?thesis
      using False le sz lim file_field [OF ok, of 176]
      by (simp add: file_block_walk_def slot_addr_def nblocks_of_nat f_indirect_def ind_blk_def diskaddr_def
          unat_eq_zero [symmetric])
  qed
  have "ld32 s (slot_addr s f i) = Some (rd32 (dmem s) (slot_addr s f i))"
  proof (cases "i < 10")
    case True
    then show ?thesis
      using file_field [OF ok, of "136 + 4 * i"] by (simp add: slot_addr_def f_direct_def add.assoc)
  next
    case False
    then have "(ind_blk s f * 4096 + 4 * (i - 10)) div 4096 = ind_blk s f" "ind_blk s f < s_nblocks s"
      using ok i le by (simp_all add: file_ok_def)
    then show ?thesis
      using False ok by (simp add: slot_addr_def ld32_def blk_ok_def file_ok_def)
  qed
  moreover have "0 < file_blk s f i" "file_blk s f i < s_nblocks s"
    using ok i by (simp_all add: file_ok_def)
  ultimately show ?thesis
    using walk le by (simp add: file_get_block_def file_blk_def diskaddr_def unat_eq_zero [symmetric])
qed

lemma smod_int: "int n smod 4096 = int (n mod 4096)"
  by (cases "n = 0") (simp_all add: signed_modulo_int_def zmod_int)

definition chunk :: "nat \<Rightarrow> nat \<Rightarrow> nat" where
  "chunk pos stop = min (4096 - pos mod 4096) (stop - pos)"

lemma chunk_bounds:
  assumes "pos < stop"
  shows "0 < chunk pos stop" "pos mod 4096 + chunk pos stop \<le> 4096" "pos + chunk pos stop \<le> stop"
proof -
  have "pos mod 4096 < 4096"
    by simp
  then show "0 < chunk pos stop" "pos mod 4096 + chunk pos stop \<le> 4096" "pos + chunk pos stop \<le> stop"
    using assms unfolding chunk_def by linarith+
qed

lemma chunk_len_nat:
  assumes "pos < stop" "stop < 2 ^ 31"
  shows "chunk_len (of_nat pos) (of_nat stop) = of_nat (chunk pos stop)"
proof -
  have a: "(of_nat stop :: u64) - scast (of_nat pos :: u32) = of_nat (stop - pos)"
    using assms by (simp add: scast_of_nat_small)
  have b: "(word_of_int (4096 - int (pos mod 4096)) :: u64) = of_nat (4096 - pos mod 4096)"
    by (simp add: of_nat_diff)
  have m: "min (of_nat a) (of_nat b :: u64) = of_nat (min a b)" if "a < 2 ^ 64" "b < 2 ^ 64" for a b
    using that by (simp add: min_def word_le_nat_alt unat_of_nat unsigned_of_nat take_bit_nat_eq_self)
  have s: "sint (of_nat pos :: u32) smod int BLKSIZE = int (pos mod 4096)"
    using assms by (simp add: sint_of_nat_small smod_int)
  have "chunk_len (of_nat pos) (of_nat stop) = ucast (of_nat (chunk pos stop) :: u64)"
    unfolding chunk_len_def s a chunk_def
    unfolding BLKSIZE_def of_nat_numeral b using assms(2) by (subst m) simp_all
  also have "\<dots> = of_nat (chunk pos stop)"
    using chunk_bounds [OF assms(1)] assms(2) by (simp add: unsigned_of_nat take_bit_nat_eq_self)
  finally show ?thesis .
qed

lemma load_bytes_map:
  "(\<And>i. i < n \<Longrightarrow> blk_ok s ((a + i) div BLKSIZE)) \<Longrightarrow> load_bytes s a n = Some (map (dmem s) [a..<a + n])"
proof (induction n arbitrary: a)
  case (Suc n)
  have "ld8 s a = Some (dmem s a)"
    using Suc.prems [of 0] by (simp add: ld8_def)
  moreover have "load_bytes s (a + 1) n = Some (map (dmem s) [a + 1..<a + 1 + n])"
    using Suc.prems [of "Suc i" for i] by (intro Suc.IH) simp
  moreover have "[a..<a + Suc n] = a # [Suc a..<Suc (a + n)]"
    using upt_conv_Cons [of a "a + Suc n"] by simp
  ultimately show ?case
    by simp
qed simp

lemma file_pos:
  assumes ok: "file_ok s f" and pos: "pos < stop" "stop \<le> fsize s f"
  shows "(scast (of_nat pos :: u32) :: u64) < of_nat stop"
    and "file_get_block s f (nblocks_of (sint (of_nat pos :: u32))) = Some (Inr (file_blk s f (pos div 4096) * BLKSIZE))"
    and "in_block (file_blk s f (pos div 4096) * BLKSIZE) (of_nat pos) = Some (file_addr s f pos)"
    and "unat (chunk_len (of_nat pos) (of_nat stop)) = chunk pos stop"
    and "(of_nat pos :: u32) + chunk_len (of_nat pos) (of_nat stop) = of_nat (pos + chunk pos stop)"
    and "k < chunk pos stop \<Longrightarrow> file_addr s f (pos + k) = file_addr s f pos + k"
    and "k < chunk pos stop \<Longrightarrow> blk_ok s ((file_addr s f pos + k) div BLKSIZE)"
proof -
  have lim: "fsize s f \<le> 4235264"
    using ok by (simp add: file_ok_def)
  then have small: "pos < 2 ^ 31" "stop < 2 ^ 31"
    using pos by simp_all
  note c = chunk_bounds [OF pos(1)]
  show "(scast (of_nat pos :: u32) :: u64) < of_nat stop"
    using small pos(1) by (simp add: scast_of_nat_small word_less_nat_alt unat_of_nat unsigned_of_nat take_bit_nat_eq_self)
  have fb: "pos div 4096 < file_blocks s f"
    using pos by (simp add: file_blocks_def)
  then show "file_get_block s f (nblocks_of (sint (of_nat pos :: u32))) = Some (Inr (file_blk s f (pos div 4096) * BLKSIZE))"
    using small by (simp only: sint_of_nat_small nblocks_of_nat file_get_block_ok [OF ok])
  show "in_block (file_blk s f (pos div 4096) * BLKSIZE) (of_nat pos) = Some (file_addr s f pos)"
    using small by (simp add: in_block_def sint_of_nat_small smod_int file_addr_def nat_add_distrib)
  have cl: "chunk_len (of_nat pos) (of_nat stop) = of_nat (chunk pos stop)"
    using pos(1) small(2) by (rule chunk_len_nat)
  then show "unat (chunk_len (of_nat pos) (of_nat stop)) = chunk pos stop"
    using c small by (simp add: unat_of_nat unsigned_of_nat take_bit_nat_eq_self)
  show "(of_nat pos :: u32) + chunk_len (of_nat pos) (of_nat stop) = of_nat (pos + chunk pos stop)"
    by (simp add: cl)
  assume "k < chunk pos stop"
  then have k: "pos mod 4096 + k < 4096"
    using c by simp
  then show "file_addr s f (pos + k) = file_addr s f pos + k"
    by (simp add: file_addr_def div_add_within)
  have "(file_addr s f pos + k) div 4096 = file_blk s f (pos div 4096)"
    using k by (simp add: file_addr_def)
  then show "blk_ok s ((file_addr s f pos + k) div BLKSIZE)"
    using ok fb by (auto simp: file_ok_def blk_ok_def)
qed

lemma file_read_loop_ok:
  assumes ok: "file_ok s f" and le: "pos \<le> stop" "stop \<le> fsize s f"
  shows "file_read_loop s f (of_nat pos) (of_nat stop) buf =
    Some (None, buf @ map (\<lambda>i. dmem s (file_addr s f i)) [pos..<stop])"
  using le
proof (induction "stop - pos" arbitrary: pos buf rule: less_induct)
  case less
  show ?case
  proof (cases "pos < stop")
    case True
    note p = file_pos [OF ok True less.prems(2)] and c = chunk_bounds [OF True]
    let ?n = "chunk pos stop" and ?a = "file_addr s f pos"
    have "map (dmem s) [?a..<?a + ?n] = map (\<lambda>i. dmem s (file_addr s f i)) [pos..<pos + ?n]"
      using p(6) by (intro nth_equalityI) simp_all
    moreover have "load_bytes s ?a ?n = Some (map (dmem s) [?a..<?a + ?n])"
      using p(7) by (intro load_bytes_map)
    moreover have "file_read_loop s f (of_nat (pos + ?n)) (of_nat stop) bs =
        Some (None, bs @ map (\<lambda>i. dmem s (file_addr s f i)) [pos + ?n..<stop])" for bs
      using c True by (intro less.hyps) (use less.prems in simp_all)
    moreover have "[pos..<stop] = [pos..<pos + ?n] @ [pos + ?n..<stop]"
      using c upt_add_eq_append [of pos "pos + ?n" "stop - (pos + ?n)"] by simp
    ultimately show ?thesis
      using p(1-5) by (subst file_read_loop.simps) simp
  next
    case False
    then have "pos = stop"
      using less.prems by simp
    moreover have "(scast (of_nat stop :: u32) :: u64) = of_nat stop"
      using less.prems ok by (intro scast_of_nat_small) (simp add: file_ok_def)
    ultimately show ?thesis
      by (subst file_read_loop.simps) simp
  qed
qed

lemma length_contents [simp]: "length (contents s f) = fsize s f"
  by (simp add: contents_def)

lemma file_read_ok:
  fixes count :: u64
  assumes ok: "file_ok s f" and off: "k < 2 ^ 31"
  defines "n \<equiv> min (unat count) (fsize s f - k)"
  shows "file_read s f count (of_nat k) = Some (Inr (of_nat n), take n (drop k (contents s f)))"
proof -
  have lim: "fsize s f \<le> 4235264" "0 \<le> sint (rd32 (dmem s) (f + 128))"
    using ok by (simp_all add: file_ok_def)
  have sz: "f_size s f = Some (int (fsize s f))"
    using file_field [OF ok, of 128] lim(2) by (simp add: f_size_def fsize_def)
  show ?thesis
  proof (cases "k < fsize s f")
    case False
    then show ?thesis
      using sz off by (simp add: file_read_def sint_of_nat_small n_def)
  next
    case True
    have "(word_of_int (int (fsize s f)) :: u32) - of_nat k = of_nat (fsize s f - k)"
      using True by (simp add: of_nat_diff)
    then have "(scast ((word_of_int (int (fsize s f)) :: u32) - of_nat k) :: u64) = of_nat (fsize s f - k)"
      using lim scast_of_nat_small [of "fsize s f - k"] by (simp del: of_nat_diff)
    moreover have "min count (of_nat (fsize s f - k)) = of_nat n"
    proof -
      have "unat (of_nat (fsize s f - k) :: u64) = fsize s f - k"
        using lim by (simp add: unat_of_nat unsigned_of_nat take_bit_nat_eq_self)
      then show ?thesis
        by (simp add: min_def n_def word_le_nat_alt del: of_nat_diff)
    qed
    moreover have "(scast (of_nat k :: u32) :: u64) + of_nat n = of_nat (k + n)"
      using off by (simp add: scast_of_nat_small)
    moreover have "file_read_loop s f (of_nat k) (of_nat (k + n)) [] =
        Some (None, [] @ map (\<lambda>i. dmem s (file_addr s f i)) [k..<k + n])"
      using True by (intro file_read_loop_ok ok) (simp_all add: n_def)
    moreover have "map (\<lambda>i. dmem s (file_addr s f i)) [k..<k + n] = take n (drop k (contents s f))"
      using True by (intro nth_equalityI) (simp_all add: contents_def n_def less_diff_conv add.commute)
    ultimately show ?thesis
      using sz off True by (simp add: file_read_def sint_of_nat_small Let_def)
  qed
qed

text \<open>
  C12. Reading a well-formed file at an offset that is not negative returns the number of bytes that are
  there, up to the count, and exactly these bytes of its contents.
\<close>

theorem file_read_correct:
  fixes count :: u64
  assumes "file_ok s f" "0 \<le> sint offset"
  defines "n \<equiv> min (unat count) (fsize s f - unat offset)"
  shows "file_read s f count offset = Some (Inr (of_nat n), take n (drop (unat offset) (contents s f)))"
proof -
  have "unat offset < 2 ^ 31"
    using assms(2) by (rule sint_nonneg)
  from file_read_ok [OF assms(1) this, of count] show ?thesis
    by (simp add: n_def)
qed

subsection \<open>Writing\<close>

text \<open>
  \<open>file_sep s f\<close>: the data blocks of the file are different from each other, and from the super block, the
  block of the descriptor and the indirect block.
\<close>

definition file_sep :: "fs \<Rightarrow> nat \<Rightarrow> bool" where
  "file_sep s f \<longleftrightarrow> inj_on (file_blk s f) {..<file_blocks s f} \<and>
     (\<forall>i < file_blocks s f. file_blk s f i \<notin> {1, f div BLKSIZE} \<and>
        (file_blocks s f > NDIRECT \<longrightarrow> file_blk s f i \<noteq> ind_blk s f))"

text \<open>\<open>meta_same\<close>: everything that says where the bytes of the file are is the same in both states.\<close>

definition meta_same :: "nat \<Rightarrow> fs \<Rightarrow> fs \<Rightarrow> bool" where
  "meta_same f s s' \<longleftrightarrow> super_on s' = super_on s \<and> s_nblocks s' = s_nblocks s \<and>
     rd32 (dmem s') (f + 128) = rd32 (dmem s) (f + 128) \<and> ind_blk s' f = ind_blk s f \<and>
     (\<forall>i < file_blocks s f. file_blk s' f i = file_blk s f i)"

lemma meta_same_file:
  assumes "meta_same f s s'"
  shows "fsize s' f = fsize s f" "file_blocks s' f = file_blocks s f"
    "i < fsize s f \<Longrightarrow> file_addr s' f i = file_addr s f i"
    "file_ok s' f \<longleftrightarrow> file_ok s f" "file_sep s' f \<longleftrightarrow> file_sep s f"
proof -
  show sz: "fsize s' f = fsize s f"
    using assms by (simp add: meta_same_def fsize_def)
  then show nb: "file_blocks s' f = file_blocks s f"
    by (simp add: file_blocks_def)
  show "file_addr s' f i = file_addr s f i" if "i < fsize s f"
  proof -
    have "i div 4096 < file_blocks s f"
      using that by (simp add: file_blocks_def)
    then show ?thesis
      using assms by (simp add: meta_same_def file_addr_def)
  qed
  show "file_ok s' f \<longleftrightarrow> file_ok s f"
    using assms sz nb by (auto simp: meta_same_def file_ok_def)
  have "inj_on (file_blk s' f) {..<file_blocks s f} \<longleftrightarrow> inj_on (file_blk s f) {..<file_blocks s f}"
    using assms by (intro inj_on_cong) (simp add: meta_same_def)
  then show "file_sep s' f \<longleftrightarrow> file_sep s f"
    using assms sz nb by (auto simp: meta_same_def file_sep_def)
qed

lemma meta_same_trans: "meta_same f s s1 \<Longrightarrow> meta_same f s1 s2 \<Longrightarrow> meta_same f s s2"
  using meta_same_file(2) [of f s s1] by (simp add: meta_same_def)

lemma rd32_cong: "(\<And>k. k < 4 \<Longrightarrow> m' (a + k) = m (a + k)) \<Longrightarrow> rd32 m' a = rd32 m a"
  unfolding rd32_def by (rule arg_cong [where f = ucast], rule rd_le_cong)

text \<open>A change that stays in one data block of the file leaves its metadata.\<close>

lemma meta_same_data:
  assumes ok: "file_ok s f" "file_sep s f" and i: "i < file_blocks s f"
    and ch: "\<And>a. a div BLKSIZE \<noteq> file_blk s f i \<Longrightarrow> m a = dmem s a"
  shows "meta_same f s (s\<lparr>dmem := m\<rparr>)"
proof -
  have other: "rd32 m a = rd32 (dmem s) a" if "a mod 4096 + 4 \<le> 4096" "a div 4096 \<noteq> file_blk s f i" for a
  proof (rule rd32_cong)
    fix k :: nat assume "k < 4"
    then have "(a + k) div 4096 = a div 4096"
      using that(1) by (intro div_add_within) simp
    then show "m (a + k) = dmem s (a + k)"
      using that(2) by (intro ch) simp
  qed
  have sep: "file_blk s f i \<noteq> 1" "file_blk s f i \<noteq> f div 4096" "file_blocks s f > 10 \<Longrightarrow> file_blk s f i \<noteq> ind_blk s f"
    using ok(2) i by (simp_all add: file_sep_def)
  have fd: "rd32 m (f + k) = rd32 (dmem s) (f + k)" if "k + 4 \<le> 256" for k
  proof (rule other)
    have "f mod 4096 + k < 4096"
      using ok(1) that by (simp add: file_ok_def)
    from div_add_within [OF this] show "(f + k) mod 4096 + 4 \<le> 4096" "(f + k) div 4096 \<noteq> file_blk s f i"
      using ok(1) that sep(2) by (simp_all add: file_ok_def)
  qed
  have ind: "ind_blk (s\<lparr>dmem := m\<rparr>) f = ind_blk s f"
    using fd [of 176] by (simp add: ind_blk_def f_indirect_def)
  have "file_blk (s\<lparr>dmem := m\<rparr>) f j = file_blk s f j" if "j < file_blocks s f" for j
  proof (cases "j < 10")
    case True
    then show ?thesis
      using fd [of "136 + 4 * j"] by (simp add: file_blk_def slot_addr_def f_direct_def add.assoc)
  next
    case False
    then have "file_blocks s f > 10"
      using that by simp
    moreover have "fsize s f \<le> 4235264"
      using ok(1) by (simp add: file_ok_def)
    then have "j < 1034"
      using that by (simp add: file_blocks_def)
    ultimately have "rd32 m (ind_blk s f * 4096 + 4 * (j - 10)) = rd32 (dmem s) (ind_blk s f * 4096 + 4 * (j - 10))"
      using sep(3) by (intro other) simp_all
    then show ?thesis
      using False ind by (simp add: file_blk_def slot_addr_def)
  qed
  moreover have "s_nblocks (s\<lparr>dmem := m\<rparr>) = s_nblocks s"
    using other [of 4100] sep(1) by (simp add: s_nblocks_def)
  ultimately show ?thesis
    using fd [of 128] ind by (simp add: meta_same_def)
qed

lemma store_bytes_block:
  assumes "a mod BLKSIZE + length bs \<le> BLKSIZE" "blk_ok s (a div BLKSIZE)" "a div BLKSIZE \<noteq> 1"
  shows "store_bytes a bs s =
    Some (s\<lparr>dmem := \<lambda>x. if a \<le> x \<and> x < a + length bs then bs ! (x - a) else dmem s x\<rparr>)"
  using assms
proof (induction bs arbitrary: a s)
  case Nil
  have "(\<lambda>x. if a \<le> x \<and> x < a + length [] then [] ! (x - a) else dmem s x) = dmem s"
    by (rule ext) auto
  then show ?case by (simp only: store_bytes.simps) simp
next
  case (Cons b bs)
  define s1 where "s1 = s\<lparr>dmem := (dmem s)(a := b)\<rparr>"
  have "sto8 a b s = Some s1"
    using Cons.prems by (simp add: sto8_def s1_def)
  moreover have "rd32 (dmem s1) 4100 = rd32 (dmem s) 4100"
    unfolding s1_def using Cons.prems by (intro rd32_cong) auto
  then have ok: "blk_ok s1 b = blk_ok s b" for b
    by (simp add: blk_ok_def s_nblocks_def s1_def)
  show ?case
  proof (cases bs)
    case Nil
    then show ?thesis
      using calculation by (auto simp: s1_def fun_eq_iff)
  next
    case (Cons c cs)
    then have "(a + 1) div 4096 = a div 4096" "(a + 1) mod 4096 = a mod 4096 + 1"
      using Cons.prems div_add_within [of a 4096 1] by simp_all
    then have "store_bytes (a + 1) bs s1 =
        Some (s1\<lparr>dmem := \<lambda>x. if a + 1 \<le> x \<and> x < a + 1 + length bs then bs ! (x - (a + 1)) else dmem s1 x\<rparr>)"
      using Cons.prems ok by (intro Cons.IH) simp_all
    moreover have "(\<lambda>x. if a + 1 \<le> x \<and> x < a + 1 + length bs then bs ! (x - (a + 1)) else dmem s1 x) =
        (\<lambda>x. if a \<le> x \<and> x < a + length (b # bs) then (b # bs) ! (x - a) else dmem s x)"
      by (rule ext) (auto simp: s1_def nth_Cons')
    ultimately show ?thesis
      using \<open>sto8 a b s = Some s1\<close> by (simp add: s1_def)
  qed
qed

text \<open>The effect of a write of \<open>buf\<close> at position \<open>pos\<close> of the file.\<close>

definition wrote :: "nat \<Rightarrow> nat \<Rightarrow> u8 list \<Rightarrow> fs \<Rightarrow> fs \<Rightarrow> bool" where
  "wrote f pos buf s s' \<longleftrightarrow> meta_same f s s' \<and>
     (\<forall>i < fsize s f. dmem s' (file_addr s f i) =
        (if pos \<le> i \<and> i < pos + length buf then buf ! (i - pos) else dmem s (file_addr s f i))) \<and>
     (\<forall>a. a \<notin> file_addr s f ` {pos..<pos + length buf} \<longrightarrow> dmem s' a = dmem s a)"

lemma wrote_append:
  assumes "wrote f pos b1 s s1" "wrote f (pos + length b1) b2 s1 s2" "pos + length b1 + length b2 \<le> fsize s f"
  shows "wrote f pos (b1 @ b2) s s2"
proof -
  note m = meta_same_file [of f s s1]
  have ms: "meta_same f s s1"
    using assms(1) by (simp add: wrote_def)
  have adr: "file_addr s1 f i = file_addr s f i" if "i < fsize s f" for i
    using m(3) ms that by simp
  have img: "file_addr s1 f ` {pos + length b1..<pos + length b1 + length b2} =
      file_addr s f ` {pos + length b1..<pos + length b1 + length b2}"
    using assms(3) adr by (intro image_cong) auto
  show ?thesis
    unfolding wrote_def
  proof (intro conjI allI impI)
    show "meta_same f s s2"
      using assms by (auto simp: wrote_def intro: meta_same_trans)
  next
    fix i assume i: "i < fsize s f"
    have "dmem s1 (file_addr s f i) =
        (if pos \<le> i \<and> i < pos + length b1 then b1 ! (i - pos) else dmem s (file_addr s f i))"
      using assms(1) i by (simp add: wrote_def)
    moreover have "dmem s2 (file_addr s f i) = (if pos + length b1 \<le> i \<and> i < pos + length b1 + length b2
        then b2 ! (i - (pos + length b1)) else dmem s1 (file_addr s f i))"
      using assms(2) i m(1) ms adr [OF i] unfolding wrote_def by metis
    ultimately show "dmem s2 (file_addr s f i) = (if pos \<le> i \<and> i < pos + length (b1 @ b2)
        then (b1 @ b2) ! (i - pos) else dmem s (file_addr s f i))"
      by (simp add: nth_append) linarith
  next
    fix a assume "a \<notin> file_addr s f ` {pos..<pos + length (b1 @ b2)}"
    then have "a \<notin> file_addr s f ` {pos..<pos + length b1}"
      "a \<notin> file_addr s1 f ` {pos + length b1..<pos + length b1 + length b2}"
      unfolding img by auto
    then show "dmem s2 a = dmem s a"
      using assms(1,2) by (simp add: wrote_def)
  qed
qed

lemma file_addr_div:
  "file_addr s f i div 4096 = file_blk s f (i div 4096)" "file_addr s f i mod 4096 = i mod 4096"
  by (simp_all add: file_addr_def)

lemma file_addr_add: "pos mod 4096 + k < 4096 \<Longrightarrow> file_addr s f (pos + k) = file_addr s f pos + k"
  by (simp add: file_addr_def div_add_within)

lemma div_mod_eqI: "(a :: nat) div 4096 = b div 4096 \<Longrightarrow> a mod 4096 = b mod 4096 \<Longrightarrow> a = b"
  by (metis div_mult_mod_eq)

text \<open>Within one block, addresses and positions correspond.\<close>

lemma file_addr_range:
  assumes sep: "file_sep s f" and i: "i < fsize s f" and pos: "pos < fsize s f"
    and n: "pos mod 4096 + n \<le> 4096"
  shows "file_addr s f pos \<le> file_addr s f i \<and> file_addr s f i < file_addr s f pos + n \<longleftrightarrow> pos \<le> i \<and> i < pos + n"
    and "pos \<le> i \<and> i < pos + n \<Longrightarrow> file_addr s f i - file_addr s f pos = i - pos"
proof -
  have eq: "file_addr s f (pos + k) = file_addr s f pos + k" if "k < n" for k
    using n that by (intro file_addr_add) simp
  have fw: "file_addr s f i = file_addr s f pos + (i - pos)" if "pos \<le> i \<and> i < pos + n"
    using eq [of "i - pos"] that by auto
  then show "pos \<le> i \<and> i < pos + n \<Longrightarrow> file_addr s f i - file_addr s f pos = i - pos"
    by simp
  have bw: "i = pos + k" if k: "k < n" and a: "file_addr s f i = file_addr s f pos + k" for k
  proof -
    have "file_addr s f pos mod 4096 + k < 4096"
      using n k by (simp add: file_addr_div)
    from div_add_within [OF this] have d: "file_blk s f (i div 4096) = file_blk s f (pos div 4096)"
        and m: "i mod 4096 = pos mod 4096 + k"
      unfolding a [symmetric] file_addr_div by simp_all
    have "i div 4096 < file_blocks s f" "pos div 4096 < file_blocks s f"
      using i pos by (simp_all add: file_blocks_def)
    then have q: "i div 4096 = pos div 4096"
      using sep d by (auto simp: file_sep_def dest: inj_onD)
    have "pos mod 4096 + k < 4096"
      using n k by simp
    note w = div_add_within [OF this]
    show ?thesis
      by (rule div_mod_eqI) (simp_all only: w q m)
  qed
  have "pos \<le> i \<and> i < pos + n" if r: "file_addr s f pos \<le> file_addr s f i" "file_addr s f i < file_addr s f pos + n"
    using bw [of "file_addr s f i - file_addr s f pos"] r by linarith
  with fw show "file_addr s f pos \<le> file_addr s f i \<and> file_addr s f i < file_addr s f pos + n \<longleftrightarrow> pos \<le> i \<and> i < pos + n"
    by linarith
qed

lemma store_chunk:
  assumes ok: "file_ok s f" "file_sep s f" and pos: "pos < fsize s f"
    and n: "pos mod 4096 + length bs \<le> 4096" "pos + length bs \<le> fsize s f"
  shows "\<exists>s1. store_bytes (file_addr s f pos) bs s = Some s1 \<and> wrote f pos bs s s1"
proof -
  let ?a = "file_addr s f pos"
  define s1 where "s1 = s\<lparr>dmem := \<lambda>x. if ?a \<le> x \<and> x < ?a + length bs then bs ! (x - ?a) else dmem s x\<rparr>"
  have b: "pos div 4096 < file_blocks s f"
    using pos by (simp add: file_blocks_def)
  then have blk: "blk_ok s (file_blk s f (pos div 4096))" "file_blk s f (pos div 4096) \<noteq> 1"
    using ok by (auto simp: file_ok_def file_sep_def blk_ok_def)
  then have "store_bytes ?a bs s = Some s1"
    unfolding s1_def using n(1) by (intro store_bytes_block) (simp_all add: file_addr_div)
  moreover have "meta_same f s s1"
    unfolding s1_def
  proof (rule meta_same_data [OF ok b])
    fix a assume "a div BLKSIZE \<noteq> file_blk s f (pos div 4096)"
    moreover have "a div 4096 = ?a div 4096" if "?a \<le> a" "a < ?a + length bs"
      using that n(1) div_add_within(1) [of ?a 4096 "a - ?a"] by (simp add: file_addr_div)
    ultimately show "(if ?a \<le> a \<and> a < ?a + length bs then bs ! (a - ?a) else dmem s a) = dmem s a"
      by (auto simp: file_addr_div)
  qed
  moreover have "dmem s1 (file_addr s f i) =
      (if pos \<le> i \<and> i < pos + length bs then bs ! (i - pos) else dmem s (file_addr s f i))" if "i < fsize s f" for i
    using file_addr_range [OF ok(2) that pos n(1)] by (auto simp: s1_def)
  moreover have "dmem s1 a = dmem s a" if "a \<notin> file_addr s f ` {pos..<pos + length bs}" for a
  proof -
    have "\<not> (?a \<le> a \<and> a < ?a + length bs)"
    proof
      assume r: "?a \<le> a \<and> a < ?a + length bs"
      then have "pos mod 4096 + (a - ?a) < 4096"
        using n(1) by linarith
      then have "file_addr s f (pos + (a - ?a)) = a"
        using file_addr_add [of pos "a - ?a" s f] r by linarith
      moreover have "pos + (a - ?a) \<in> {pos..<pos + length bs}"
        using r by auto
      ultimately show False
        using that by (metis imageI)
    qed
    then show ?thesis
      by (auto simp: s1_def)
  qed
  ultimately show ?thesis
    by (auto simp: wrote_def)
qed

lemma file_write_loop_ok:
  assumes "file_ok s f" "file_sep s f" "pos + length buf = stop" "stop \<le> fsize s f"
  shows "\<exists>s'. file_write_loop f (of_nat pos) (of_nat stop) buf s = Some (None, s') \<and> wrote f pos buf s s'"
  using assms
proof (induction "stop - pos" arbitrary: pos buf s rule: less_induct)
  case less
  note ok = less.prems(1,2)
  show ?case
  proof (cases "pos < stop")
    case True
    note p = file_pos [OF ok(1) True less.prems(4)] and c = chunk_bounds [OF True]
    let ?n = "chunk pos stop"
    let ?b1 = "take ?n buf" and ?b2 = "drop ?n buf"
    have len: "length ?b1 = ?n" "pos < fsize s f"
      using c less.prems(3,4) by auto
    obtain s1 where s1: "store_bytes (file_addr s f pos) ?b1 s = Some s1" "wrote f pos ?b1 s s1"
      using store_chunk [OF ok, of pos ?b1] len c less.prems by auto
    note m = meta_same_file [of f s s1]
    have ok1: "file_ok s1 f" "file_sep s1 f" "fsize s1 f = fsize s f"
      using m s1(2) ok by (simp_all add: wrote_def)
    have dec: "stop - (pos + ?n) < stop - pos" "pos + ?n + length ?b2 = stop" "stop \<le> fsize s1 f"
      using c True less.prems ok1(3) by simp_all
    obtain s2 where s2: "file_write_loop f (of_nat (pos + ?n)) (of_nat stop) ?b2 s1 = Some (None, s2)"
        "wrote f (pos + ?n) ?b2 s1 s2"
      using less.hyps [OF dec(1) ok1(1,2) dec(2,3)] by blast
    have "wrote f pos (?b1 @ ?b2) s s2"
      using s1(2) s2(2) len c less.prems by (intro wrote_append) simp_all
    then show ?thesis
      using p(1-5) s1(1) s2(1) by (subst file_write_loop.simps) simp
  next
    case False
    then have "length buf = 0"
      using less.prems(3) by linarith
    then have "pos = stop" "buf = []"
      using less.prems(3) by simp_all
    moreover have "(scast (of_nat stop :: u32) :: u64) = of_nat stop"
      using less.prems ok by (intro scast_of_nat_small) (simp add: file_ok_def)
    ultimately show ?thesis
      by (subst file_write_loop.simps) (auto simp: wrote_def meta_same_def)
  qed
qed

lemma wrote_contents:
  assumes "wrote f pos buf s s'" "pos + length buf \<le> fsize s f"
  shows "contents s' f = take pos (contents s f) @ buf @ drop (pos + length buf) (contents s f)"
proof (rule nth_equalityI)
  have ms: "meta_same f s s'"
    using assms(1) by (simp add: wrote_def)
  then show "length (contents s' f) = length (take pos (contents s f) @ buf @ drop (pos + length buf) (contents s f))"
    using assms(2) meta_same_file(1) [OF ms] by simp
  fix i assume "i < length (contents s' f)"
  then have i: "i < fsize s f"
    using meta_same_file(1) [OF ms] by simp
  then have "contents s' f ! i = dmem s' (file_addr s f i)"
    using meta_same_file(1,3) [OF ms] by (simp add: contents_def)
  also have "\<dots> = (if pos \<le> i \<and> i < pos + length buf then buf ! (i - pos) else contents s f ! i)"
    using assms(1) i by (simp add: wrote_def contents_def)
  also have "\<dots> = (take pos (contents s f) @ buf @ drop (pos + length buf) (contents s f)) ! i"
    using assms(2) i by (auto simp: nth_append min_def)
  finally show "contents s' f ! i = (take pos (contents s f) @ buf @ drop (pos + length buf) (contents s f)) ! i" .
qed

lemma file_write_ok:
  assumes ok: "file_ok s f" "file_sep s f" and le: "k + length buf \<le> fsize s f"
  shows "\<exists>s'. file_write f buf (of_nat k) s = Some (Inr (of_nat (length buf)), s') \<and> wrote f k buf s s'"
proof -
  have lim: "fsize s f \<le> 4235264" "0 \<le> sint (rd32 (dmem s) (f + 128))"
    using ok by (simp_all add: file_ok_def)
  have sz: "f_size s f = Some (int (fsize s f))"
    using file_field [OF ok(1), of 128] lim(2) by (simp add: f_size_def fsize_def)
  have stop: "(scast (of_nat k :: u32) :: u64) + of_nat (length buf) = of_nat (k + length buf)"
    using le lim by (simp add: scast_of_nat_small)
  have "\<not> (of_nat (k + length buf) > (of_nat (fsize s f) :: u64))"
    using le lim by (simp add: word_less_nat_alt unat_of_nat unsigned_of_nat take_bit_nat_eq_self del: of_nat_add)
  then show ?thesis
    using file_write_loop_ok [OF ok refl le] sz stop by (auto simp: file_write_def Let_def simp del: of_nat_add)
qed

text \<open>
  C13. What is written is read back. Writing \<open>buf\<close> inside a well-formed file whose blocks are its own
  succeeds; the file is still well formed and has the same size; reading at the same offset gives \<open>buf\<close>; the
  other bytes of the file, and all bytes of the disk outside the range, are as before.
\<close>

theorem file_write_read:
  assumes "file_ok s f" "file_sep s f" "k + length buf \<le> fsize s f"
  shows "\<exists>s'. file_write f buf (of_nat k) s = Some (Inr (of_nat (length buf)), s') \<and> file_ok s' f \<and>
    file_read s' f (of_nat (length buf)) (of_nat k) = Some (Inr (of_nat (length buf)), buf) \<and>
    contents s' f = take k (contents s f) @ buf @ drop (k + length buf) (contents s f) \<and>
    (\<forall>a. a \<notin> file_addr s f ` {k..<k + length buf} \<longrightarrow> dmem s' a = dmem s a)"
proof -
  obtain s' where s': "file_write f buf (of_nat k) s = Some (Inr (of_nat (length buf)), s')" "wrote f k buf s s'"
    using file_write_ok [OF assms] by blast
  then have ms: "meta_same f s s'"
    by (simp add: wrote_def)
  have ok': "file_ok s' f" and sz: "fsize s' f = fsize s f"
    using meta_same_file [OF ms] assms(1) by simp_all
  have c: "contents s' f = take k (contents s f) @ buf @ drop (k + length buf) (contents s f)"
    using wrote_contents [OF s'(2) assms(3)] .
  have lim: "fsize s f \<le> 4235264"
    using assms(1) by (simp add: file_ok_def)
  then have len: "unat (of_nat (length buf) :: u64) = length buf"
    using assms(3) by (simp add: unat_of_nat unsigned_of_nat take_bit_nat_eq_self)
  have "file_read s' f (of_nat (length buf)) (of_nat k) = Some (Inr (of_nat (length buf)), buf)"
    using file_read_ok [OF ok', of k "of_nat (length buf)"] assms(3) lim
    by (simp add: len sz c del: length_contents add: length_contents [of s f, simplified])
  with s' ok' c show ?thesis
    by (auto simp: wrote_def)
qed

lemma rd32_wr32 [simp]: "rd32 (wr32 a w m) a = w"
proof (rule bit_word_eqI)
  fix i assume "i < LENGTH(32)"
  then have "i div 8 = 0 \<or> i div 8 = 1 \<or> i div 8 = 2 \<or> i div 8 = 3"
    by simp linarith
  moreover have "8 * (i div 8) + i mod 8 = i"
    by simp
  then have "i div 8 = 0 \<Longrightarrow> i mod 8 = i" "i div 8 = 1 \<Longrightarrow> 8 + i mod 8 = i" "i div 8 = 2 \<Longrightarrow> 16 + i mod 8 = i"
      "i div 8 = 3 \<Longrightarrow> 24 + i mod 8 = i"
    by linarith+
  ultimately show "bit (rd32 (wr32 a w m) a) i = bit w i"
    using \<open>i < LENGTH(32)\<close> by (elim disjE) (auto simp: rd32_def wr32_def bit_simps bit_rd_le)
qed

lemma rd32_wr32_other: "b + 4 \<le> a \<or> a + 4 \<le> b \<Longrightarrow> rd32 (wr32 a w m) b = rd32 m b"
  by (rule rd32_cong) (auto simp: wr32_def)

subsection \<open>Negative offsets\<close>

lemma neg_smod:
  assumes "0 < k" "k < 4096"
  shows "(- int k) smod 4096 = - int k" "nblocks_of (- int k) = 0"
  using assms by (simp_all add: signed_modulo_int_def signed_divide_int_def nblocks_of_def)

lemma file_read_loop_neg:
  assumes ok: "file_ok s f" "0 < fsize s f" and n: "0 < n" "n < k" "k < 4096"
  shows "file_read_loop s f (- of_nat k) (- of_nat (k - n)) [] =
    Some (None, map (dmem s) [file_blk s f 0 * BLKSIZE - k..<file_blk s f 0 * BLKSIZE - k + n])"
proof -
  let ?a = "file_blk s f 0 * BLKSIZE - k"
  have fb: "0 < file_blocks s f"
    using ok(2) by (simp add: file_blocks_def)
  then have blk: "0 < file_blk s f 0" "file_blk s f 0 < s_nblocks s"
    using ok(1) by (simp_all add: file_ok_def)
  have "(scast (- of_nat k :: u32) :: u64) < - of_nat (k - n)"
    using n by (simp add: neg_u32 word_less_nat_alt unat_neg_nat del: of_nat_diff)
  moreover have "file_get_block s f (nblocks_of (sint (- of_nat k :: u32))) = Some (Inr (file_blk s f 0 * BLKSIZE))"
    using n fb by (simp add: neg_u32 neg_smod file_get_block_ok [OF ok(1)])
  moreover have "in_block (file_blk s f 0 * BLKSIZE) (- of_nat k) = Some ?a"
    using n blk smod_int [of k] by (simp add: in_block_def neg_u32 nat_diff_distrib')
  moreover have "chunk_len (- of_nat k) (- of_nat (k - n)) = of_nat n"
  proof -
    have a: "(word_of_int (int BLKSIZE - sint (- of_nat k :: u32) smod int BLKSIZE) :: u64) = of_nat (4096 + k)"
      using n smod_int [of k] by (simp add: neg_u32)
    have b: "- of_nat (k - n) - scast (- of_nat k :: u32) = (of_nat n :: u64)"
      using n by (simp add: neg_u32 of_nat_diff)
    have c: "min (of_nat (4096 + k)) (of_nat n) = (of_nat n :: u64)"
      using n by (intro min_absorb2)
        (simp add: word_le_nat_alt unat_of_nat unsigned_of_nat take_bit_nat_eq_self del: of_nat_add)
    show ?thesis
      unfolding chunk_len_def a b c using n by (simp add: unsigned_of_nat take_bit_nat_eq_self)
  qed
  moreover have "load_bytes s ?a n = Some (map (dmem s) [?a..<?a + n])"
  proof (rule load_bytes_map)
    fix i assume "i < n"
    then have "?a + i < file_blk s f 0 * 4096"
      using n blk by simp
    then have "(?a + i) div 4096 < file_blk s f 0"
      by (simp add: less_mult_imp_div_less)
    then show "blk_ok s ((?a + i) div BLKSIZE)"
      using blk ok(1) by (simp add: blk_ok_def file_ok_def)
  qed
  moreover have "(- of_nat k :: u32) + of_nat n = - of_nat (k - n)"
    using n by (simp add: of_nat_diff)
  moreover have "file_read_loop s f (- of_nat (k - n)) (- of_nat (k - n)) bs = Some (None, bs)" for bs
  proof -
    have "(scast (- of_nat (k - n) :: u32) :: u64) = - of_nat (k - n)"
      using n by (intro neg_u32) simp_all
    then show ?thesis
      by (subst file_read_loop.simps) (simp only: order.irrefl if_False)
  qed
  ultimately show ?thesis
    using n by (subst file_read_loop.simps)
      (simp add: unat_of_nat unsigned_of_nat take_bit_nat_eq_self del: of_nat_diff)
qed

text \<open>
  C34. A negative offset is not refused. Reading \<open>n\<close> bytes at offset \<open>- k\<close>, with \<open>n < k\<close> less than a block,
  returns bytes that do not belong to the file: those that end \<open>k - n\<close> bytes before its first block.
\<close>

theorem file_read_negative_leaks:
  assumes "file_ok s f" "0 < fsize s f" "0 < n" "n < k" "k < 4096"
  shows "file_read s f (of_nat n) (- of_nat k) =
    Some (Inr (of_nat n), map (dmem s) [file_blk s f 0 * BLKSIZE - k..<file_blk s f 0 * BLKSIZE - k + n])"
proof -
  have lim: "fsize s f \<le> 4235264" "0 \<le> sint (rd32 (dmem s) (f + 128))"
    using assms(1) by (simp_all add: file_ok_def)
  have sz: "f_size s f = Some (int (fsize s f))"
    using file_field [OF assms(1), of 128] lim(2) by (simp add: f_size_def fsize_def)
  have "(scast ((word_of_int (int (fsize s f)) :: u32) - (- of_nat k)) :: u64) = of_nat (fsize s f + k)"
    using scast_of_nat_small [of "fsize s f + k"] lim assms(5) by simp
  moreover have "min (of_nat n) (of_nat (fsize s f + k)) = (of_nat n :: u64)"
    using lim assms by (intro min_absorb1)
      (simp add: word_le_nat_alt unat_of_nat unsigned_of_nat take_bit_nat_eq_self del: of_nat_add)
  moreover have "(scast (- of_nat k :: u32) :: u64) + of_nat n = - of_nat (k - n)"
    using assms by (simp add: neg_u32 of_nat_diff)
  ultimately show ?thesis
    using sz file_read_loop_neg [OF assms] assms
    by (simp add: file_read_def neg_u32 Let_def del: of_nat_add of_nat_diff)
qed

subsection \<open>Paths\<close>

text \<open>
  A reference for \<^verbatim>\<open>walk_path\<close>: split the path at the slashes, drop the empty components, and look up one after the
  other.
\<close>

fun split_slash :: "u8 list \<Rightarrow> u8 list list" where
  "split_slash [] = [[]]"
| "split_slash (c # cs) =
     (if c = 0x2F then [] # split_slash cs else (c # hd (split_slash cs)) # tl (split_slash cs))"

definition components :: "u8 list \<Rightarrow> u8 list list" where
  "components path = filter (\<lambda>x. x \<noteq> []) (split_slash path)"

fun resolve :: "fs \<Rightarrow> nat option \<Rightarrow> nat \<Rightarrow> u8 list list \<Rightarrow> walk option" where
  "resolve s dir f [] = Some \<lparr>w_err = None, w_dir = dir, w_file = Some f, w_last = None\<rparr>"
| "resolve s dir f (name # names) =
     (if length name \<ge> MAXNAMELEN then Some (walk_fail E_BAD_PATH)
      else do {
        t \<leftarrow> f_type s f;
        if t \<noteq> FTYPE_DIR then Some (walk_fail E_NOT_FOUND)
        else do {
          r \<leftarrow> dir_lookup s f name;
          (case r of
             Inl e \<Rightarrow> Some (if e = E_NOT_FOUND \<and> names = []
                            then \<lparr>w_err = Some e, w_dir = Some f, w_file = None, w_last = Some name\<rparr>
                            else walk_fail e)
           | Inr f1 \<Rightarrow> resolve s (Some f) f1 names)
        }
      })"

lemma split_slash_nonempty [simp]: "split_slash p \<noteq> []"
  by (cases p) simp_all

lemma split_slash_name:
  "split_slash p = takeWhile (\<lambda>c. c \<noteq> 0x2F) p #
     (case dropWhile (\<lambda>c. c \<noteq> 0x2F) p of [] \<Rightarrow> [] | _ # cs \<Rightarrow> split_slash cs)"
  by (induction p) (simp_all split: list.splits)

lemma components_slash [simp]: "components [] = []" "components (0x2F # cs) = components cs"
  by (simp_all add: components_def)

lemma components_skip [simp]: "components (skip_slash p) = components p"
  by (induction p) (simp_all add: skip_slash_def)

lemma components_name:
  assumes "p \<noteq> []" "hd p \<noteq> 0x2F"
  shows "components p = takeWhile (\<lambda>c. c \<noteq> 0x2F) p # components (skip_slash (dropWhile (\<lambda>c. c \<noteq> 0x2F) p))"
proof -
  have "takeWhile (\<lambda>c. c \<noteq> 0x2F) p \<noteq> []"
    using assms by (cases p) simp_all
  then have c: "components p = takeWhile (\<lambda>c. c \<noteq> 0x2F) p #
      filter (\<lambda>x. x \<noteq> []) (case dropWhile (\<lambda>c. c \<noteq> 0x2F) p of [] \<Rightarrow> [] | _ # cs \<Rightarrow> split_slash cs)"
    by (simp only: components_def split_slash_name [of p] filter.simps if_True simp_thms)
  show ?thesis
  proof (cases "dropWhile (\<lambda>c. c \<noteq> 0x2F) p")
    case Nil
    show ?thesis
      unfolding c Nil by (simp add: skip_slash_def)
  next
    case (Cons x cs)
    then have "x = 0x2F"
      using hd_dropWhile [of "\<lambda>c. c \<noteq> 0x2F" p] by auto
    then show ?thesis
      unfolding c Cons by (simp add: components_def [symmetric])
  qed
qed

lemma skip_slash_hd: "skip_slash p \<noteq> [] \<Longrightarrow> hd (skip_slash p) \<noteq> 0x2F"
  unfolding skip_slash_def by (rule hd_dropWhile)

lemma components_Nil: "components (skip_slash p) = [] \<longleftrightarrow> skip_slash p = []"
  using components_name [of "skip_slash p"] skip_slash_hd [of p] by fastforce

lemma walk_loop_resolve:
  "p = skip_slash q \<Longrightarrow> walk_loop s dir f p = resolve s dir f (components p)"
proof (induction s dir f p arbitrary: q rule: walk_loop.induct)
  case (1 s dir f path)
  show ?case
  proof (cases "path = []")
    case True
    then show ?thesis by (simp add: walk_loop.simps)
  next
    case False
    then have "hd path \<noteq> 0x2F"
      using skip_slash_hd "1.prems" by blast
    note c = components_name [OF False this]
    let ?rest = "skip_slash (dropWhile (\<lambda>c. c \<noteq> 0x2F) path)"
    have "components ?rest = [] \<longleftrightarrow> ?rest = []"
      by (rule components_Nil)
    then show ?thesis
      using False "1.IH" [OF False refl refl] unfolding c
      by (subst walk_loop.simps) (auto simp: Let_def split: sum.splits Option.bind_splits)
  qed
qed

text \<open>
  C20. \<^verbatim>\<open>walk_path\<close> gives for every path what looking up its components one after the other gives, where empty
  components do not count: repeated slashes and a slash at either end make no difference.
\<close>

theorem walk_path_components:
  "walk_path s path = resolve s None s_root (components path)"
  using walk_loop_resolve [OF refl, of s None s_root path] by (simp add: walk_path_def)

subsection \<open>The bitmap\<close>

lemma bitmap_word_eq: "bitmap_word b = bitmap_word c \<longleftrightarrow> b div 32 = c div 32"
  by (simp add: bitmap_word_def)

lemma sto32_frame:
  assumes "sto32 a w s = Some s'" "a \<ge> 2 * BLKSIZE"
  shows "s_nblocks s' = s_nblocks s" "super_on s' = super_on s" "blk_ok s' b = blk_ok s b"
    "dmem s' = wr32 a w (dmem s)"
proof -
  show d: "dmem s' = wr32 a w (dmem s)" "super_on s' = super_on s"
    using assms(1) by (auto simp: sto32_def split: if_splits)
  show n: "s_nblocks s' = s_nblocks s"
    using assms(2) by (simp add: s_nblocks_def d rd32_wr32_other)
  show "blk_ok s' b = blk_ok s b"
    by (simp add: blk_ok_def d n)
qed

text \<open>
  C26. \<^verbatim>\<open>free_block\<close> marks exactly one block free: on a block of the disk whose bitmap word is on
  the disk it succeeds, after it \<^verbatim>\<open>block_is_free\<close> says yes for that block and what it said before
  for every other block.
\<close>

theorem free_block_correct:
  assumes "super_on s" "s_nblocks s \<le> DISKSIZE div BLKSIZE" "0 < b" "b < s_nblocks s"
    and "bitmap_word b div BLKSIZE < s_nblocks s"
  shows "\<exists>s'. free_block b s = Some s' \<and> (\<forall>c. block_is_free s' c = (if c = b then Some True else block_is_free s c))"
proof -
  let ?w = "rd32 (dmem s) (bitmap_word b)"
  have ok: "blk_ok s (bitmap_word b div 4096)"
    using assms by (simp add: blk_ok_def)
  define s' where "s' = s\<lparr>dmem := wr32 (bitmap_word b) (?w OR push_bit (b mod 32) 1) (dmem s)\<rparr>"
  have st: "sto32 (bitmap_word b) (?w OR push_bit (b mod 32) 1) s = Some s'"
    using ok by (simp add: sto32_def s'_def)
  then have free: "free_block b s = Some s'"
    using ok assms(3) by (simp add: free_block_def ld32_def)
  note fr = sto32_frame [OF st]
  have big: "2 * BLKSIZE \<le> bitmap_word b"
    by (simp add: bitmap_word_def)
  have same: "rd32 (dmem s') (bitmap_word c) =
      (if c div 32 = b div 32 then ?w OR push_bit (b mod 32) 1 else rd32 (dmem s) (bitmap_word c))" for c
    unfolding fr(4) [OF big] using bitmap_word_eq [of c b]
    by (auto simp: bitmap_word_def intro!: rd32_wr32_other)
  have "block_is_free s' c = (if c = b then Some True else block_is_free s c)" for c
  proof (cases "c div 32 = b div 32")
    case True
    then have "c = b \<longleftrightarrow> c mod 32 = b mod 32" "bitmap_word c = bitmap_word b"
      by (metis div_mult_mod_eq, simp add: bitmap_word_eq)
    then show ?thesis
      using assms ok True same [of c] fr(1-3) [OF big]
      by (cases "c = b") (auto simp: block_is_free_def ld32_def and_exp_eq_0_iff_not_bit bit_simps)
  next
    case False
    then show ?thesis
      using same [of c] fr(1-3) [OF big] by (auto simp: block_is_free_def ld32_def)
  qed
  with free show ?thesis by blast
qed

subsection \<open>An example disk\<close>

text \<open>A disk of 256 blocks; the file described at the start of block 3 has 5 bytes, in block 4.\<close>

definition example_fs :: fs where
  "example_fs = \<lparr>dmem = (\<lambda>_. 0)(4101 := 1, 12416 := 5, 12424 := 4, 16384 := 0x68, 16385 := 0x65, 16386 := 0x6C,
     16387 := 0x6C, 16388 := 0x6F), super_on = True\<rparr>"

lemma rd32_bytes:
  "rd32 m a = ucast (m a) OR push_bit 8 (ucast (m (a + 1))) OR push_bit 16 (ucast (m (a + 2))) OR
     push_bit 24 (ucast (m (a + 3)))"
proof -
  have "rd_le 4 m a = ucast (m a) OR push_bit 8 (ucast (m (a + 1)) OR push_bit 8 (ucast (m (a + 2)) OR
      push_bit 8 (ucast (m (a + 3)))))"
    by (simp add: numeral_eq_Suc)
  then show ?thesis
    unfolding rd32_def by (intro bit_word_eqI) (auto simp: bit_simps)
qed

lemma example_fs_vals:
  "rd32 (dmem example_fs) 4100 = 256" "rd32 (dmem example_fs) 8192 = 0" "rd32 (dmem example_fs) 12416 = 5"
  "rd32 (dmem example_fs) 12424 = 4" "super_on example_fs"
  by (simp_all add: rd32_bytes example_fs_def)

lemma example_fs_file:
  "s_nblocks example_fs = 256" "fsize example_fs 12288 = 5" "file_blocks example_fs 12288 = 1"
  "file_blk example_fs 12288 0 = 4"
  using example_fs_vals
  by (simp_all add: s_nblocks_def fsize_def file_blocks_def file_blk_def slot_addr_def f_direct_def)

lemma example_fs_ok: "file_ok example_fs 12288" "file_sep example_fs 12288"
  using example_fs_file example_fs_vals by (simp_all add: file_ok_def file_sep_def lessThan_Suc)

lemma example_fs_contents: "contents example_fs 12288 = [0x68, 0x65, 0x6C, 0x6C, 0x6F]"
proof -
  have "map (\<lambda>i. dmem example_fs (file_addr example_fs 12288 i)) [0, 1, 2, 3, 4] = [0x68, 0x65, 0x6C, 0x6C, 0x6F]"
    by (simp add: file_addr_def example_fs_file) (simp add: example_fs_def)
  moreover have "[0..<5] = [0, 1, 2, 3, 4]"
    by (simp add: upt_rec)
  ultimately show ?thesis
    by (simp add: contents_def example_fs_file)
qed

theorem free_block_correct_witness:
  "\<exists>s'. free_block 5 example_fs = Some s' \<and> block_is_free s' 5 = Some True \<and> block_is_free s' 6 = Some False"
proof -
  have "block_is_free example_fs 6 = Some False"
    using example_fs_vals example_fs_file by (simp add: block_is_free_def bitmap_word_def ld32_def blk_ok_def)
  then show ?thesis
    using free_block_correct [of example_fs 5] example_fs_vals example_fs_file by (auto simp: bitmap_word_def)
qed

theorem file_read_correct_witness:
  "file_read example_fs 12288 3 1 = Some (Inr 3, [0x65, 0x6C, 0x6C])"
  using file_read_correct [of example_fs 12288 1 3] example_fs_ok example_fs_file example_fs_contents
  by simp

theorem file_write_read_witness:
  "\<exists>s'. file_write 12288 [0x6A, 0x6F] 1 example_fs = Some (Inr 2, s') \<and> file_read s' 12288 2 1 = Some (Inr 2, [0x6A, 0x6F]) \<and>
     contents s' 12288 = [0x68, 0x6A, 0x6F, 0x6C, 0x6F]"
  using file_write_read [of example_fs 12288 1 "[0x6A, 0x6F]"] example_fs_ok example_fs_file example_fs_contents
  by auto

theorem file_read_negative_leaks_witness:
  "file_read example_fs 12288 2 (- 3000) = Some (Inr 2, [dmem example_fs 13384, dmem example_fs 13385])"
  using file_read_negative_leaks [of example_fs 12288 2 3000] example_fs_ok example_fs_file
  by (simp add: upt_rec)

subsection \<open>A full directory\<close>

lemma dir_search_snoc:
  "dir_search s dir test (is @ [i]) =
     do { r \<leftarrow> dir_search s dir test is; if r = Inr None then dir_search s dir test [i] else Some r }"
  by (induction "is") (auto split: sum.splits option.splits Option.bind_splits)

lemma name_is_cong:
  "(\<And>k. k \<le> length name \<Longrightarrow> ld8 s' (a + k) = ld8 s (a + k)) \<Longrightarrow> name_is s' a name = name_is s a name"
proof (induction name arbitrary: a)
  case Nil
  then show ?case
    using Nil [of 0] by simp
next
  case (Cons c cs)
  have "ld8 s' a = ld8 s a"
    using Cons.prems [of 0] by simp
  moreover have "name_is s' (a + 1) cs = name_is s (a + 1) cs"
    using Cons.prems [of "Suc k" for k] by (intro Cons.IH) simp
  ultimately show ?case by (simp only: name_is.simps)
qed

lemma find_entry_cong:
  "(\<And>j. j \<in> set js \<Longrightarrow> test' (blk + 256 * j) = test (blk + 256 * j)) \<Longrightarrow>
     find_entry test' blk js = find_entry test blk js"
  by (induction js) (simp_all cong: if_cong)

lemma find_entry_none:
  "(\<And>j. j \<in> set js \<Longrightarrow> test (blk + 256 * j) = Some False) \<Longrightarrow> find_entry test blk js = Some None"
  by (induction js) simp_all

lemma dir_search_none:
  "(\<And>i. i \<in> set is \<Longrightarrow> file_get_block s dir i = Some (Inr (blk i * BLKSIZE))) \<Longrightarrow>
   (\<And>i j. i \<in> set is \<Longrightarrow> j < BLKFILES \<Longrightarrow> test (blk i * BLKSIZE + 256 * j) = Some False) \<Longrightarrow>
     dir_search s dir test is = Some (Inr None)"
proof (induction "is")
  case (Cons i js)
  have "find_entry test (blk i * BLKSIZE) [0..<BLKFILES] = Some None"
    using Cons.prems(2) by (intro find_entry_none) simp
  then show ?case
    using Cons by simp
qed simp

lemma dir_search_cong:
  assumes "\<And>i. i \<in> set is \<Longrightarrow> file_get_block s dir i = Some (Inr (blk i * BLKSIZE)) \<and>
      file_get_block s' dir i = Some (Inr (blk i * BLKSIZE))"
    and "\<And>i j. i \<in> set is \<Longrightarrow> j < BLKFILES \<Longrightarrow> test' (blk i * BLKSIZE + 256 * j) = test (blk i * BLKSIZE + 256 * j)"
  shows "dir_search s' dir test' is = dir_search s dir test is"
  using assms
proof (induction "is")
  case (Cons i js)
  have "find_entry test' (blk i * BLKSIZE) [0..<BLKFILES] = find_entry test (blk i * BLKSIZE) [0..<BLKFILES]"
    using Cons.prems(2) by (intro find_entry_cong) simp
  then show ?case
    using Cons by (auto split: option.splits Option.bind_splits)
qed simp

text \<open>
  \<open>dir_full s dir n\<close>: a directory of \<open>n\<close> blocks, fewer than the direct ones, without a free entry; there is no block after them.
\<close>

definition dir_full :: "fs \<Rightarrow> nat \<Rightarrow> nat \<Rightarrow> bool" where
  "dir_full s dir n \<longleftrightarrow> file_ok s dir \<and> file_sep s dir \<and> fsize s dir = n * BLKSIZE \<and> n < NDIRECT \<and>
     rd32 (dmem s) (f_direct dir n) = 0 \<and>
     (\<forall>i < n. \<forall>j < BLKFILES. dmem s (file_blk s dir i * BLKSIZE + 256 * j) \<noteq> 0)"

lemma file_size_ok: "file_ok s f \<Longrightarrow> f_size s f = Some (int (fsize s f))"
  using file_field [of s f 128] by (simp add: f_size_def fsize_def file_ok_def)

lemma dir_blocks_ok:
  assumes "file_ok s dir" "fsize s dir = n * BLKSIZE"
  shows "dir_blocks s dir = Some n" "file_blocks s dir = n"
proof -
  have "n * 4096 < 2 ^ 31"
    using assms by (simp add: file_ok_def)
  then show "dir_blocks s dir = Some n"
    using file_size_ok [OF assms(1)] assms(2) smod_int [of "n * 4096"] nblocks_of_nat [of "n * 4096"]
    by (simp add: dir_blocks_def)
  show "file_blocks s dir = n"
    using assms(2) by (simp add: file_blocks_def)
qed

lemma dir_data_ok:
  assumes "file_ok s dir" "i < file_blocks s dir" "k < BLKSIZE"
  shows "ld8 s (file_blk s dir i * BLKSIZE + k) = Some (dmem s (file_blk s dir i * BLKSIZE + k))"
  using assms by (auto simp: ld8_def blk_ok_def file_ok_def)

lemma dir_full_search:
  assumes "dir_full s dir n"
  shows "dir_search s dir (unused_entry s) [0..<n] = Some (Inr None)"
proof (rule dir_search_none [where blk = "file_blk s dir"])
  have ok: "file_ok s dir" "fsize s dir = n * BLKSIZE"
    using assms by (simp_all add: dir_full_def)
  note n = dir_blocks_ok [OF ok]
  show "file_get_block s dir i = Some (Inr (file_blk s dir i * BLKSIZE))" if "i \<in> set [0..<n]" for i
    using that n by (intro file_get_block_ok ok) simp
  show "unused_entry s (file_blk s dir i * BLKSIZE + 256 * j) = Some False" if "i \<in> set [0..<n]" "j < BLKFILES" for i j
    using that assms n dir_data_ok [OF ok(1), of i "256 * j"] by (simp add: unused_entry_def dir_full_def)
qed

text \<open>Setting the size of a well-formed file.\<close>

lemma set_f_size_ok:
  assumes "file_ok s f"
  shows "\<exists>s'. set_f_size f z s = Some s' \<and> dmem s' = wr32 (f + 128) (word_of_int z) (dmem s) \<and>
    super_on s' = super_on s \<and> s_nblocks s' = s_nblocks s"
proof -
  have d: "(f + 128) div 4096 = f div 4096"
    using assms by (intro div_add_within) (simp add: file_ok_def)
  then have "blk_ok s ((f + 128) div 4096)"
    using assms by (simp add: blk_ok_def file_ok_def)
  moreover have "f + 132 \<le> 4100 \<or> 4104 \<le> f + 128"
  proof (cases "4096 \<le> f")
    case False
    then show ?thesis
      using assms by (simp add: file_ok_def)
  qed simp
  then have "rd32 (wr32 (f + 128) w (dmem s)) 4100 = rd32 (dmem s) 4100" for w
    by (intro rd32_wr32_other) auto
  ultimately show ?thesis
    by (auto simp: set_f_size_def sto32_def s_nblocks_def)
qed

lemma file_get_block_direct:
  assumes "i < 10" "f_size s f = Some (int m)" "m < 2 ^ 31" "i \<le> m div 4096" "ld32 s (f_direct f i) = Some b"
  shows "file_get_block s f i =
    (if b = 0 then Some (Inl E_NO_DISK) else map_option Inr (diskaddr s (unat b)))"
  using assms by (cases "diskaddr s (unat b)") (simp_all add: file_get_block_def file_block_walk_def nblocks_of_nat)

lemma dir_search_no_error:
  "(\<And>i. i \<in> set is \<Longrightarrow> file_get_block s dir i = Some (Inr (blk i))) \<Longrightarrow> dir_search s dir test is = Some r \<Longrightarrow>
     \<exists>f. r = Inr f"
  by (induction "is") (auto split: option.splits Option.bind_splits)

text \<open>What the failed allocation leaves: the size has grown, the entries are the same, the last block is missing.\<close>

lemma dir_grow:
  assumes full: "dir_full s dir n"
  shows "\<exists>s'. set_f_size dir (int ((n + 1) * 4096)) s = Some s' \<and> f_size s' dir = Some (int ((n + 1) * 4096)) \<and>
    fsize s' dir = (n + 1) * 4096 \<and> file_get_block s' dir n = Some (Inl E_NO_DISK) \<and>
    (\<forall>i < n. file_get_block s' dir i = Some (Inr (file_blk s dir i * BLKSIZE))) \<and>
    (\<forall>i < n. \<forall>k < 4096. ld8 s' (file_blk s dir i * BLKSIZE + k) = ld8 s (file_blk s dir i * BLKSIZE + k))"
proof -
  have ok: "file_ok s dir" "fsize s dir = n * BLKSIZE" "file_sep s dir" "n < 10" "rd32 (dmem s) (f_direct dir n) = 0"
    using full by (simp_all add: dir_full_def)
  note n = dir_blocks_ok [OF ok(1,2)]
  let ?m = "(n + 1) * 4096"
  obtain s' where s': "set_f_size dir (int ?m) s = Some s'" "dmem s' = wr32 (dir + 128) (word_of_int (int ?m)) (dmem s)"
      "super_on s' = super_on s" "s_nblocks s' = s_nblocks s"
    using set_f_size_ok [OF ok(1)] by blast
  have blk: "blk_ok s' b = blk_ok s b" for b
    using s' by (simp add: blk_ok_def)
  have m: "?m < 2 ^ 31"
    using ok(4) by simp
  have v: "rd32 (dmem s') (dir + 128) = of_nat ?m"
    by (simp add: s'(2))
  then have size': "fsize s' dir = ?m"
    using m by (simp only: fsize_def sint_of_nat_small nat_int)
  have "ld32 s' (dir + 128) = Some (of_nat ?m)"
    using file_field [OF ok(1), of 128] v by (simp add: ld32_def blk split: if_splits)
  then have fs': "f_size s' dir = Some (int ?m)"
    using m by (simp only: f_size_def option.map sint_of_nat_small)
  have slot: "ld32 s' (f_direct dir i) = Some (rd32 (dmem s) (f_direct dir i))" if "i < 10" for i
    using file_field [OF ok(1), of "136 + 4 * i"] that
    by (simp add: ld32_def blk s'(2) f_direct_def add.assoc rd32_wr32_other split: if_splits)
  have last: "file_get_block s' dir n = Some (Inl E_NO_DISK)"
    using file_get_block_direct [OF ok(4) fs' m _ slot [OF ok(4)]] ok(5) by simp
  have blocks': "file_get_block s' dir i = Some (Inr (file_blk s dir i * BLKSIZE))" if "i < n" for i
  proof -
    have "0 < file_blk s dir i" "file_blk s dir i < s_nblocks s"
      using ok(1) that n by (simp_all add: file_ok_def)
    then show ?thesis
      using file_get_block_direct [OF _ fs' m _ slot, of i] that ok(4) s'(3,4)
      by (simp add: file_blk_def slot_addr_def diskaddr_def unat_eq_zero [symmetric])
  qed
  have ld': "ld8 s' (file_blk s dir i * BLKSIZE + k) = ld8 s (file_blk s dir i * BLKSIZE + k)" if "i < n" "k < 4096" for i k
  proof -
    have "file_blk s dir i \<noteq> dir div 4096"
      using ok(3) that n by (simp add: file_sep_def)
    moreover have "(dir + c) div 4096 = dir div 4096" if "c < 256" for c
      using ok(1) that by (intro div_add_within) (simp add: file_ok_def)
    ultimately have "file_blk s dir i * 4096 + k \<noteq> dir + c" if "c < 256" for c
      using \<open>k < 4096\<close> that by (metis add_cancel_right_right div_less div_mult_self3 zero_neq_numeral)
    from this [of 128] this [of 129] this [of 130] this [of 131] show ?thesis
      by (simp add: ld8_def blk s'(2) wr32_def add.assoc)
  qed
  show ?thesis
    using s'(1) fs' size' last blocks' ld' by blast
qed


lemma example_root:
  "rd32 (dmem example_fs) 4232 = 0" "rd32 (dmem example_fs) 4240 = 0"
  by (simp_all add: rd32_bytes example_fs_def)


end
