(* ===== verification/Serv.thy ===== *)
theory Serv
  imports Fs_Files
begin

section \<open>The file server\<close>

text \<open>
  \<^verbatim>\<open>fs/serv.c\<close>. Besides the file system the state has, for each entry of the open file table, its file id,
  its descriptor address (\<open>None\<close> is the null pointer), its mode, the \<^verbatim>\<open>struct Fd\<close> on the page
  that is shared with the client, and the number of references to that page, which is what \<^verbatim>\<open>pageref\<close>
  returns. \<open>page_ok i\<close> says whether \<^verbatim>\<open>sys_page_alloc\<close> for that page succeeds. A
  client can write its \<^verbatim>\<open>struct Fd\<close>, and drop its reference, at any time.

  The request page is a value of type \<open>fsreq\<close>: the union with its tag, the request code.
\<close>

definition MAXOPEN :: nat where [simp]: "MAXOPEN = 1024"
definition MAXPATHLEN :: nat where [simp]: "MAXPATHLEN = 1024"
definition O_RDONLY :: u32 where [simp]: "O_RDONLY = 0"
definition O_WRONLY :: u32 where [simp]: "O_WRONLY = 1"
definition O_RDWR :: u32 where [simp]: "O_RDWR = 2"
definition O_ACCMODE :: u32 where [simp]: "O_ACCMODE = 3"
definition O_CREAT :: u32 where [simp]: "O_CREAT = 0x100"
definition O_TRUNC :: u32 where [simp]: "O_TRUNC = 0x200"
definition O_EXCL :: u32 where [simp]: "O_EXCL = 0x400"

record Fd =
  fd_dev_id :: u32
  fd_offset :: u32
  fd_omode :: u32
  fd_file_id :: u32

definition zero_Fd :: Fd where
  "zero_Fd = \<lparr>fd_dev_id = 0, fd_offset = 0, fd_omode = 0, fd_file_id = 0\<rparr>"

record serv =
  sfs :: fs
  o_fileid :: "nat \<Rightarrow> u32"
  o_file :: "nat \<Rightarrow> nat option"
  o_mode :: "nat \<Rightarrow> u32"
  o_fd :: "nat \<Rightarrow> Fd"
  fd_ref :: "nat \<Rightarrow> nat"
  page_ok :: "nat \<Rightarrow> bool"

datatype fsreq =
    FSREQ_OPEN "u8 list" u32
  | FSREQ_SET_SIZE u32 u32
  | FSREQ_READ u32 u64
  | FSREQ_WRITE u32 "u8 list"
  | FSREQ_STAT u32
  | FSREQ_FLUSH u32
  | FSREQ_REMOVE "u8 list"
  | FSREQ_SYNC
  | FSREQ_other u32

text \<open>
  A reply: the value sent, the open file whose page is sent with it, and what the request page holds
  then: the bytes read, or the fields of \<^verbatim>\<open>struct Fsret_stat\<close> (the bytes \<^verbatim>\<open>strcpy\<close> copies, the size, the kind).
\<close>

record reply =
  r_val :: int
  r_page :: "nat option"
  r_data :: "u8 list"
  r_stat :: "(u8 list \<times> u32 \<times> bool) option"

definition answer :: "int \<Rightarrow> reply" where
  "answer r = \<lparr>r_val = r, r_page = None, r_data = [], r_stat = None\<rparr>"

subsection \<open>Open files\<close>

definition serve_init :: "serv \<Rightarrow> serv" where
  "serve_init s = fold (\<lambda>i s. s\<lparr>o_fileid := (o_fileid s)(i := of_nat i)\<rparr>) [0..<MAXOPEN] s"

definition openfile_take :: "nat \<Rightarrow> serv \<Rightarrow> (int \<times> nat option) \<times> serv" where
  "openfile_take i s =
     (let s1 = s\<lparr>o_fileid := (o_fileid s)(i := o_fileid s i + of_nat MAXOPEN), o_fd := (o_fd s)(i := zero_Fd)\<rparr>
      in ((sint (o_fileid s1 i), Some i), s1))"

primrec openfile_alloc_loop :: "nat list \<Rightarrow> serv \<Rightarrow> (int \<times> nat option) \<times> serv" where
  "openfile_alloc_loop [] s = ((err E_MAX_OPEN, None), s)"
| "openfile_alloc_loop (i # is) s =
     (if fd_ref s i = 0
      then if \<not> page_ok s i then ((err E_NO_MEM, None), s)
           else openfile_take i (s\<lparr>fd_ref := (fd_ref s)(i := 1)\<rparr>)
      else if fd_ref s i = 1 then openfile_take i s
      else openfile_alloc_loop is s)"

definition openfile_alloc :: "serv \<Rightarrow> (int \<times> nat option) \<times> serv" where
  "openfile_alloc s = openfile_alloc_loop [0..<MAXOPEN] s"

definition openfile_lookup :: "serv \<Rightarrow> u32 \<Rightarrow> jos_error + nat" where
  "openfile_lookup s fileid =
     (let i = unat fileid mod MAXOPEN
      in if fd_ref s i = 1 \<or> o_fileid s i \<noteq> fileid then Inl E_INVAL else Inr i)"

subsection \<open>Requests\<close>

text \<open>The path of a request: 1024 bytes, the last of which is set to null; the string is what precedes the first null byte.\<close>

definition req_string :: "u8 list \<Rightarrow> u8 list" where
  "req_string bs = takeWhile (\<lambda>c. c \<noteq> 0) (take (MAXPATHLEN - 1) bs)"

definition open_file :: "u8 list \<Rightarrow> u32 \<Rightarrow> fs \<Rightarrow> ((jos_error + nat) \<times> fs) option" where
  "open_file path omode s =
     (if omode AND O_CREAT \<noteq> 0
      then do {
        (r, s1) \<leftarrow> file_create path s;
        (if r = Inl E_FILE_EXISTS \<and> omode AND O_EXCL = 0
         then do { r1 \<leftarrow> file_open s1 path; Some (r1, s1) }
         else Some (r, s1))
      }
      else do { r \<leftarrow> file_open s path; Some (r, s) })"

definition serve_open :: "u8 list \<Rightarrow> u32 \<Rightarrow> serv \<Rightarrow> (reply \<times> serv) option" where
  "serve_open req_path omode s =
     (case openfile_alloc s of
        ((r, None), s1) \<Rightarrow> Some (answer r, s1)
      | ((r, Some i), s1) \<Rightarrow>
          if r < 0 then Some (answer r, s1)
          else do {
            (x, f1) \<leftarrow> open_file (req_string req_path) omode (sfs s1);
            (case x of
               Inl e \<Rightarrow> Some (answer (err e), s1\<lparr>sfs := f1\<rparr>)
             | Inr f \<Rightarrow>
                 do {
                   f2 \<leftarrow> (if omode AND O_TRUNC \<noteq> 0 then file_set_size f 0 f1 else Some f1);
                   let fd = (o_fd s1 i)\<lparr>fd_file_id := o_fileid s1 i, fd_omode := omode AND O_ACCMODE, fd_dev_id := 0x66\<rparr>;
                   Some (\<lparr>r_val = 0, r_page = Some i, r_data = [], r_stat = None\<rparr>,
                     s1\<lparr>sfs := f2, o_file := (o_file s1)(i := Some f), o_fd := (o_fd s1)(i := fd),
                        o_mode := (o_mode s1)(i := omode)\<rparr>)
                 })
          })"

definition serve_set_size :: "u32 \<Rightarrow> u32 \<Rightarrow> serv \<Rightarrow> (reply \<times> serv) option" where
  "serve_set_size fileid sz s =
     (case openfile_lookup s fileid of
        Inl e \<Rightarrow> Some (answer (err e), s)
      | Inr i \<Rightarrow>
          do {
            f \<leftarrow> o_file s i;
            f1 \<leftarrow> file_set_size f (sint sz) (sfs s);
            Some (answer 0, s\<lparr>sfs := f1\<rparr>)
          })"

text \<open>The page with the seek position must be mapped, else reading it is a fault.\<close>

definition serve_read :: "u32 \<Rightarrow> u64 \<Rightarrow> serv \<Rightarrow> (reply \<times> serv) option" where
  "serve_read fileid n s =
     (case openfile_lookup s fileid of
        Inl e \<Rightarrow> Some (answer (err e), s)
      | Inr i \<Rightarrow>
          if fd_ref s i = 0 then None
          else do {
            f \<leftarrow> o_file s i;
            (r, buf) \<leftarrow> file_read (sfs s) f (if n < 4096 then n else 4096) (fd_offset (o_fd s i));
            (case r of
               Inl e \<Rightarrow> Some (\<lparr>r_val = err e, r_page = None, r_data = buf, r_stat = None\<rparr>, s)
             | Inr k \<Rightarrow>
                 Some (\<lparr>r_val = sint (ucast k :: u32), r_page = None, r_data = buf, r_stat = None\<rparr>,
                   s\<lparr>o_fd := (o_fd s)(i := (o_fd s i)\<lparr>fd_offset := fd_offset (o_fd s i) + ucast k\<rparr>)\<rparr>))
          })"

text \<open>\<^verbatim>\<open>serve_write\<close> is a panic.\<close>

definition serve_write :: "u32 \<Rightarrow> u8 list \<Rightarrow> serv \<Rightarrow> (reply \<times> serv) option" where
  "serve_write fileid buf s = None"

partial_function (option) read_name :: "fs \<Rightarrow> nat \<Rightarrow> u8 list option" where
  "read_name s a =
     Option.bind (ld8 s a) (\<lambda>b. if b = 0 then Some [] else Option.bind (read_name s (a + 1)) (\<lambda>bs. Some (b # bs)))"

definition serve_stat :: "u32 \<Rightarrow> serv \<Rightarrow> (reply \<times> serv) option" where
  "serve_stat fileid s =
     (case openfile_lookup s fileid of
        Inl e \<Rightarrow> Some (answer (err e), s)
      | Inr i \<Rightarrow>
          do {
            f \<leftarrow> o_file s i;
            name \<leftarrow> read_name (sfs s) f;
            sz \<leftarrow> ld32 (sfs s) (f + 128);
            t \<leftarrow> f_type (sfs s) f;
            Some (\<lparr>r_val = 0, r_page = None, r_data = [], r_stat = Some (name, sz, t = FTYPE_DIR)\<rparr>, s)
          })"

definition serve_flush :: "u32 \<Rightarrow> serv \<Rightarrow> (reply \<times> serv) option" where
  "serve_flush fileid s =
     (case openfile_lookup s fileid of
        Inl e \<Rightarrow> Some (answer (err e), s)
      | Inr i \<Rightarrow> do { f \<leftarrow> o_file s i; file_flush (sfs s) f; Some (answer 0, s) })"

definition serve_remove :: "u8 list \<Rightarrow> serv \<Rightarrow> (reply \<times> serv) option" where
  "serve_remove req_path s =
     do {
       (e, f1) \<leftarrow> file_remove (req_string req_path) (sfs s);
       Some (answer (case e of None \<Rightarrow> 0 | Some e \<Rightarrow> err e), s\<lparr>sfs := f1\<rparr>)
     }"

definition serve_sync :: "serv \<Rightarrow> (reply \<times> serv) option" where
  "serve_sync s = do { fs_sync (sfs s); Some (answer 0, s) }"

definition handle_request :: "fsreq \<Rightarrow> serv \<Rightarrow> (reply \<times> serv) option" where
  "handle_request req s =
     (case req of
        FSREQ_OPEN path omode \<Rightarrow> serve_open path omode s
      | FSREQ_SET_SIZE fileid sz \<Rightarrow> serve_set_size fileid sz s
      | FSREQ_READ fileid n \<Rightarrow> serve_read fileid n s
      | FSREQ_WRITE fileid buf \<Rightarrow> serve_write fileid buf s
      | FSREQ_STAT fileid \<Rightarrow> serve_stat fileid s
      | FSREQ_FLUSH fileid \<Rightarrow> serve_flush fileid s
      | FSREQ_REMOVE path \<Rightarrow> serve_remove path s
      | FSREQ_SYNC \<Rightarrow> serve_sync s
      | FSREQ_other _ \<Rightarrow> Some (answer (err E_INVAL), s))"

text \<open>
  One round of \<^verbatim>\<open>serve\<close>. A request without a page gets no answer. The answer maps the page of a newly
  opened file at the client, which then holds a reference to it.
\<close>

definition serve_round :: "bool \<Rightarrow> fsreq \<Rightarrow> serv \<Rightarrow> (reply option \<times> serv) option" where
  "serve_round has_page req s =
     (if \<not> has_page then Some (None, s)
      else do {
        (a, s1) \<leftarrow> handle_request req s;
        Some (Some a,
          case r_page a of
            None \<Rightarrow> s1
          | Some i \<Rightarrow> s1\<lparr>fd_ref := (fd_ref s1)(i := Suc (fd_ref s1 i))\<rparr>)
      })"

text \<open>The server with its clients: a round, a client that drops a page it holds, a client that writes its \<^verbatim>\<open>struct Fd\<close>.\<close>

inductive serv_step :: "serv \<Rightarrow> serv \<Rightarrow> bool" where
  serv_round: "serve_round has_page req s = Some (a, s') \<Longrightarrow> serv_step s s'"
| serv_close: "fd_ref s i > 1 \<Longrightarrow> serv_step s (s\<lparr>fd_ref := (fd_ref s)(i := fd_ref s i - 1)\<rparr>)"
| serv_dup: "fd_ref s i > 1 \<Longrightarrow> serv_step s (s\<lparr>fd_ref := (fd_ref s)(i := Suc (fd_ref s i))\<rparr>)"
| serv_write_fd: "fd_ref s i > 1 \<Longrightarrow> serv_step s (s\<lparr>o_fd := (o_fd s)(i := fd)\<rparr>)"

end
