(* ===== verification/Serv_Props.thy ===== *)
theory Serv_Props
  imports Serv
begin

section \<open>What the file server guarantees\<close>

text \<open>
  File ids: the one an \<^verbatim>\<open>open\<close> hands out is new, and means the same file for as long as a
  client holds the page of its \<^verbatim>\<open>struct Fd\<close>. Ids that were never handed out are not all refused.
\<close>

subsection \<open>The open file table\<close>

lemma serve_init_fields [simp]:
  "o_fileid (serve_init s) i = (if i < MAXOPEN then of_nat i else o_fileid s i)"
  "o_file (serve_init s) = o_file s" "fd_ref (serve_init s) = fd_ref s" "o_fd (serve_init s) = o_fd s"
  "sfs (serve_init s) = sfs s" "page_ok (serve_init s) = page_ok s"
proof -
  let ?f = "\<lambda>i s. s\<lparr>o_fileid := (o_fileid s)(i := of_nat i)\<rparr>"
  have "o_fileid (fold ?f [0..<n] s) i = (if i < n then of_nat i else o_fileid s i) \<and>
      o_file (fold ?f [0..<n] s) = o_file s \<and> fd_ref (fold ?f [0..<n] s) = fd_ref s \<and>
      o_fd (fold ?f [0..<n] s) = o_fd s \<and> sfs (fold ?f [0..<n] s) = sfs s \<and>
      page_ok (fold ?f [0..<n] s) = page_ok s" for n
    by (induction n) (auto simp: less_Suc_eq)
  from this [of MAXOPEN] show
    "o_fileid (serve_init s) i = (if i < MAXOPEN then of_nat i else o_fileid s i)"
    "o_file (serve_init s) = o_file s" "fd_ref (serve_init s) = fd_ref s" "o_fd (serve_init s) = o_fd s"
    "sfs (serve_init s) = sfs s" "page_ok (serve_init s) = page_ok s"
    by (simp_all only: serve_init_def simp_thms)
qed

text \<open>\<open>took i s s'\<close>: the entry \<open>i\<close> was allocated; \<open>table_same\<close>: the table is as it was.\<close>

definition took :: "nat \<Rightarrow> serv \<Rightarrow> serv \<Rightarrow> bool" where
  "took i s s' \<longleftrightarrow> i < MAXOPEN \<and> fd_ref s i \<le> 1 \<and> o_fileid s' = (o_fileid s)(i := o_fileid s i + of_nat MAXOPEN) \<and>
     fd_ref s' = (fd_ref s)(i := 1)"

definition table_same :: "serv \<Rightarrow> serv \<Rightarrow> bool" where
  "table_same s s' \<longleftrightarrow> o_fileid s' = o_fileid s \<and> fd_ref s' = fd_ref s \<and> o_file s' = o_file s"

lemma table_same_refl [simp]: "table_same s s"
  by (simp add: table_same_def)

lemma openfile_alloc_loop_cases:
  assumes "openfile_alloc_loop is s = ((r, x), s')" "set is \<subseteq> {..<MAXOPEN}"
  shows "(x = None \<and> s' = s \<and> r < 0) \<or> (\<exists>i. x = Some i \<and> took i s s' \<and> r = sint (o_fileid s' i) \<and> o_file s' = o_file s)"
  using assms
proof (induction "is")
  case Nil
  then show ?case by simp
next
  case (Cons i "is")
  show ?case
  proof (cases "fd_ref s i \<le> 1")
    case True
    then consider "fd_ref s i = 0" | "fd_ref s i = 1" "(fd_ref s)(i := 1) = fd_ref s"
      by (cases "fd_ref s i") (auto simp: fun_upd_idem)
    then show ?thesis
      by cases (use Cons.prems in \<open>auto simp: openfile_take_def took_def Let_def split: if_splits\<close>)
  next
    case False
    then show ?thesis
      using Cons by (auto split: if_splits)
  qed
qed

lemma openfile_alloc_cases:
  assumes "openfile_alloc s = ((r, x), s')"
  shows "(x = None \<and> s' = s \<and> r < 0) \<or> (\<exists>i. x = Some i \<and> took i s s' \<and> r = sint (o_fileid s' i) \<and> o_file s' = o_file s)"
  using assms unfolding openfile_alloc_def by (rule openfile_alloc_loop_cases) auto

subsection \<open>Requests\<close>

lemma serve_open_cases:
  assumes "serve_open path omode s = Some (a, s')"
  shows "(r_page a = None \<and> o_file s' = o_file s \<and> (table_same s s' \<or> (\<exists>i. took i s s'))) \<or>
    (\<exists>i. r_page a = Some i \<and> took i s s' \<and> o_file s' = (o_file s)(i := o_file s' i) \<and>
       fd_file_id (o_fd s' i) = o_fileid s' i)"
proof -
  obtain r x s1 where a: "openfile_alloc s = ((r, x), s1)"
    by (metis prod.collapse)
  show ?thesis
    using openfile_alloc_cases [OF a]
  proof (elim disjE exE conjE)
    fix i assume i: "x = Some i" "took i s s1" "r = sint (o_fileid s1 i)" "o_file s1 = o_file s"
    have same: "took i s (s1\<lparr>sfs := f, o_file := g, o_fd := h, o_mode := m\<rparr>)"
        "took i s (s1\<lparr>sfs := f\<rparr>)" for f g h m
      using i(2) by (simp_all add: took_def)
    have "took i s s'" "r_page a = None \<and> o_file s' = o_file s \<or>
        r_page a = Some i \<and> o_file s' = (o_file s)(i := o_file s' i) \<and> fd_file_id (o_fd s' i) = o_fileid s' i"
      using assms a i same
      by (auto simp: serve_open_def answer_def Let_def split: if_splits Option.bind_splits sum.splits)
    then show ?thesis by blast
  qed (use assms a in \<open>auto simp: serve_open_def answer_def\<close>)
qed

lemma other_request_same:
  assumes "handle_request req s = Some (a, s')" "\<And>path omode. req \<noteq> FSREQ_OPEN path omode"
  shows "table_same s s' \<and> r_page a = None"
  using assms
  by (cases req) (auto simp: handle_request_def serve_set_size_def serve_read_def serve_write_def serve_stat_def
      serve_flush_def serve_remove_def serve_sync_def answer_def table_same_def Let_def
      split: if_splits Option.bind_splits sum.splits)

text \<open>
  \<open>ids_ok\<close>: the id of an entry is its index modulo the size of the table.
\<close>

definition ids_ok :: "serv \<Rightarrow> bool" where
  "ids_ok s \<longleftrightarrow> (\<forall>i < MAXOPEN. unat (o_fileid s i) mod MAXOPEN = i)"

lemma next_id_mod: "unat (x + 1024 :: u32) mod 1024 = unat x mod 1024"
proof -
  have "unat (x + 1024) mod 1024 = (unat x + 1024) mod 2 ^ 32 mod 1024"
    by (simp add: unat_word_ariths)
  also have "\<dots> = (unat x + 1024) mod 1024"
    by (rule mod_mod_cancel) (simp add: dvd_eq_mod_eq_0)
  finally show ?thesis by simp
qed

lemma ids_ok_init: "ids_ok (serve_init s)"
  by (simp add: ids_ok_def unsigned_of_nat take_bit_nat_eq_self)

lemma took_ids_ok: "took i s s' \<Longrightarrow> ids_ok s \<Longrightarrow> ids_ok s'"
  by (auto simp: took_def ids_ok_def next_id_mod)

lemma serv_step_table:
  assumes "serv_step s s'"
  shows "ids_ok s \<Longrightarrow> ids_ok s'"
    and "fd_ref s i > 1 \<Longrightarrow> o_fileid s' i = o_fileid s i \<and> o_file s' i = o_file s i"
proof -
  have "(ids_ok s \<longrightarrow> ids_ok s') \<and> (fd_ref s i > 1 \<longrightarrow> o_fileid s' i = o_fileid s i \<and> o_file s' i = o_file s i)"
    using assms
  proof cases
    case (serv_round has_page req a)
    show ?thesis
    proof (cases has_page)
      case True
      then obtain b s1 where h: "handle_request req s = Some (b, s1)"
          and s': "o_fileid s' = o_fileid s1" "o_file s' = o_file s1"
        using serv_round by (auto simp: serve_round_def split: Option.bind_splits option.splits)
      have "(ids_ok s \<longrightarrow> ids_ok s1) \<and> (fd_ref s i > 1 \<longrightarrow> o_fileid s1 i = o_fileid s i \<and> o_file s1 i = o_file s i)"
      proof (cases "\<exists>path omode. req = FSREQ_OPEN path omode")
        case True
        then obtain path omode where "serve_open path omode s = Some (b, s1)"
          using h by (auto simp: handle_request_def)
        from serve_open_cases [OF this] show ?thesis
          using took_ids_ok [of _ s s1]
          by (elim disjE exE conjE)
            (simp_all add: table_same_def took_def ids_ok_def, (metis fun_upd_other not_less)+)
      next
        case False
        with other_request_same [OF h] show ?thesis
          by (auto simp: table_same_def ids_ok_def)
      qed
      with s' show ?thesis by (simp add: ids_ok_def)
    qed (use serv_round in \<open>simp add: serve_round_def\<close>)
  qed (simp_all add: ids_ok_def)
  then show "ids_ok s \<Longrightarrow> ids_ok s'"
    and "fd_ref s i > 1 \<Longrightarrow> o_fileid s' i = o_fileid s i \<and> o_file s' i = o_file s i"
    by blast+
qed

lemma reach_ids_ok: "serv_step\<^sup>*\<^sup>* (serve_init s0) s \<Longrightarrow> ids_ok s"
  by (induction rule: rtranclp_induct) (auto intro: ids_ok_init serv_step_table)

text \<open>\<open>serv_held i\<close>: steps of the system during which some client holds the page of entry \<open>i\<close>.\<close>

inductive serv_held :: "nat \<Rightarrow> serv \<Rightarrow> serv \<Rightarrow> bool" for i where
  held_now: "fd_ref s i > 1 \<Longrightarrow> serv_held i s s"
| held_step: "serv_held i s t \<Longrightarrow> serv_step t u \<Longrightarrow> fd_ref u i > 1 \<Longrightarrow> serv_held i s u"

lemma serv_held_same:
  "serv_held i s t \<Longrightarrow> fd_ref t i > 1 \<and> o_fileid t i = o_fileid s i \<and> o_file t i = o_file s i"
  by (induction rule: serv_held.induct) (use serv_step_table(2) in fastforce)+

lemma lookup_held:
  assumes "ids_ok s" "i < MAXOPEN" "fd_ref s i > 1"
  shows "openfile_lookup s (o_fileid s i) = Inr i"
  using assms by (simp add: openfile_lookup_def ids_ok_def)

lemma serv_held_reach: "serv_held i s t \<Longrightarrow> serv_step\<^sup>*\<^sup>* s t"
  by (induction rule: serv_held.induct) auto

text \<open>
  C14. The id of a newly opened file is new: no request with this id was accepted just before. And for as long as
  some client holds the page of its descriptor, whatever requests the server gets and whatever clients do, the id
  names the same entry of the table and the same file.
\<close>

theorem open_id_stable:
  assumes "serv_step\<^sup>*\<^sup>* (serve_init s0) s"
    and "serve_round True (FSREQ_OPEN path omode) s = Some (Some a, s')" "r_page a = Some i"
  shows "openfile_lookup s (fd_file_id (o_fd s' i)) = Inl E_INVAL \<and>
    (\<forall>t. serv_held i s' t \<longrightarrow> openfile_lookup t (fd_file_id (o_fd s' i)) = Inr i \<and> o_file t i = o_file s' i)"
proof -
  obtain s1 where h: "serve_open path omode s = Some (a, s1)"
      and s': "s' = s1\<lparr>fd_ref := (fd_ref s1)(i := Suc (fd_ref s1 i))\<rparr>"
    using assms(2,3) by (auto simp: serve_round_def handle_request_def split: Option.bind_splits)
  have i: "took i s s1" "fd_file_id (o_fd s' i) = o_fileid s' i"
    using serve_open_cases [OF h] assms(3) s' by auto
  have "serv_step s s'"
    using assms(2) by (rule serv_round)
  with reach_ids_ok [OF assms(1)] have ok: "ids_ok s" "ids_ok s'"
    using serv_step_table(1) by blast+
  have id: "o_fileid s' i = o_fileid s i + 1024" "i < MAXOPEN"
    using i(1) s' by (auto simp: took_def)
  then have "unat (o_fileid s' i) mod MAXOPEN = i" "o_fileid s i \<noteq> o_fileid s' i"
    using ok by (auto simp: ids_ok_def)
  then have "openfile_lookup s (o_fileid s' i) = Inl E_INVAL"
    by (simp add: openfile_lookup_def)
  moreover have "openfile_lookup t (o_fileid s' i) = Inr i \<and> o_file t i = o_file s' i" if "serv_held i s' t" for t
  proof -
    have "ids_ok t"
      using serv_held_reach [OF that] ok(2) by (induction rule: rtranclp_induct) (auto intro: serv_step_table)
    then show ?thesis
      using lookup_held [of t, OF _ id(2)] serv_held_same [OF that] by auto
  qed
  ultimately show ?thesis
    by (simp add: i(2))
qed

definition example_serv :: serv where
  "example_serv = \<lparr>sfs = example_fs, o_fileid = \<lambda>_. 0, o_file = \<lambda>_. None, o_mode = \<lambda>_. 0, o_fd = \<lambda>_. zero_Fd,
     fd_ref = \<lambda>_. 0, page_ok = \<lambda>_. True\<rparr>"

lemma openfile_alloc_first:
  assumes "fd_ref s 0 = 0" "page_ok s 0"
  shows "openfile_alloc s = openfile_take 0 (s\<lparr>fd_ref := (fd_ref s)(0 := 1)\<rparr>)"
proof -
  have "[0..<MAXOPEN] = 0 # [1..<MAXOPEN]"
    using upt_conv_Cons [of 0 MAXOPEN] by (simp del: upt_rec_numeral)
  with assms show ?thesis
    by (simp add: openfile_alloc_def del: upt_rec_numeral)
qed

theorem open_id_stable_witness:
  "\<exists>a s'. serve_round True (FSREQ_OPEN [0x2F, 0] 0) (serve_init example_serv) = Some (Some a, s') \<and> r_val a = 0 \<and>
     openfile_lookup (serve_init example_serv) 1024 = Inl E_INVAL \<and>
     openfile_lookup s' 1024 = Inr 0 \<and> o_file s' 0 = Some s_root"
proof -
  define s where "s = serve_init example_serv"
  then have s: "fd_ref s 0 = 0" "page_ok s 0" "o_fileid s 0 = 0"
    by (simp_all add: example_serv_def)
  define s1 where "s1 = snd (openfile_alloc s)"
  have s1: "openfile_alloc s = ((1024, Some 0), s1)" "fd_ref s1 0 = 1" "o_fileid s1 0 = 1024"
    using s by (simp_all add: s1_def openfile_alloc_first openfile_take_def Let_def)
  have "open_file (req_string [0x2F, 0]) 0 f = Some (Inr s_root, f)" for f
    by (simp add: open_file_def req_string_def file_open_def walk_path_def skip_slash_def walk_loop.simps)
  then obtain a s2 where o: "serve_open [0x2F, 0] 0 s = Some (a, s2)" "r_val a = 0" "r_page a = Some 0"
      "fd_file_id (o_fd s2 0) = 1024" "o_file s2 0 = Some s_root" "fd_ref s2 0 = 1"
    using s1 by (simp add: serve_open_def Let_def)
  define s' where "s' = s2\<lparr>fd_ref := (fd_ref s2)(0 := 2)\<rparr>"
  have a: "serve_round True (FSREQ_OPEN [0x2F, 0] 0) s = Some (Some a, s')"
    using o(1,3,6) by (simp add: serve_round_def handle_request_def s'_def numeral_2_eq_2)
  have s': "fd_file_id (o_fd s' 0) = 1024" "o_file s' 0 = Some s_root" "fd_ref s' 0 = 2"
    using o by (simp_all add: s'_def)
  show ?thesis
    using open_id_stable [OF rtranclp.rtrancl_refl, OF a [unfolded s_def] o(3)] held_now [of s' 0] a o(2) s'
    by (auto simp: s_def)
qed

text \<open>
  C32. A request that names an entry of the table that was never opened is not refused: at the start the ids 0 to 1023 are
  accepted, and reading, truncating, flushing or asking for the status of such a file follows a null pointer,
  which ends the file server.
\<close>

theorem never_opened_crashes:
  assumes "i < MAXOPEN" "fd_ref s i = 0" "o_file s i = None"
  shows "openfile_lookup (serve_init s) (of_nat i) = Inr i \<and>
    (\<forall>req \<in> {FSREQ_READ (of_nat i) n, FSREQ_SET_SIZE (of_nat i) sz, FSREQ_STAT (of_nat i), FSREQ_FLUSH (of_nat i)}.
       serve_round True req (serve_init s) = None)"
proof -
  have "unat (of_nat i :: u32) = i"
    using assms(1) by (simp add: unsigned_of_nat take_bit_nat_eq_self)
  then have "openfile_lookup (serve_init s) (of_nat i) = Inr i"
    using assms by (simp add: openfile_lookup_def)
  then show ?thesis
    using assms by (simp add: serve_round_def handle_request_def serve_read_def serve_set_size_def serve_stat_def
        serve_flush_def)
qed

theorem never_opened_crashes_witness:
  "serve_round True (FSREQ_READ 5 1) (serve_init example_serv) = None"
  using never_opened_crashes [of 5 example_serv 1 0] by (simp add: example_serv_def)

end
