(* ===== verification/Pipe.thy ===== *)
theory Pipe
  imports JOS_Prelude "HOL-Library.Signed_Division" "HOL-Library.Sublist"
begin

section \<open>Pipes\<close>

text \<open>
  \<^verbatim>\<open>lib/pipe.c\<close>: the ring buffer on the page that both ends share, with a reader and a writer that are interrupted
  at any point. \<open>reader_step\<close> and \<open>writer_step\<close> are the bodies of \<^verbatim>\<open>devpipe_read\<close> and
  \<^verbatim>\<open>devpipe_write\<close> cut at the accesses to the shared page: the test of the positions, the
  access to the buffer, the increment. Each of these reads at most one field that the other side writes.
  The positions are 32-bit signed numbers, the remainder that gives the place in the buffer is signed, and the
  test for a full buffer is done with 64-bit unsigned numbers.
\<close>

definition PIPEBUFSIZ :: nat where [simp]: "PIPEBUFSIZ = 32"

record Pipe =
  p_rpos :: u32
  p_wpos :: u32
  p_buf :: "nat \<Rightarrow> u8"

definition empty_Pipe :: Pipe where
  "empty_Pipe = \<lparr>p_rpos = 0, p_wpos = 0, p_buf = \<lambda>_. 0\<rparr>"

text \<open>The place in the buffer; a negative remainder is a place before it.\<close>

definition buf_index :: "u32 \<Rightarrow> nat option" where
  "buf_index pos = (let i = sint pos smod int PIPEBUFSIZ in if i < 0 then None else Some (nat i))"

definition pipe_empty :: "Pipe \<Rightarrow> bool" where
  "pipe_empty p \<longleftrightarrow> p_rpos p = p_wpos p"

definition pipe_full :: "Pipe \<Rightarrow> bool" where
  "pipe_full p \<longleftrightarrow> (scast (p_wpos p) :: u64) \<ge> scast (p_rpos p) + of_nat PIPEBUFSIZ"

text \<open>
  The reader: the bytes it has stored so far and how many it wants; \<open>R_ret\<close> is the return.
  \<open>closed\<close> is what \<^verbatim>\<open>_pipeisclosed\<close> answers.
\<close>

datatype rproc = R_test "u8 list" nat | R_take "u8 list" nat | R_incr "u8 list" nat | R_ret "u8 list"

fun reader_step :: "bool \<Rightarrow> Pipe \<Rightarrow> rproc \<Rightarrow> (Pipe \<times> rproc) option" where
  "reader_step closed p (R_test buf n) =
     Some (p, if length buf < n
              then if pipe_empty p then if buf \<noteq> [] \<or> closed then R_ret buf else R_test buf n
                   else R_take buf n
              else R_ret buf)"
| "reader_step closed p (R_take buf n) = do { k \<leftarrow> buf_index (p_rpos p); Some (p, R_incr (buf @ [p_buf p k]) n) }"
| "reader_step closed p (R_incr buf n) = Some (p\<lparr>p_rpos := p_rpos p + 1\<rparr>, R_test buf n)"
| "reader_step closed p (R_ret buf) = Some (p, R_ret buf)"

text \<open>The writer: how many of its bytes it has put, and the bytes; \<open>W_ret\<close> also has the value it returns.\<close>

datatype wproc = W_test nat "u8 list" | W_store nat "u8 list" | W_incr nat "u8 list" | W_ret nat "u8 list" nat

fun writer_step :: "bool \<Rightarrow> Pipe \<Rightarrow> wproc \<Rightarrow> (Pipe \<times> wproc) option" where
  "writer_step closed p (W_test i buf) =
     Some (p, if i < length buf
              then if pipe_full p then if closed then W_ret i buf 0 else W_test i buf
                   else W_store i buf
              else W_ret i buf i)"
| "writer_step closed p (W_store i buf) =
     do { k \<leftarrow> buf_index (p_wpos p); Some (p\<lparr>p_buf := (p_buf p)(k := buf ! i)\<rparr>, W_incr i buf) }"
| "writer_step closed p (W_incr i buf) = Some (p\<lparr>p_wpos := p_wpos p + 1\<rparr>, W_test (Suc i) buf)"
| "writer_step closed p (W_ret i buf r) = Some (p, W_ret i buf r)"

text \<open>
  A pipe with one reader and one writer, which make call after call. \<open>rlog\<close> has what the calls
  before this one have read, \<open>wlog\<close> what the calls before have put.
\<close>

record pstate =
  pipe :: Pipe
  rd :: rproc
  wr :: wproc
  rlog :: "u8 list list"
  wlog :: "u8 list list"

definition pipe_start :: pstate where
  "pipe_start = \<lparr>pipe = empty_Pipe, rd = R_ret [], wr = W_ret 0 [] 0, rlog = [], wlog = []\<rparr>"

inductive pipe_step :: "pstate \<Rightarrow> pstate \<Rightarrow> bool" where
  pipe_rstep: "reader_step closed (pipe s) (rd s) = Some (p, r) \<Longrightarrow> pipe_step s (s\<lparr>pipe := p, rd := r\<rparr>)"
| pipe_wstep: "writer_step closed (pipe s) (wr s) = Some (p, w) \<Longrightarrow> pipe_step s (s\<lparr>pipe := p, wr := w\<rparr>)"
| pipe_rcall: "rd s = R_ret buf \<Longrightarrow> pipe_step s (s\<lparr>rd := R_test [] n, rlog := rlog s @ [buf]\<rparr>)"
| pipe_wcall: "wr s = W_ret i buf r \<Longrightarrow> pipe_step s (s\<lparr>wr := W_test 0 bs, wlog := wlog s @ [take i buf]\<rparr>)"

inductive_cases pipe_stepE: "pipe_step s s'"

subsection \<open>First in, first out\<close>

fun rbuf :: "rproc \<Rightarrow> u8 list" where
  "rbuf (R_test buf n) = buf"
| "rbuf (R_take buf n) = buf"
| "rbuf (R_incr buf n) = buf"
| "rbuf (R_ret buf) = buf"

fun wput :: "wproc \<Rightarrow> u8 list" where
  "wput (W_test i buf) = take i buf"
| "wput (W_store i buf) = take i buf"
| "wput (W_incr i buf) = take i buf"
| "wput (W_ret i buf r) = take i buf"

text \<open>All bytes that were read, and all bytes that were put, since the start.\<close>

definition got :: "pstate \<Rightarrow> u8 list" where
  "got s = concat (rlog s) @ rbuf (rd s)"

definition sent :: "pstate \<Rightarrow> u8 list" where
  "sent s = concat (wlog s) @ wput (wr s)"

text \<open>The number of bytes the reader has taken and counted.\<close>

definition rcount :: "pstate \<Rightarrow> nat" where
  "rcount s = length (got s) - (case rd s of R_incr _ _ \<Rightarrow> 1 | _ \<Rightarrow> 0)"

fun rproc_ok :: "rproc \<Rightarrow> nat \<Rightarrow> nat \<Rightarrow> bool" where
  "rproc_ok (R_take buf n) r w = (r < w)"
| "rproc_ok (R_incr buf n) r w = (r < w \<and> buf \<noteq> [])"
| "rproc_ok _ r w = True"

fun wproc_ok :: "wproc \<Rightarrow> Pipe \<Rightarrow> nat \<Rightarrow> nat \<Rightarrow> bool" where
  "wproc_ok (W_test i buf) p r w = (i \<le> length buf)"
| "wproc_ok (W_store i buf) p r w = (i < length buf \<and> w < r + PIPEBUFSIZ)"
| "wproc_ok (W_incr i buf) p r w = (i < length buf \<and> w < r + PIPEBUFSIZ \<and> p_buf p (w mod PIPEBUFSIZ) = buf ! i)"
| "wproc_ok (W_ret i buf x) p r w = (i \<le> length buf)"

definition pipe_inv :: "pstate \<Rightarrow> bool" where
  "pipe_inv s \<longleftrightarrow>
     (let r = rcount s; w = length (sent s) in
        p_rpos (pipe s) = of_nat r \<and> p_wpos (pipe s) = of_nat w \<and> r \<le> w \<and> w \<le> r + PIPEBUFSIZ \<and>
        prefix (got s) (sent s) \<and>
        (\<forall>j. r \<le> j \<longrightarrow> j < w \<longrightarrow> p_buf (pipe s) (j mod PIPEBUFSIZ) = sent s ! j) \<and>
        rproc_ok (rd s) r w \<and> wproc_ok (wr s) (pipe s) r w)"

lemma buf_index_of_nat: "k < 2 ^ 31 \<Longrightarrow> buf_index (of_nat k) = Some (k mod PIPEBUFSIZ)"
proof -
  assume "k < 2 ^ 31"
  moreover have "int k mod 32 = int (k mod 32)"
    by (simp add: zmod_int)
  ultimately show ?thesis
    by (simp add: buf_index_def sint_of_nat_small signed_modulo_int_def Let_def)
qed

lemma pipe_empty_of_nat:
  assumes "r < 2 ^ 31" "w < 2 ^ 31" "p_rpos p = of_nat r" "p_wpos p = of_nat w"
  shows "pipe_empty p \<longleftrightarrow> r = w"
  using assms word_of_nat_eq_iff [where ?'a = 32, of r w] by (simp add: pipe_empty_def take_bit_nat_eq_self)

lemma pipe_full_of_nat:
  assumes "r < 2 ^ 31" "w < 2 ^ 31" "p_rpos p = of_nat r" "p_wpos p = of_nat w"
  shows "pipe_full p \<longleftrightarrow> r + PIPEBUFSIZ \<le> w"
proof -
  have "(scast (p_wpos p) :: u64) = of_nat w" "(scast (p_rpos p) :: u64) + of_nat PIPEBUFSIZ = of_nat (r + PIPEBUFSIZ)"
    using assms scast_of_nat_small by simp_all
  then show ?thesis
    unfolding pipe_full_def using assms(1,2)
    by (simp add: word_le_nat_alt unsigned_of_nat take_bit_nat_eq_self del: of_nat_add)
qed

lemma pipe_inv_start: "pipe_inv pipe_start"
  by (simp add: pipe_inv_def pipe_start_def rcount_def got_def sent_def empty_Pipe_def)

lemma pipe_invD:
  assumes "pipe_inv s"
  shows "p_rpos (pipe s) = of_nat (rcount s)" "p_wpos (pipe s) = of_nat (length (sent s))"
    "rcount s \<le> length (sent s)" "length (sent s) \<le> rcount s + PIPEBUFSIZ"
    "prefix (got s) (sent s)"
    "\<And>j. rcount s \<le> j \<Longrightarrow> j < length (sent s) \<Longrightarrow> p_buf (pipe s) (j mod PIPEBUFSIZ) = sent s ! j"
    "rproc_ok (rd s) (rcount s) (length (sent s))" "wproc_ok (wr s) (pipe s) (rcount s) (length (sent s))"
  using assms by (simp_all add: pipe_inv_def Let_def)

lemma pipe_inv_same:
  assumes "pipe_inv s" "prefix (got s') (sent s)" "sent s' = sent s" "rcount s' = rcount s" "pipe s' = pipe s"
    and "rproc_ok (rd s') (rcount s) (length (sent s))" "wproc_ok (wr s') (pipe s) (rcount s) (length (sent s))"
  shows "pipe_inv s'"
  using assms by (simp add: pipe_inv_def Let_def)

lemma wproc_ok_mono: "wproc_ok x p r w \<Longrightarrow> p_buf p' = p_buf p \<Longrightarrow> r \<le> r' \<Longrightarrow> wproc_ok x p' r' w"
  by (cases x) auto

lemma inv_rstep:
  assumes inv: "pipe_inv s" and step: "reader_step closed (pipe s) (rd s) = Some (p, r)" and len: "length (sent s) < 2 ^ 31"
  shows "pipe_inv (s\<lparr>pipe := p, rd := r\<rparr>)"
proof (cases "rd s")
  case (R_test buf n)
  then have r: "rcount s \<le> length (sent s)"
    using inv by (simp add: pipe_inv_def Let_def)
  have "pipe_empty (pipe s) \<longleftrightarrow> rcount s = length (sent s)"
    using inv len r by (intro pipe_empty_of_nat) (auto simp: pipe_inv_def Let_def)
  with r have "\<not> pipe_empty (pipe s) \<Longrightarrow> rcount s < length (sent s)"
    by simp
  then have "rproc_ok r (rcount s) (length (sent s))" "p = pipe s" "rbuf r = buf" "\<And>b n. r \<noteq> R_incr b n"
    using step [unfolded R_test] by (auto split: if_splits)
  moreover have "(case r of R_incr _ _ \<Rightarrow> 1 | _ \<Rightarrow> 0) = (0 :: nat)"
    using calculation(4) by (cases r) auto
  ultimately show ?thesis
    using R_test pipe_invD(5,8) [OF inv]
    by (intro pipe_inv_same [OF inv]) (simp_all, simp_all add: got_def sent_def rcount_def)
next
  case (R_take buf n)
  let ?k = "length (got s)"
  have k: "rcount s = ?k" "?k < length (sent s)" "p_rpos (pipe s) = of_nat ?k"
    using inv R_take by (auto simp: pipe_inv_def rcount_def Let_def)
  then have "p_buf (pipe s) (?k mod PIPEBUFSIZ) = sent s ! ?k"
    using inv by (auto simp: pipe_inv_def Let_def)
  then have new: "p = pipe s" "r = R_incr (buf @ [sent s ! ?k]) n"
    using step R_take k len buf_index_of_nat [of ?k] by auto
  then have "got (s\<lparr>pipe := p, rd := r\<rparr>) = got s @ [sent s ! ?k]"
    using R_take by (simp add: got_def)
  moreover have "prefix (got s @ [sent s ! ?k]) (sent s)"
    using pipe_invD(5) [OF inv] k(2) by (rule append_one_prefix)
  ultimately show ?thesis
    using pipe_invD(8) [OF inv] k new
    by (intro pipe_inv_same [OF inv]) (simp_all, simp_all add: rcount_def sent_def)
next
  case (R_incr buf n)
  let ?s = "s\<lparr>pipe := p, rd := r\<rparr>"
  have new: "p = (pipe s)\<lparr>p_rpos := p_rpos (pipe s) + 1\<rparr>" "r = R_test buf n"
    using step R_incr by simp_all
  have "buf \<noteq> []"
    using pipe_invD(7) [OF inv] R_incr by simp
  then have eq: "got ?s = got s" "sent ?s = sent s" "rcount ?s = Suc (rcount s)"
    using R_incr new by (simp_all add: got_def sent_def rcount_def)
  have less: "rcount s < length (sent s)"
    using pipe_invD(7) [OF inv] R_incr by simp
  have "wproc_ok (wr s) p (Suc (rcount s)) (length (sent s))"
    using pipe_invD(8) [OF inv] by (rule wproc_ok_mono) (simp_all add: new)
  with less show ?thesis
    unfolding pipe_inv_def Let_def eq using pipe_invD [OF inv] by (simp add: new)
next
  case (R_ret buf)
  with step have "p = pipe s" "r = rd s"
    by simp_all
  with inv show ?thesis by (cases s) simp
qed

lemma mod_slot_neq: "r \<le> j \<Longrightarrow> j < w \<Longrightarrow> w < r + n \<Longrightarrow> j mod n \<noteq> w mod (n :: nat)"
proof
  assume a: "r \<le> j" "j < w" "w < r + n" "j mod n = w mod n"
  then have "n dvd w - j"
    by (metis less_imp_le mod_eq_dvd_iff_nat)
  then have "n \<le> w - j"
    using a by (intro dvd_imp_le) simp_all
  with a show False by simp
qed

lemma inv_wstep:
  assumes inv: "pipe_inv s" and step: "writer_step closed (pipe s) (wr s) = Some (p, x)"
    and len: "length (sent (s\<lparr>pipe := p, wr := x\<rparr>)) < 2 ^ 31"
  shows "pipe_inv (s\<lparr>pipe := p, wr := x\<rparr>)"
proof -
  let ?s = "s\<lparr>pipe := p, wr := x\<rparr>"
  have same: "got ?s = got s" "rcount ?s = rcount s"
    by (simp_all add: got_def rcount_def)
  show ?thesis
  proof (cases "wr s")
    case (W_test i buf)
    have "wput x = take i buf"
      using step [unfolded W_test] by (auto split: if_splits)
    then have eq: "sent ?s = sent s"
      by (simp add: sent_def W_test)
    have "pipe_full (pipe s) \<longleftrightarrow> rcount s + PIPEBUFSIZ \<le> length (sent s)"
      using pipe_invD(1-3) [OF inv] len [unfolded eq] by (intro pipe_full_of_nat) simp_all
    then have "p = pipe s" "wproc_ok x (pipe s) (rcount s) (length (sent s))"
      using step [unfolded W_test] pipe_invD(8) [OF inv, unfolded W_test] by (auto split: if_splits)
    then show ?thesis
      using pipe_invD(5,7) [OF inv] by (intro pipe_inv_same [OF inv]) (unfold eq same, simp_all)
  next
    case (W_store i buf)
    let ?k = "length (sent s) mod PIPEBUFSIZ"
    have "wput x = take i buf"
      using step [unfolded W_store] by (auto split: Option.bind_splits)
    then have eq: "sent ?s = sent s"
      by (simp add: sent_def W_store)
    have w: "i < length buf" "length (sent s) < rcount s + PIPEBUFSIZ"
      using pipe_invD(8) [OF inv] W_store by simp_all
    have new: "p = (pipe s)\<lparr>p_buf := (p_buf (pipe s))(?k := buf ! i)\<rparr>" "x = W_incr i buf"
      using step W_store pipe_invD(2) [OF inv] buf_index_of_nat [of "length (sent s)"] len [unfolded eq] by simp_all
    have "p_buf p (j mod PIPEBUFSIZ) = sent s ! j" if "rcount s \<le> j" "j < length (sent s)" for j
      using pipe_invD(6) [OF inv that] mod_slot_neq [OF that w(2)] by (simp add: new)
    then show ?thesis
      unfolding pipe_inv_def Let_def same eq using pipe_invD [OF inv] w by (simp add: new)
  next
    case (W_incr i buf)
    have new: "p = (pipe s)\<lparr>p_wpos := p_wpos (pipe s) + 1\<rparr>" "x = W_test (Suc i) buf"
      using step W_incr by simp_all
    have w: "i < length buf" "length (sent s) < rcount s + PIPEBUFSIZ"
        "p_buf (pipe s) (length (sent s) mod PIPEBUFSIZ) = buf ! i"
      using pipe_invD(8) [OF inv] W_incr by simp_all
    have eq: "sent ?s = sent s @ [buf ! i]"
      using W_incr new w(1) by (simp add: sent_def take_Suc_conv_app_nth)
    have "p_buf p (j mod PIPEBUFSIZ) = (sent s @ [buf ! i]) ! j" if "rcount s \<le> j" "j < Suc (length (sent s))" for j
      using pipe_invD(6) [OF inv that(1)] that(2) w(3) by (cases "j < length (sent s)") (simp_all add: new nth_append less_Suc_eq)
    moreover have "rproc_ok (rd s) (rcount s) (Suc (length (sent s)))"
      using pipe_invD(7) [OF inv] by (cases "rd s") auto
    ultimately show ?thesis
      unfolding pipe_inv_def Let_def same eq using pipe_invD(1-5) [OF inv] w by (simp add: new)
  next
    case (W_ret i buf v)
    with step have "p = pipe s" "x = wr s"
      by simp_all
    with inv show ?thesis by (cases s) simp
  qed
qed

lemma wput_mono: "writer_step closed p x = Some (p', y) \<Longrightarrow> length (wput x) \<le> length (wput y)"
  by (cases x) (auto split: if_splits Option.bind_splits)

lemma sent_mono: "pipe_step s s' \<Longrightarrow> length (sent s) \<le> length (sent s')"
proof (erule pipe_stepE)
  fix closed p w assume "s' = s\<lparr>pipe := p, wr := w\<rparr>" "writer_step closed (pipe s) (wr s) = Some (p, w)"
  then show ?thesis
    using wput_mono by (simp add: sent_def)
qed (auto simp: sent_def)

lemma pipe_inv_step: "pipe_step s s' \<Longrightarrow> pipe_inv s \<Longrightarrow> length (sent s') < 2 ^ 31 \<Longrightarrow> pipe_inv s'"
proof (erule pipe_stepE)
  fix buf n assume a: "pipe_inv s" "s' = s\<lparr>rd := R_test [] n, rlog := rlog s @ [buf]\<rparr>" "rd s = R_ret buf"
  then show ?thesis
    using pipe_invD(5,8) [OF a(1)]
    by (intro pipe_inv_same [OF a(1)]) (simp_all, simp_all add: got_def sent_def rcount_def)
next
  fix i buf r bs assume a: "pipe_inv s" "s' = s\<lparr>wr := W_test 0 bs, wlog := wlog s @ [take i buf]\<rparr>" "wr s = W_ret i buf r"
  then show ?thesis
    using pipe_invD(5,7) [OF a(1)]
    by (intro pipe_inv_same [OF a(1)]) (simp_all, simp_all add: got_def sent_def rcount_def)
next
  fix closed p r
  assume a: "pipe_inv s" "s' = s\<lparr>pipe := p, rd := r\<rparr>" "reader_step closed (pipe s) (rd s) = Some (p, r)"
    "length (sent s') < 2 ^ 31"
  then have "length (sent s) < 2 ^ 31"
    by (simp add: sent_def)
  with a show ?thesis by (simp add: inv_rstep)
next
  fix closed p w
  assume "pipe_inv s" "s' = s\<lparr>pipe := p, wr := w\<rparr>" "writer_step closed (pipe s) (wr s) = Some (p, w)"
    "length (sent s') < 2 ^ 31"
  then show ?thesis
    using inv_wstep by blast
qed

lemma pipe_reach_inv:
  assumes "pipe_step\<^sup>*\<^sup>* pipe_start s" "length (sent s) < 2 ^ 31"
  shows "pipe_inv s"
  using assms
proof (induction rule: rtranclp_induct)
  case (step s s')
  then show ?case
    using sent_mono [OF step.hyps(2)] pipe_inv_step by fastforce
qed (rule pipe_inv_start)

lemma taken_le: "pipe_inv s \<Longrightarrow> length (got s) \<le> Suc (rcount s)"
  by (cases "rd s") (auto simp: rcount_def)

text \<open>
  C9. A pipe is first in, first out, wherever reader and writer are interrupted: as long as less than 2 GB went
  through it, what the calls of the reader have read is what the calls of the writer have put, in order, without the last bytes,
  and at most 32 bytes are on the way.
\<close>

theorem pipe_fifo:
  assumes "pipe_step\<^sup>*\<^sup>* pipe_start s" "length (sent s) < 2 ^ 31"
  shows "\<exists>rest. sent s = got s @ rest \<and> length rest \<le> PIPEBUFSIZ"
proof -
  note inv = pipe_reach_inv [OF assms]
  obtain rest where rest: "sent s = got s @ rest"
    using pipe_invD(5) [OF inv] by (auto simp: prefix_def)
  moreover have "rcount s \<le> length (got s)"
    by (simp add: rcount_def)
  ultimately show ?thesis
    using pipe_invD(4) [OF inv] by auto
qed

theorem pipe_fifo_witness:
  "\<exists>s rest. pipe_step\<^sup>*\<^sup>* pipe_start s \<and> sent s = [7] \<and> [7] = got s @ rest \<and> length rest \<le> PIPEBUFSIZ"
proof -
  let ?s1 = "pipe_start\<lparr>wr := W_test 0 [7], wlog := [[]]\<rparr>"
  let ?p = "empty_Pipe\<lparr>p_buf := (p_buf empty_Pipe)(0 := 7)\<rparr>"
  let ?s2 = "?s1\<lparr>wr := W_store 0 [7]\<rparr>" and ?s3 = "?s1\<lparr>pipe := ?p, wr := W_incr 0 [7]\<rparr>"
  let ?s4 = "?s1\<lparr>pipe := ?p\<lparr>p_wpos := 1\<rparr>, wr := W_test 1 [7]\<rparr>"
  have "pipe_step pipe_start ?s1"
    using pipe_wcall [of pipe_start 0 "[]" 0 "[7]"] by (simp add: pipe_start_def)
  moreover have "pipe_step ?s1 ?s2"
    using pipe_wstep [of False ?s1 empty_Pipe "W_store 0 [7]"]
    by (simp add: pipe_start_def empty_Pipe_def pipe_full_def)
  moreover have "pipe_step ?s2 ?s3"
    using pipe_wstep [of False ?s2 ?p "W_incr 0 [7]"] buf_index_of_nat [of 0]
    by (simp add: pipe_start_def empty_Pipe_def)
  moreover have "pipe_step ?s3 ?s4"
    using pipe_wstep [of False ?s3 "?p\<lparr>p_wpos := 1\<rparr>" "W_test 1 [7]"]
    by (simp add: pipe_start_def empty_Pipe_def)
  ultimately have r: "pipe_step\<^sup>*\<^sup>* pipe_start ?s4"
    by (meson converse_rtranclp_into_rtranclp rtranclp.rtrancl_refl)
  moreover have sent: "sent ?s4 = [7]"
    by (simp add: sent_def)
  moreover obtain rest where "sent ?s4 = got ?s4 @ rest" "length rest \<le> PIPEBUFSIZ"
    using pipe_fifo [OF r] sent by auto
  ultimately show ?thesis by metis
qed

subsection \<open>Progress\<close>

text \<open>
  Two processes that take turns. A turn that does nothing leaves the state as it is, any other turn brings the
  measure down, and as long as the work is not done one of the two can do something. Then the work gets done under every
  schedule that lets each process run again and again.
\<close>

primrec alternate :: "('s \<Rightarrow> 's) \<Rightarrow> ('s \<Rightarrow> 's) \<Rightarrow> (nat \<Rightarrow> bool) \<Rightarrow> 's \<Rightarrow> nat \<Rightarrow> 's" where
  "alternate turn1 turn2 sched s 0 = s"
| "alternate turn1 turn2 sched s (Suc t) =
     (if sched t then turn1 (alternate turn1 turn2 sched s t) else turn2 (alternate turn1 turn2 sched s t))"

locale two_turns =
  fixes turn1 turn2 :: "'s \<Rightarrow> 's" and job :: "'s \<Rightarrow> bool" and left :: "'s \<Rightarrow> nat" and finished :: "'s \<Rightarrow> bool"
  assumes job1: "job s \<Longrightarrow> job (turn1 s)" and job2: "job s \<Longrightarrow> job (turn2 s)"
    and less1: "job s \<Longrightarrow> turn1 s \<noteq> s \<Longrightarrow> left (turn1 s) < left s"
    and less2: "job s \<Longrightarrow> turn2 s \<noteq> s \<Longrightarrow> left (turn2 s) < left s"
    and busy: "job s \<Longrightarrow> turn1 s = s \<Longrightarrow> turn2 s = s \<Longrightarrow> finished s"
begin

abbreviation turns :: "(nat \<Rightarrow> bool) \<Rightarrow> 's \<Rightarrow> nat \<Rightarrow> 's" where
  "turns \<equiv> alternate turn1 turn2"

lemma turns_job: "job s \<Longrightarrow> job (turns sched s t)"
  by (induction t) (auto intro: job1 job2)

lemma first_change:
  assumes "turns sched s u \<noteq> turns sched s t" "t \<le> u"
  shows "\<exists>v \<ge> t. turns sched s v = turns sched s t \<and> turns sched s (Suc v) \<noteq> turns sched s v"
  using assms(2,1)
proof (induction u rule: dec_induct)
  case (step u)
  then show ?case
    by (cases "turns sched s u = turns sched s t") auto
qed simp

lemma turns_move:
  assumes fair: "\<forall>t. \<exists>u \<ge> t. sched u" "\<forall>t. \<exists>u \<ge> t. \<not> sched u" and job: "job s"
    and nf: "\<not> finished (turns sched s t)"
  shows "\<exists>v \<ge> t. left (turns sched s v) < left (turns sched s t)"
proof -
  let ?s = "turns sched s t"
  have "turn1 ?s \<noteq> ?s \<or> turn2 ?s \<noteq> ?s"
    using busy [OF turns_job [OF job]] nf by blast
  then obtain u where u: "u \<ge> t" "(if sched u then turn1 ?s else turn2 ?s) \<noteq> ?s"
    using fair by meson
  then have "turns sched s u \<noteq> ?s \<or> turns sched s (Suc u) \<noteq> ?s"
    by auto
  then obtain v where v: "v \<ge> t" "turns sched s v = ?s" "turns sched s (Suc v) \<noteq> ?s"
    using first_change [of sched s _ t] u(1) by (metis le_Suc_eq)
  then have "left (turns sched s (Suc v)) < left ?s"
    using less1 less2 turns_job [OF job, of sched t] by (auto split: if_splits)
  then show ?thesis
    using v(1) le_Suc_eq by blast
qed

lemma fair_finishes:
  assumes "\<forall>t. \<exists>u \<ge> t. sched u" "\<forall>t. \<exists>u \<ge> t. \<not> sched u" "job s"
  shows "\<exists>t. finished (turns sched s t)"
proof -
  have "\<exists>u \<ge> t. finished (turns sched s u)" for t
  proof (induction "left (turns sched s t)" arbitrary: t rule: less_induct)
    case less
    then show ?case
      using turns_move [OF assms, of t] by (meson order_refl order_trans)
  qed
  then show ?thesis by blast
qed

end

text \<open>
  A turn of a reader that reads \<open>n\<close> bytes with \<^verbatim>\<open>readn\<close>, which calls \<^verbatim>\<open>devpipe_read\<close> for the bytes it still
  lacks, and a turn of the writer. The pipe is open at both ends.
\<close>

definition readn_turn :: "nat \<Rightarrow> pstate \<Rightarrow> pstate" where
  "readn_turn n s =
     (case rd s of
        R_ret buf \<Rightarrow>
          if length (got s) < n then s\<lparr>rd := R_test [] (n - length (got s)), rlog := rlog s @ [buf]\<rparr> else s
      | _ \<Rightarrow> (case reader_step False (pipe s) (rd s) of None \<Rightarrow> s | Some (p, r) \<Rightarrow> s\<lparr>pipe := p, rd := r\<rparr>))"

definition write_turn :: "pstate \<Rightarrow> pstate" where
  "write_turn s = (case writer_step False (pipe s) (wr s) of None \<Rightarrow> s | Some (p, w) \<Rightarrow> s\<lparr>pipe := p, wr := w\<rparr>)"

definition transfer_start :: "u8 list \<Rightarrow> pstate" where
  "transfer_start bs = pipe_start\<lparr>wr := W_test 0 bs\<rparr>"

definition transfer_done :: "u8 list \<Rightarrow> pstate \<Rightarrow> bool" where
  "transfer_done bs s \<longleftrightarrow> got s = bs \<and> rd s = R_ret (rbuf (rd s)) \<and> wr s = W_ret (length bs) bs (length bs)"

fun read_job :: "nat \<Rightarrow> nat \<Rightarrow> rproc \<Rightarrow> bool" where
  "read_job n t (R_test buf m) = (m = length buf + (n - t) \<and> (buf = [] \<longrightarrow> t < n))"
| "read_job n t (R_take buf m) = (m = length buf + (n - t))"
| "read_job n t (R_incr buf m) = (m = length buf + (n - t) \<and> buf \<noteq> [])"
| "read_job n t (R_ret buf) = True"

fun write_job :: "u8 list \<Rightarrow> wproc \<Rightarrow> bool" where
  "write_job bs (W_ret i buf r) = (buf = bs \<and> i = length bs \<and> r = length bs)"
| "write_job bs (W_test i buf) = (buf = bs)"
| "write_job bs (W_store i buf) = (buf = bs)"
| "write_job bs (W_incr i buf) = (buf = bs)"

definition pipe_job :: "u8 list \<Rightarrow> pstate \<Rightarrow> bool" where
  "pipe_job bs s \<longleftrightarrow> length bs < 2 ^ 31 \<and> pipe_inv s \<and> wlog s = [] \<and> write_job bs (wr s) \<and> read_job (length bs) (length (got s)) (rd s)"

fun read_left :: "nat \<Rightarrow> nat \<Rightarrow> rproc \<Rightarrow> nat" where
  "read_left n t (R_incr buf m) = 6 * (n - t) + 5"
| "read_left n t (R_test buf m) = 6 * (n - t) + (if buf = [] then 2 else 4)"
| "read_left n t (R_ret buf) = 6 * (n - t) + 3"
| "read_left n t (R_take buf m) = 6 * (n - t) + 1"

fun write_left :: "wproc \<Rightarrow> nat" where
  "write_left (W_test i buf) = 3 * (length buf - i) + 1"
| "write_left (W_store i buf) = 3 * (length buf - i)"
| "write_left (W_incr i buf) = 3 * (length buf - i) - 1"
| "write_left (W_ret i buf r) = 0"

definition pipe_left :: "u8 list \<Rightarrow> pstate \<Rightarrow> nat" where
  "pipe_left bs s = read_left (length bs) (length (got s)) (rd s) + write_left (wr s)"

lemma pipe_job_sent:
  assumes "pipe_job bs s"
  shows "prefix (sent s) bs"
proof -
  have "sent s = wput (wr s)" "write_job bs (wr s)"
    using assms by (simp_all add: pipe_job_def sent_def)
  then show ?thesis
    by (cases "wr s") (auto simp: take_is_prefix)
qed

lemma pipe_job_len:
  assumes "pipe_job bs s"
  shows "length (sent s) \<le> length bs" "length (sent s) < 2 ^ 31" "length (got s) \<le> length (sent s)"
  using prefix_length_le [OF pipe_job_sent [OF assms]] assms
    prefix_length_le [OF pipe_invD(5)] by (auto simp: pipe_job_def)

lemma write_turn_job:
  assumes "pipe_job bs s"
  shows "pipe_job bs (write_turn s)" "write_turn s \<noteq> s \<Longrightarrow> pipe_left bs (write_turn s) < pipe_left bs s"
proof -
  have j: "pipe_inv s" "wlog s = []" "write_job bs (wr s)" "wproc_ok (wr s) (pipe s) (rcount s) (length (sent s))"
    using assms pipe_invD(8) by (auto simp: pipe_job_def)
  obtain p w where w: "writer_step False (pipe s) (wr s) = Some (p, w)"
    using pipe_invD(2) [OF j(1)] pipe_job_len(2) [OF assms] buf_index_of_nat by (cases "wr s") auto
  then have t: "write_turn s = s\<lparr>pipe := p, wr := w\<rparr>"
    by (simp add: write_turn_def)
  have w': "write_job bs w" "wr s \<noteq> w \<Longrightarrow> write_left w < write_left (wr s)" "wr s = w \<Longrightarrow> p = pipe s"
      "length (wput w) \<le> length bs"
    using w j(3,4) by (cases "wr s"; auto split: if_splits Option.bind_splits)+
  have "sent (s\<lparr>pipe := p, wr := w\<rparr>) = wput w"
    using j(2) by (simp add: sent_def)
  then have "pipe_inv (s\<lparr>pipe := p, wr := w\<rparr>)"
    using inv_wstep [OF j(1) w] w'(4) assms by (simp add: pipe_job_def)
  then show "pipe_job bs (write_turn s)"
    using assms w'(1) by (simp add: t pipe_job_def got_def)
  assume "write_turn s \<noteq> s"
  then have "wr s \<noteq> w"
    using w'(3) t by auto
  with w'(2) show "pipe_left bs (write_turn s) < pipe_left bs s"
    by (simp add: t pipe_left_def got_def)
qed

lemma readn_turn_cases:
  assumes "pipe_job bs s"
  obtains (again) buf where "rd s = R_ret buf" "length (got s) < length bs"
      "readn_turn (length bs) s = s\<lparr>rd := R_test [] (length bs - length (got s)), rlog := rlog s @ [buf]\<rparr>"
    | (stop) buf where "rd s = R_ret buf" "length (got s) = length bs" "readn_turn (length bs) s = s"
    | (step) p r where "\<And>buf. rd s \<noteq> R_ret buf" "reader_step False (pipe s) (rd s) = Some (p, r)"
      "readn_turn (length bs) s = s\<lparr>pipe := p, rd := r\<rparr>"
proof (cases "\<exists>buf. rd s = R_ret buf")
  case True
  then obtain buf where buf: "rd s = R_ret buf" by blast
  have "length (got s) \<le> length bs"
    using pipe_job_len [OF assms] by simp
  with buf show ?thesis
    using again [of buf] stop [of buf] by (cases "length (got s) < length bs") (simp_all add: readn_turn_def)
next
  case False
  have "pipe_inv s"
    using assms by (simp add: pipe_job_def)
  then have "buf_index (p_rpos (pipe s)) \<noteq> None"
    using pipe_invD(1,3) [of s] pipe_job_len(2) [OF assms] buf_index_of_nat [of "rcount s"] by auto
  then obtain p r where "reader_step False (pipe s) (rd s) = Some (p, r)"
    by (cases "rd s") auto
  with False show ?thesis
    by (intro step [of p r]) (auto simp: readn_turn_def split: rproc.splits)
qed

lemma reader_step_job:
  assumes "reader_step False p x = Some (p', y)" "\<And>buf. x \<noteq> R_ret buf" "read_job n t x"
    and "t' = t + (length (rbuf y) - length (rbuf x))" "t' \<le> n"
  shows "read_job n t' y \<and> (y \<noteq> x \<or> p' \<noteq> p \<longrightarrow> read_left n t' y < read_left n t x)"
  using assms by (cases x) (auto split: if_splits Option.bind_splits)

lemma readn_turn_job:
  assumes "pipe_job bs s"
  shows "pipe_job bs (readn_turn (length bs) s)"
    "readn_turn (length bs) s \<noteq> s \<Longrightarrow> pipe_left bs (readn_turn (length bs) s) < pipe_left bs s"
proof -
  have j: "pipe_inv s" "wlog s = []" "write_job bs (wr s)" "read_job (length bs) (length (got s)) (rd s)"
    and b: "length bs < 2 ^ 31"
    using assms by (auto simp: pipe_job_def)
  note len = pipe_job_len [OF assms]
  have "pipe_job bs (readn_turn (length bs) s) \<and>
      (readn_turn (length bs) s \<noteq> s \<longrightarrow> pipe_left bs (readn_turn (length bs) s) < pipe_left bs s)"
  proof (cases rule: readn_turn_cases [OF assms, case_names again stop step])
    case (again buf)
    let ?t = "readn_turn (length bs) s"
    have "pipe_step s ?t"
      using pipe_rcall [OF again(1)] by (simp add: again(3))
    moreover have eq: "sent ?t = sent s" "got ?t = got s"
      using again by (simp_all add: sent_def got_def)
    ultimately have "pipe_inv ?t"
      using pipe_inv_step [OF _ j(1)] len by simp
    then show ?thesis
      using again j eq b by (simp add: pipe_job_def pipe_left_def)
  next
    case (step p r)
    let ?t = "s\<lparr>pipe := p, rd := r\<rparr>"
    have inv: "pipe_inv ?t"
      using inv_rstep [OF j(1) step(2)] len by simp
    have tk: "length (got ?t) = length (got s) + (length (rbuf r) - length (rbuf (rd s)))"
      using step(1,2) by (cases "rd s") (auto simp: got_def split: if_splits Option.bind_splits)
    have tl: "length (got ?t) \<le> length bs"
      using prefix_length_le [OF pipe_invD(5) [OF inv]] len by (simp add: sent_def)
    have "read_job (length bs) (length (got ?t)) r \<and> (r \<noteq> rd s \<or> p \<noteq> pipe s \<longrightarrow>
        read_left (length bs) (length (got ?t)) r < read_left (length bs) (length (got s)) (rd s))"
      using step(1) by (intro reader_step_job [OF step(2) _ j(4) tk tl])
    then show ?thesis
      using inv j b step(3) by (auto simp: pipe_job_def pipe_left_def)
  qed (use assms in simp)
  then show "pipe_job bs (readn_turn (length bs) s)"
    "readn_turn (length bs) s \<noteq> s \<Longrightarrow> pipe_left bs (readn_turn (length bs) s) < pipe_left bs s"
    by blast+
qed

lemma transfer_busy:
  assumes job: "pipe_job bs s" and r: "readn_turn (length bs) s = s" and w: "write_turn s = s"
  shows "transfer_done bs s"
proof -
  have j: "pipe_inv s" "wlog s = []" "write_job bs (wr s)" "wproc_ok (wr s) (pipe s) (rcount s) (length (sent s))"
    using job pipe_invD(8) by (auto simp: pipe_job_def)
  note len = pipe_job_len [OF job] and pos = pipe_invD(1-3) [OF j(1)]
  have full: "pipe_full (pipe s) \<longleftrightarrow> rcount s + PIPEBUFSIZ \<le> length (sent s)"
    using pos len by (intro pipe_full_of_nat) simp_all
  have empty: "pipe_empty (pipe s) \<longleftrightarrow> rcount s = length (sent s)"
    using pos len by (intro pipe_empty_of_nat) simp_all
  have sent: "sent s = wput (wr s)"
    using j(2) by (simp add: sent_def)
  have ws: "(\<exists>i. wr s = W_test i bs \<and> i < length bs \<and> pipe_full (pipe s)) \<or> wr s = W_ret (length bs) bs (length bs)"
  proof (cases "wr s")
    case (W_test i buf)
    then have "pipe_full (pipe s)" "i < length buf"
      using w by (auto simp: write_turn_def split: if_splits dest!: arg_cong [where f = wr])
    with W_test j(3) show ?thesis by simp
  next
    case (W_store i buf)
    then show ?thesis
      using w pos(2) len buf_index_of_nat [of "length (sent s)"]
      by (auto simp: write_turn_def dest!: arg_cong [where f = wr])
  next
    case (W_incr i buf)
    then show ?thesis
      using w by (auto simp: write_turn_def dest!: arg_cong [where f = wr])
  qed (use j(3) in simp)
  show ?thesis
  proof (cases rule: readn_turn_cases [OF job, case_names again stop step])
    case (again buf)
    then show ?thesis
      using r by (auto dest!: arg_cong [where f = rd])
  next
    case (stop buf)
    then have "length (sent s) = length bs"
      using len by simp
    then have "wr s = W_ret (length bs) bs (length bs)" "sent s = bs"
      using ws sent by auto
    moreover have "got s = sent s"
      using pipe_invD(5) [OF j(1)] stop \<open>length (sent s) = length bs\<close> by (auto simp: prefix_def)
    ultimately show ?thesis
      using stop by (simp add: transfer_done_def)
  next
    case (step p q)
    then have "rd s = q" using r by (auto dest!: arg_cong [where f = rd])
    then have e: "pipe_empty (pipe s)" "length (got s) < length bs"
      using step(1,2) job by (cases "rd s"; auto simp: pipe_job_def split: if_splits Option.bind_splits)+
    then have "sent s = bs"
      using ws full empty sent by auto
    moreover have "rcount s \<le> length (got s)"
      by (simp add: rcount_def)
    ultimately show ?thesis
      using e empty by simp
  qed
qed

interpretation transfer: two_turns "readn_turn (length bs)" write_turn "pipe_job bs" "pipe_left bs" "transfer_done bs" for bs
  by unfold_locales (auto intro: readn_turn_job write_turn_job transfer_busy)

lemma transfer_start_job: "length bs < 2 ^ 31 \<Longrightarrow> pipe_job bs (transfer_start bs)"
  by (auto simp: pipe_job_def transfer_start_def pipe_inv_def pipe_start_def rcount_def got_def sent_def empty_Pipe_def)

text \<open>
  C10. A transfer through a pipe gets done: if one side writes \<open>bs\<close> and the other side reads as many bytes with
  \<^verbatim>\<open>readn\<close>, then under every schedule that lets each of them run again and again there is a time when
  both have returned, the writer the number of bytes, and the reader has exactly \<open>bs\<close>.
\<close>

theorem pipe_transfer_completes:
  assumes "\<forall>t. \<exists>u \<ge> t. sched u" "\<forall>t. \<exists>u \<ge> t. \<not> sched u" "length bs < 2 ^ 31"
  shows "\<exists>t. transfer_done bs (alternate (readn_turn (length bs)) write_turn sched (transfer_start bs) t)"
  using transfer.fair_finishes [OF assms(1,2) transfer_start_job [OF assms(3)]] .

theorem pipe_transfer_completes_witness:
  "\<exists>t. transfer_done [1, 2, 3] (alternate (readn_turn 3) write_turn even (transfer_start [1, 2, 3]) t)"
proof -
  have "\<exists>u \<ge> t. even u" "\<exists>u \<ge> t. odd u" for t :: nat
    by (rule exI [of _ "2 * t"], simp, rule exI [of _ "2 * t + 1"], simp)
  then show ?thesis
    using pipe_transfer_completes [of even "[1, 2, 3]"] by (simp add: numeral_3_eq_3)
qed

text \<open>
  After 2 GB the positions are negative. The writer then takes the pipe to be full until the reader has caught up; after
  that the place in the buffer is before its start.
\<close>

lemma pipe_negative_full:
  assumes "p_wpos p = 2 ^ 31" "0 \<le> sint (p_rpos p)" "sint (p_rpos p) < 2 ^ 31 - 32"
  shows "pipe_full p"
proof -
  have r: "unat (p_rpos p) < 2 ^ 31"
    using assms(2) by (rule sint_nonneg)
  then have "unat ((scast (p_rpos p) :: u64) + 32) = unat (p_rpos p) + 32"
    using small_signed(2) [of "p_rpos p"] by (simp add: unat_word_ariths)
  moreover have "unat (scast (2 ^ 31 :: u32) :: u64) = 0xFFFFFFFF80000000"
    by simp
  ultimately show ?thesis
    using r assms(1) by (simp add: pipe_full_def word_le_nat_alt)
qed

lemma pipe_negative_outside:
  assumes "p_wpos p = 2 ^ 31 + 1"
  shows "writer_step closed p (W_store i buf) = None"
  using assms by (simp add: buf_index_def signed_modulo_int_def Let_def)

subsection \<open>Is the other end closed?\<close>

text \<open>
  \<^verbatim>\<open>_pipeisclosed\<close> compares the reference counts of the descriptor page of its end and of the shared page. The counts
  change page by page. \<^verbatim>\<open>dup\<close> maps the shared page first and then the descriptor;
  \<^verbatim>\<open>devpipe_close\<close> unmaps the descriptor first and then the shared page; \<^verbatim>\<open>fork\<close> goes through the address space
  upwards and so maps the descriptors before the shared page.
  For each end, \<open>opn\<close> counts the descriptors with both pages mapped, \<open>dupping\<close>, \<open>closing\<close> and
  \<open>forking\<close> those with one page mapped, in the middle of one of these functions.
\<close>

datatype pipe_end = Read_End | Write_End

fun other_end :: "pipe_end \<Rightarrow> pipe_end" where
  "other_end Read_End = Write_End"
| "other_end Write_End = Read_End"

record pipe_refs =
  opn :: "pipe_end \<Rightarrow> nat"
  dupping :: "pipe_end \<Rightarrow> nat"
  closing :: "pipe_end \<Rightarrow> nat"
  forking :: "pipe_end \<Rightarrow> nat"

definition fd_pageref :: "pipe_refs \<Rightarrow> pipe_end \<Rightarrow> nat" where
  "fd_pageref s e = opn s e + forking s e"

definition pipe_pageref :: "pipe_refs \<Rightarrow> nat" where
  "pipe_pageref s = (\<Sum>e \<leftarrow> [Read_End, Write_End]. opn s e + dupping s e + closing s e)"

definition pipeisclosed :: "pipe_refs \<Rightarrow> pipe_end \<Rightarrow> bool" where
  "pipeisclosed s e \<longleftrightarrow> fd_pageref s e = pipe_pageref s"

inductive refs_step :: "pipe_refs \<Rightarrow> pipe_refs \<Rightarrow> bool" where
  dup_data: "opn s e > 0 \<Longrightarrow> refs_step s (s\<lparr>dupping := (dupping s)(e := dupping s e + 1)\<rparr>)"
| dup_fd: "dupping s e > 0 \<Longrightarrow>
    refs_step s (s\<lparr>dupping := (dupping s)(e := dupping s e - 1), opn := (opn s)(e := opn s e + 1)\<rparr>)"
| close_fd: "opn s e > 0 \<Longrightarrow>
    refs_step s (s\<lparr>opn := (opn s)(e := opn s e - 1), closing := (closing s)(e := closing s e + 1)\<rparr>)"
| close_data: "closing s e > 0 \<Longrightarrow> refs_step s (s\<lparr>closing := (closing s)(e := closing s e - 1)\<rparr>)"
| fork_fd: "opn s e > 0 \<Longrightarrow> refs_step s (s\<lparr>forking := (forking s)(e := forking s e + 1)\<rparr>)"
| fork_data: "forking s e > 0 \<Longrightarrow>
    refs_step s (s\<lparr>forking := (forking s)(e := forking s e - 1), opn := (opn s)(e := opn s e + 1)\<rparr>)"

definition pipe_created :: pipe_refs where
  "pipe_created = \<lparr>opn = \<lambda>_. 1, dupping = \<lambda>_. 0, closing = \<lambda>_. 0, forking = \<lambda>_. 0\<rparr>"

text \<open>Outside \<^verbatim>\<open>fork\<close> the answer that the other end is closed is right, in the middle of any \<^verbatim>\<open>dup\<close> and \<^verbatim>\<open>close\<close>.\<close>

lemma pipeisclosed_sound:
  assumes "pipeisclosed s e" "\<And>e. forking s e = 0"
  shows "opn s (other_end e) = 0"
  using assms by (cases e) (simp_all add: pipeisclosed_def fd_pageref_def pipe_pageref_def)

fun both :: "nat \<Rightarrow> nat \<Rightarrow> pipe_end \<Rightarrow> nat" where
  "both r w Read_End = r"
| "both r w Write_End = w"

lemma all_ends: "(\<forall>e. P e) \<longleftrightarrow> P Read_End \<and> P Write_End"
  by (metis pipe_end.exhaust)

lemma both_upd [simp]: "(both r w)(Read_End := n) = both n w" "(both r w)(Write_End := n) = both r n"
  by (simp_all add: fun_eq_iff all_ends)

lemma both_const: "(\<lambda>_. n) = both n n"
  by (simp add: fun_eq_iff all_ends)


end
