(* ===== verification/Fd.thy ===== *)
theory Fd
  imports Serv Pipe
begin

section \<open>File descriptors\<close>

text \<open>
  \<^verbatim>\<open>lib/fd.c\<close>, \<^verbatim>\<open>lib/file.c\<close>, \<^verbatim>\<open>lib/console.c\<close>, \<^verbatim>\<open>lib/pageref.c\<close> and the calls of \<^verbatim>\<open>lib/pipe.c\<close>, as one
  environment runs them. The state has
  the pages of the descriptor area, by their distance in pages from \<^verbatim>\<open>FDTABLE\<close>: descriptor \<open>i\<close> is page \<open>i\<close>, its
  data page is page \<open>32 + i\<close>. A page is one of the file server's, shared with it, or one of the environment's own. The reference
  counts are those of all environments. The file server is the other component of the state; a request is one round of it.

  System calls that need memory can fail: the \<open>n\<close>-th of them succeeds if \<open>kern_ok n\<close>. \<open>others\<close> is what the other environments
  do while this one yields. The results of \<^verbatim>\<open>sys_cgetc\<close> are in \<open>cgetc\<close>, what was given to \<^verbatim>\<open>sys_cputs\<close> is in \<open>cputs\<close>.
  \<open>None\<close> is a panic, a fault or a call that never returns.
\<close>

definition MAXFD :: nat where [simp]: "MAXFD = 32"

datatype page = Srv nat | Own nat

record world =
  srv :: serv
  area :: "int \<Rightarrow> page option"
  own_fd :: "nat \<Rightarrow> Fd"
  own_pipe :: "nat \<Rightarrow> Pipe"
  own_ref :: "nat \<Rightarrow> nat"
  next_own :: nat
  kern_ok :: "nat \<Rightarrow> bool"
  kern_calls :: nat
  cgetc :: "int list"
  cputs :: "u8 list list"

subsection \<open>Pages\<close>

fun page_refs :: "world \<Rightarrow> page \<Rightarrow> nat" where
  "page_refs w (Srv k) = fd_ref (srv w) k"
| "page_refs w (Own k) = own_ref w k"

fun set_refs :: "page \<Rightarrow> nat \<Rightarrow> world \<Rightarrow> world" where
  "set_refs (Srv k) n w = w\<lparr>srv := (srv w)\<lparr>fd_ref := (fd_ref (srv w))(k := n)\<rparr>\<rparr>"
| "set_refs (Own k) n w = w\<lparr>own_ref := (own_ref w)(k := n)\<rparr>"

definition pageref :: "world \<Rightarrow> int \<Rightarrow> nat" where
  "pageref w a = (case area w a of None \<Rightarrow> 0 | Some pg \<Rightarrow> page_refs w pg)"

definition u_page_unmap :: "int \<Rightarrow> world \<Rightarrow> world" where
  "u_page_unmap a w =
     (case area w a of
        None \<Rightarrow> w
      | Some pg \<Rightarrow> set_refs pg (page_refs w pg - 1) (w\<lparr>area := (area w)(a := None)\<rparr>))"

definition kern_call :: "world \<Rightarrow> bool \<times> world" where
  "kern_call w = (kern_ok w (kern_calls w), w\<lparr>kern_calls := Suc (kern_calls w)\<rparr>)"

definition u_page_alloc :: "int \<Rightarrow> world \<Rightarrow> int \<times> world" where
  "u_page_alloc a w =
     (case kern_call w of
        (False, w1) \<Rightarrow> (err E_NO_MEM, w1)
      | (True, w1) \<Rightarrow>
          let k = next_own w1; w2 = u_page_unmap a w1
          in (0, w2\<lparr>area := (area w2)(a := Some (Own k)), next_own := Suc k, own_ref := (own_ref w2)(k := 1),
                   own_fd := (own_fd w2)(k := zero_Fd), own_pipe := (own_pipe w2)(k := empty_Pipe)\<rparr>))"

definition u_page_map :: "int \<Rightarrow> int \<Rightarrow> world \<Rightarrow> int \<times> world" where
  "u_page_map a b w =
     (case area w a of
        None \<Rightarrow> (err E_INVAL, w)
      | Some pg \<Rightarrow>
          (case kern_call w of
             (False, w1) \<Rightarrow> (err E_NO_MEM, w1)
           | (True, w1) \<Rightarrow>
               let w2 = set_refs pg (Suc (page_refs w1 pg)) w1; w3 = u_page_unmap b w2
               in (0, w3\<lparr>area := (area w3)(b := Some pg)\<rparr>)))"

definition get_fd :: "world \<Rightarrow> int \<Rightarrow> Fd option" where
  "get_fd w a =
     (case area w a of None \<Rightarrow> None | Some (Srv k) \<Rightarrow> Some (o_fd (srv w) k) | Some (Own k) \<Rightarrow> Some (own_fd w k))"

definition set_fd :: "int \<Rightarrow> Fd \<Rightarrow> world \<Rightarrow> world option" where
  "set_fd a fd w =
     (case area w a of
        None \<Rightarrow> None
      | Some (Srv k) \<Rightarrow> Some (w\<lparr>srv := (srv w)\<lparr>o_fd := (o_fd (srv w))(k := fd)\<rparr>\<rparr>)
      | Some (Own k) \<Rightarrow> Some (w\<lparr>own_fd := (own_fd w)(k := fd)\<rparr>))"

subsection \<open>Descriptors and devices\<close>

definition fd2data :: "int \<Rightarrow> int" where
  "fd2data fd = int MAXFD + fd"

definition fd_alloc :: "world \<Rightarrow> jos_error + int" where
  "fd_alloc w =
     (case find (\<lambda>i. area w (int i) = None) [0..<MAXFD] of Some i \<Rightarrow> Inr (int i) | None \<Rightarrow> Inl E_MAX_OPEN)"

definition fd_lookup :: "world \<Rightarrow> int \<Rightarrow> jos_error + int" where
  "fd_lookup w fdnum =
     (if fdnum < 0 \<or> fdnum \<ge> int MAXFD then Inl E_INVAL
      else if area w fdnum = None then Inl E_INVAL
      else Inr fdnum)"

record Stat =
  st_name :: "u8 list"
  st_size :: u32
  st_isdir :: bool
  st_dev :: u32

record dev =
  dev_id :: u32
  dev_read :: "(int \<Rightarrow> u64 \<Rightarrow> world \<Rightarrow> ((int \<times> u8 list) \<times> world) option) option"
  dev_write :: "(int \<Rightarrow> u8 list \<Rightarrow> world \<Rightarrow> (int \<times> world) option) option"
  dev_close :: "(int \<Rightarrow> world \<Rightarrow> (int \<times> world) option) option"
  dev_stat :: "(int \<Rightarrow> Stat \<Rightarrow> world \<Rightarrow> ((int \<times> Stat) \<times> world) option) option"
  dev_trunc :: "(int \<Rightarrow> u32 \<Rightarrow> world \<Rightarrow> (int \<times> world) option) option"

definition dev_lookup :: "dev list \<Rightarrow> u32 \<Rightarrow> jos_error + dev" where
  "dev_lookup tab devid = (case find (\<lambda>d. dev_id d = devid) tab of Some d \<Rightarrow> Inr d | None \<Rightarrow> Inl E_INVAL)"

definition fd_close :: "dev list \<Rightarrow> int \<Rightarrow> bool \<Rightarrow> world \<Rightarrow> (int \<times> world) option" where
  "fd_close tab fd must_exist w =
     (case fd_lookup w fd of
        Inl e \<Rightarrow> Some (if must_exist then err e else 0, w)
      | Inr fd2 \<Rightarrow>
          do {
            f \<leftarrow> get_fd w fd;
            (r, w1) \<leftarrow>
              (case dev_lookup tab (fd_dev_id f) of
                 Inl e \<Rightarrow> Some (err e, w)
               | Inr d \<Rightarrow> (case dev_close d of None \<Rightarrow> Some (0, w) | Some cl \<Rightarrow> cl fd w));
            Some (r, u_page_unmap fd w1)
          })"

definition close :: "dev list \<Rightarrow> int \<Rightarrow> world \<Rightarrow> (int \<times> world) option" where
  "close tab fdnum w =
     (case fd_lookup w fdnum of Inl e \<Rightarrow> Some (err e, w) | Inr fd \<Rightarrow> fd_close tab fd True w)"

definition close_all :: "dev list \<Rightarrow> world \<Rightarrow> world option" where
  "close_all tab w = fold_opt (\<lambda>i w. map_option snd (close tab (int i) w)) [0..<MAXFD] w"

text \<open>\<^verbatim>\<open>dup\<close> does not check the number of the new descriptor.\<close>

definition dup :: "dev list \<Rightarrow> int \<Rightarrow> int \<Rightarrow> world \<Rightarrow> (int \<times> world) option" where
  "dup tab oldfdnum newfdnum w =
     (case fd_lookup w oldfdnum of
        Inl e \<Rightarrow> Some (err e, w)
      | Inr oldfd \<Rightarrow>
          do {
            (_, w1) \<leftarrow> close tab newfdnum w;
            let (r, w2) = (if area w1 (fd2data oldfd) = None then (0, w1)
                           else u_page_map (fd2data oldfd) (fd2data newfdnum) w1);
            let (r, w3) = (if r < 0 then (r, w2) else u_page_map oldfd newfdnum w2);
            if r < 0 then Some (r, u_page_unmap (fd2data newfdnum) (u_page_unmap newfdnum w3))
            else Some (newfdnum, w3)
          })"

definition with_dev :: "dev list \<Rightarrow> int \<Rightarrow> world \<Rightarrow> (jos_error \<Rightarrow> 'a) \<Rightarrow> (int \<Rightarrow> Fd \<Rightarrow> dev \<Rightarrow> 'a option) \<Rightarrow> 'a option" where
  "with_dev tab fdnum w fail k =
     (case fd_lookup w fdnum of
        Inl e \<Rightarrow> Some (fail e)
      | Inr fd \<Rightarrow>
          do {
            f \<leftarrow> get_fd w fd;
            (case dev_lookup tab (fd_dev_id f) of Inl e \<Rightarrow> Some (fail e) | Inr d \<Rightarrow> k fd f d)
          })"

definition read :: "dev list \<Rightarrow> int \<Rightarrow> u64 \<Rightarrow> world \<Rightarrow> ((int \<times> u8 list) \<times> world) option" where
  "read tab fdnum n w =
     with_dev tab fdnum w (\<lambda>e. ((err e, []), w)) (\<lambda>fd f d.
       if fd_omode f AND O_ACCMODE = O_WRONLY then Some ((err E_INVAL, []), w)
       else case dev_read d of None \<Rightarrow> Some ((err E_NOT_SUPP, []), w) | Some g \<Rightarrow> g fd n w)"

partial_function (option) readn_loop ::
  "(u64 \<Rightarrow> 'w \<Rightarrow> ((int \<times> u8 list) \<times> 'w) option) \<Rightarrow> u32 \<Rightarrow> u64 \<Rightarrow> u8 list \<Rightarrow> 'w \<Rightarrow> ((int \<times> u8 list) \<times> 'w) option" where
  "readn_loop g tot n buf w =
     (if scast tot < n
      then Option.bind (g (n - scast tot) w) (\<lambda>((m, bs), w1).
        if m < 0 then Some ((m, buf @ bs), w1)
        else if m = 0 then Some ((sint tot, buf), w1)
        else readn_loop g (tot + word_of_int m) n (buf @ bs) w1)
      else Some ((sint tot, buf), w))"

definition readn :: "dev list \<Rightarrow> int \<Rightarrow> u64 \<Rightarrow> world \<Rightarrow> ((int \<times> u8 list) \<times> world) option" where
  "readn tab fdnum n w = readn_loop (read tab fdnum) 0 n [] w"

definition write_fd :: "dev list \<Rightarrow> int \<Rightarrow> u8 list \<Rightarrow> world \<Rightarrow> (int \<times> world) option" where
  "write_fd tab fdnum buf w =
     with_dev tab fdnum w (\<lambda>e. (err e, w)) (\<lambda>fd f d.
       if fd_omode f AND O_ACCMODE = O_RDONLY then Some (err E_INVAL, w)
       else case dev_write d of None \<Rightarrow> Some (err E_NOT_SUPP, w) | Some g \<Rightarrow> g fd buf w)"

definition seek :: "int \<Rightarrow> u32 \<Rightarrow> world \<Rightarrow> (int \<times> world) option" where
  "seek fdnum offset w =
     (case fd_lookup w fdnum of
        Inl e \<Rightarrow> Some (err e, w)
      | Inr fd \<Rightarrow> do { f \<leftarrow> get_fd w fd; w1 \<leftarrow> set_fd fd (f\<lparr>fd_offset := offset\<rparr>) w; Some (0, w1) })"

definition ftruncate :: "dev list \<Rightarrow> int \<Rightarrow> u32 \<Rightarrow> world \<Rightarrow> (int \<times> world) option" where
  "ftruncate tab fdnum newsize w =
     with_dev tab fdnum w (\<lambda>e. (err e, w)) (\<lambda>fd f d.
       if fd_omode f AND O_ACCMODE = O_RDONLY then Some (err E_INVAL, w)
       else case dev_trunc d of None \<Rightarrow> Some (err E_NOT_SUPP, w) | Some tr \<Rightarrow> tr fd newsize w)"

definition fstat :: "dev list \<Rightarrow> int \<Rightarrow> Stat \<Rightarrow> world \<Rightarrow> ((int \<times> Stat) \<times> world) option" where
  "fstat tab fdnum stat w =
     with_dev tab fdnum w (\<lambda>e. ((err e, stat), w)) (\<lambda>fd f d.
       case dev_stat d of
         None \<Rightarrow> Some ((err E_NOT_SUPP, stat), w)
       | Some st \<Rightarrow> st fd \<lparr>st_name = [], st_size = 0, st_isdir = False, st_dev = dev_id d\<rparr> w)"

subsection \<open>Files\<close>

text \<open>
  A request to the file server and its answer, whose page is mapped at the descriptor \<open>dstva\<close>. The server gives up
  when it cannot be mapped.
\<close>

definition fsipc :: "fsreq \<Rightarrow> int option \<Rightarrow> world \<Rightarrow> (reply \<times> world) option" where
  "fsipc req dstva w =
     do {
       (ans, s1) \<leftarrow> serve_round True req (srv w);
       a \<leftarrow> ans;
       let w1 = w\<lparr>srv := s1\<rparr>;
       (case (r_page a, dstva) of
          (Some k, Some fd) \<Rightarrow>
            (case kern_call w1 of
               (False, w2) \<Rightarrow> None
             | (True, w2) \<Rightarrow>
                 let w3 = u_page_unmap fd w2 in Some (a, w3\<lparr>area := (area w3)(fd := Some (Srv k))\<rparr>))
        | _ \<Rightarrow> Some (a, w1))
     }"

definition open_path :: "dev list \<Rightarrow> u8 list \<Rightarrow> u32 \<Rightarrow> world \<Rightarrow> (int \<times> world) option" where
  "open_path tab path mode w =
     (if length path \<ge> MAXPATHLEN then Some (err E_BAD_PATH, w)
      else case fd_alloc w of
        Inl e \<Rightarrow> Some (err e, w)
      | Inr new_fd \<Rightarrow>
          do {
            (a, w1) \<leftarrow> fsipc (FSREQ_OPEN (path @ [0]) mode) (Some new_fd) w;
            if r_val a < 0 then do { (_, w2) \<leftarrow> fd_close tab new_fd False w1; Some (r_val a, w2) }
            else Some (new_fd, w1)
          })"

definition devfile_flush :: "int \<Rightarrow> world \<Rightarrow> (int \<times> world) option" where
  "devfile_flush fd w =
     do { f \<leftarrow> get_fd w fd; (a, w1) \<leftarrow> fsipc (FSREQ_FLUSH (fd_file_id f)) None w; Some (r_val a, w1) }"

definition devfile_read :: "int \<Rightarrow> u64 \<Rightarrow> world \<Rightarrow> ((int \<times> u8 list) \<times> world) option" where
  "devfile_read fd n w =
     do {
       f \<leftarrow> get_fd w fd;
       (a, w1) \<leftarrow> fsipc (FSREQ_READ (fd_file_id f) n) None w;
       Some ((r_val a, if r_val a > 0 then take (nat (r_val a)) (r_data a) else []), w1)
     }"

definition devfile_stat :: "int \<Rightarrow> Stat \<Rightarrow> world \<Rightarrow> ((int \<times> Stat) \<times> world) option" where
  "devfile_stat fd st w =
     do {
       f \<leftarrow> get_fd w fd;
       (a, w1) \<leftarrow> fsipc (FSREQ_STAT (fd_file_id f)) None w;
       (if r_val a < 0 then Some ((r_val a, st), w1)
        else case r_stat a of
          None \<Rightarrow> None
        | Some (name, sz, isdir) \<Rightarrow> Some ((0, st\<lparr>st_name := name, st_size := sz, st_isdir := isdir\<rparr>), w1))
     }"

definition devfile :: dev where
  "devfile = \<lparr>dev_id = 0x66, dev_read = Some devfile_read, dev_write = None, dev_close = Some devfile_flush,
     dev_stat = Some devfile_stat, dev_trunc = None\<rparr>"

definition stat :: "dev list \<Rightarrow> u8 list \<Rightarrow> Stat \<Rightarrow> world \<Rightarrow> ((int \<times> Stat) \<times> world) option" where
  "stat tab path st w =
     do {
       (fd, w1) \<leftarrow> open_path tab path O_RDONLY w;
       (if fd < 0 then Some ((fd, st), w1)
        else do {
          ((r, st1), w2) \<leftarrow> fstat tab fd st w1;
          (_, w3) \<leftarrow> close tab fd w2;
          Some ((r, st1), w3)
        })
     }"

subsection \<open>The console\<close>

definition user_cputchar :: "int \<Rightarrow> world \<Rightarrow> world" where
  "user_cputchar ch w = w\<lparr>cputs := cputs w @ [[word_of_int ch]]\<rparr>"

text \<open>\<^verbatim>\<open>while ((c = sys_cgetc()) == 0) sys_yield();\<close>\<close>

fun wait_char :: "int list \<Rightarrow> (int \<times> int list) option" where
  "wait_char [] = None"
| "wait_char (c # cs) = (if c = 0 then wait_char cs else Some (c, cs))"

definition devcons_read :: "int \<Rightarrow> u64 \<Rightarrow> world \<Rightarrow> ((int \<times> u8 list) \<times> world) option" where
  "devcons_read fd n w =
     (if n = 0 then Some ((0, []), w)
      else do {
        (c, cs) \<leftarrow> wait_char (cgetc w);
        let w1 = w\<lparr>cgetc := cs\<rparr>;
        Some (if c < 0 then (c, []) else if c = 4 then (0, []) else (1, [word_of_int c]), w1)
      })"

text \<open>The pieces of at most 127 bytes that \<^verbatim>\<open>devcons_write\<close> prints.\<close>

function cons_pieces :: "u8 list \<Rightarrow> u8 list list" where
  "cons_pieces bs = (if bs = [] then [] else take 127 bs # cons_pieces (drop 127 bs))"
  by auto
termination
  by (relation "measure length") auto

declare cons_pieces.simps [simp del]

definition devcons_write :: "int \<Rightarrow> u8 list \<Rightarrow> world \<Rightarrow> (int \<times> world) option" where
  "devcons_write fd buf w = Some (int (length buf), w\<lparr>cputs := cputs w @ cons_pieces buf\<rparr>)"

definition devcons_close :: "int \<Rightarrow> world \<Rightarrow> (int \<times> world) option" where
  "devcons_close fd w = Some (0, w)"

definition devcons_stat :: "int \<Rightarrow> Stat \<Rightarrow> world \<Rightarrow> ((int \<times> Stat) \<times> world) option" where
  "devcons_stat fd st w = Some ((0, st\<lparr>st_name := [0x3C, 0x63, 0x6F, 0x6E, 0x73, 0x3E]\<rparr>), w)"

definition devcons :: dev where
  "devcons = \<lparr>dev_id = 0x63, dev_read = Some devcons_read, dev_write = Some devcons_write, dev_close = Some devcons_close,
     dev_stat = Some devcons_stat, dev_trunc = None\<rparr>"

definition iscons :: "int \<Rightarrow> world \<Rightarrow> int option" where
  "iscons fdnum w =
     (case fd_lookup w fdnum of
        Inl e \<Rightarrow> Some (err e)
      | Inr fd \<Rightarrow> do { f \<leftarrow> get_fd w fd; Some (if fd_dev_id f = dev_id devcons then 1 else 0) })"

definition opencons :: "world \<Rightarrow> (int \<times> world) option" where
  "opencons w =
     (case fd_alloc w of
        Inl e \<Rightarrow> Some (err e, w)
      | Inr fd \<Rightarrow>
          let (r, w1) = u_page_alloc fd w
          in if r < 0 then Some (r, w1)
             else do {
               f \<leftarrow> get_fd w1 fd;
               w2 \<leftarrow> set_fd fd (f\<lparr>fd_dev_id := dev_id devcons, fd_omode := O_RDWR\<rparr>) w1;
               Some (fd, w2)
             })"

definition getchar :: "dev list \<Rightarrow> world \<Rightarrow> (int \<times> world) option" where
  "getchar tab w =
     do {
       ((r, bs), w1) \<leftarrow> read tab 0 1 w;
       Some (if r < 0 then r else if r < 1 then err E_EOF else int (unat (hd bs)), w1)
     }"

subsection \<open>Pipes\<close>

definition pipe_page :: "world \<Rightarrow> int \<Rightarrow> nat option" where
  "pipe_page w fd = (case area w (fd2data fd) of Some (Own k) \<Rightarrow> Some k | _ \<Rightarrow> None)"

definition pipe_closed :: "world \<Rightarrow> int \<Rightarrow> bool" where
  "pipe_closed w fd \<longleftrightarrow> pageref w fd = pageref w (fd2data fd)"

text \<open>The reader and the writer of theory \<open>Pipe\<close>, run until they return; when they wait, the other environments run.\<close>

partial_function (option) pipe_read_run :: "(world \<Rightarrow> world) \<Rightarrow> int \<Rightarrow> rproc \<Rightarrow> world \<Rightarrow> ((int \<times> u8 list) \<times> world) option" where
  "pipe_read_run others fd r w =
     (case r of
        R_ret buf \<Rightarrow> Some ((int (length buf), buf), w)
      | _ \<Rightarrow>
          Option.bind (pipe_page w fd) (\<lambda>k.
          Option.bind (reader_step (pipe_closed w fd) (own_pipe w k) r) (\<lambda>(p, r1).
          if r1 = r then pipe_read_run others fd r (others w)
          else pipe_read_run others fd r1 (w\<lparr>own_pipe := (own_pipe w)(k := p)\<rparr>))))"

definition devpipe_read :: "(world \<Rightarrow> world) \<Rightarrow> int \<Rightarrow> u64 \<Rightarrow> world \<Rightarrow> ((int \<times> u8 list) \<times> world) option" where
  "devpipe_read others fd n w = pipe_read_run others fd (R_test [] (unat n)) w"

partial_function (option) pipe_write_run :: "(world \<Rightarrow> world) \<Rightarrow> int \<Rightarrow> wproc \<Rightarrow> world \<Rightarrow> (int \<times> world) option" where
  "pipe_write_run others fd x w =
     (case x of
        W_ret i buf r \<Rightarrow> Some (int r, w)
      | _ \<Rightarrow>
          Option.bind (pipe_page w fd) (\<lambda>k.
          Option.bind (writer_step (pipe_closed w fd) (own_pipe w k) x) (\<lambda>(p, x1).
          if x1 = x then pipe_write_run others fd x (others w)
          else pipe_write_run others fd x1 (w\<lparr>own_pipe := (own_pipe w)(k := p)\<rparr>))))"

definition devpipe_write :: "(world \<Rightarrow> world) \<Rightarrow> int \<Rightarrow> u8 list \<Rightarrow> world \<Rightarrow> (int \<times> world) option" where
  "devpipe_write others fd buf w = pipe_write_run others fd (W_test 0 buf) w"

definition devpipe_stat :: "int \<Rightarrow> Stat \<Rightarrow> world \<Rightarrow> ((int \<times> Stat) \<times> world) option" where
  "devpipe_stat fd st w =
     do {
       k \<leftarrow> pipe_page w fd;
       Some ((0, \<lparr>st_name = [0x3C, 0x70, 0x69, 0x70, 0x65, 0x3E], st_size = p_wpos (own_pipe w k) - p_rpos (own_pipe w k),
              st_isdir = False, st_dev = 0x70\<rparr>), w)
     }"

definition devpipe_close :: "int \<Rightarrow> world \<Rightarrow> (int \<times> world) option" where
  "devpipe_close fd w = Some (0, u_page_unmap (fd2data fd) (u_page_unmap fd w))"

definition devpipe :: "(world \<Rightarrow> world) \<Rightarrow> dev" where
  "devpipe others = \<lparr>dev_id = 0x70, dev_read = Some (devpipe_read others), dev_write = Some (devpipe_write others),
     dev_close = Some devpipe_close, dev_stat = Some devpipe_stat, dev_trunc = None\<rparr>"

definition pipeisclosed_fd :: "int \<Rightarrow> world \<Rightarrow> int" where
  "pipeisclosed_fd fdnum w =
     (case fd_lookup w fdnum of Inl e \<Rightarrow> err e | Inr fd \<Rightarrow> if pipe_closed w fd then 1 else 0)"

text \<open>The two descriptors of a new pipe, or an error; what was mapped before the error is unmapped, in the reverse order.\<close>

definition pipe_create :: "world \<Rightarrow> ((jos_error + int \<times> int) \<times> world) option" where
  "pipe_create w =
     (case fd_alloc w of
        Inl e \<Rightarrow> Some (Inl e, w)
      | Inr fd0 \<Rightarrow>
          let (r, w1) = u_page_alloc fd0 w in
          if r < 0 then Some (Inl E_NO_MEM, w1)
          else case fd_alloc w1 of
            Inl e \<Rightarrow> Some (Inl e, u_page_unmap fd0 w1)
          | Inr fd1 \<Rightarrow>
              let (r, w2) = u_page_alloc fd1 w1 in
              if r < 0 then Some (Inl E_NO_MEM, u_page_unmap fd0 w2)
              else let (r, w3) = u_page_alloc (fd2data fd0) w2 in
              if r < 0 then Some (Inl E_NO_MEM, u_page_unmap fd0 (u_page_unmap fd1 w3))
              else let (r, w4) = u_page_map (fd2data fd0) (fd2data fd1) w3 in
              if r < 0 then Some (Inl E_NO_MEM, u_page_unmap fd0 (u_page_unmap fd1 (u_page_unmap (fd2data fd0) w4)))
              else do {
                f0 \<leftarrow> get_fd w4 fd0;
                w5 \<leftarrow> set_fd fd0 (f0\<lparr>fd_dev_id := 0x70, fd_omode := O_RDONLY\<rparr>) w4;
                f1 \<leftarrow> get_fd w5 fd1;
                w6 \<leftarrow> set_fd fd1 (f1\<lparr>fd_dev_id := 0x70, fd_omode := O_WRONLY\<rparr>) w5;
                Some (Inr (fd0, fd1), w6)
              })"

text \<open>The devices; sockets are the network server's and not modelled.\<close>

definition devtab :: "(world \<Rightarrow> world) \<Rightarrow> dev \<Rightarrow> dev list" where
  "devtab others devsock = [devfile, devsock, devpipe others, devcons]"

end
