(* ===== verification/Fd_Props.thy ===== *)
theory Fd_Props
  imports Serv_Props Fd
begin

section \<open>Reading through descriptors\<close>

text \<open>
  What \<^verbatim>\<open>readn\<close> relies on: a descriptor is a stream of bytes, and a \<^verbatim>\<open>read\<close> takes some of those that are left, none
  only if there are none or none are asked for. Open files and pipes whose writers are gone are such streams.
\<close>

locale stream =
  fixes get :: "u64 \<Rightarrow> 'w \<Rightarrow> ((int \<times> u8 list) \<times> 'w) option" and ok :: "'w \<Rightarrow> bool" and rest :: "'w \<Rightarrow> u8 list"
  assumes get_some: "ok w \<Longrightarrow> \<exists>k w'. get n w = Some ((int k, take k (rest w)), w') \<and> ok w' \<and> rest w' = drop k (rest w) \<and>
      k \<le> unat n \<and> k \<le> length (rest w) \<and> (k = 0 \<longrightarrow> n = 0 \<or> rest w = [])"
begin

lemma readn_loop_all:
  assumes "ok w" "n = of_nat m" "m < 2 ^ 31" "t \<le> m"
  shows "\<exists>w'. readn_loop get (of_nat t) n buf w =
      Some ((int (t + min (m - t) (length (rest w))), buf @ take (m - t) (rest w)), w') \<and>
    ok w' \<and> rest w' = drop (m - t) (rest w)"
  using assms
proof (induction "m - t" arbitrary: t buf w rule: less_induct)
  case less
  have t: "(scast (of_nat t :: u32) :: u64) = of_nat t" "sint (of_nat t :: u32) = int t"
    using less.prems scast_of_nat_small sint_of_nat_small by simp_all
  have lt: "(of_nat t :: u64) < n \<longleftrightarrow> t < m"
    using less.prems by (simp add: word_less_nat_alt unsigned_of_nat take_bit_nat_eq_self)
  show ?case
  proof (cases "t < m")
    case True
    have n: "n - of_nat t = of_nat (m - t)" "unat (of_nat (m - t) :: u64) = m - t"
      using less.prems True by (simp add: of_nat_diff, simp add: unsigned_of_nat take_bit_nat_eq_self del: of_nat_diff)
    obtain k w1 where k: "get (n - of_nat t) w = Some ((int k, take k (rest w)), w1)" "ok w1" "rest w1 = drop k (rest w)"
        "k \<le> m - t" "k \<le> length (rest w)" "k = 0 \<Longrightarrow> rest w = []"
      using get_some [OF less.prems(1), of "n - of_nat t"] n True
      by (metis diff_is_0_eq not_less of_nat_0 unat_eq_zero)
    show ?thesis
    proof (cases "k = 0")
      case True
      then show ?thesis
        using k \<open>t < m\<close> lt t by (subst readn_loop.simps) simp
    next
      case False
      have "\<exists>w'. readn_loop get (of_nat (t + k)) n (buf @ take k (rest w)) w1 =
          Some ((int (t + k + min (m - (t + k)) (length (rest w1))), (buf @ take k (rest w)) @ take (m - (t + k)) (rest w1)), w') \<and>
        ok w' \<and> rest w' = drop (m - (t + k)) (rest w1)"
        using less.prems k False by (intro less.hyps) simp_all
      moreover have "t + k + min (m - (t + k)) (length (rest w1)) = t + min (m - t) (length (rest w))"
        using k(4,5) True by (auto simp: k(3) min_def)
      moreover have "take k (rest w) @ take (m - (t + k)) (rest w1) = take (m - t) (rest w)"
        using k(3,4) take_add [of k "m - (t + k)" "rest w", symmetric] True by simp
      moreover have "drop (m - (t + k)) (rest w1) = drop (m - t) (rest w)"
        using k(3,4) True by simp
      ultimately show ?thesis
        using k(1) False True lt t by (subst readn_loop.simps) simp
    qed
  qed (use less.prems lt t in \<open>subst readn_loop.simps, simp\<close>)
qed

lemma readn_all:
  assumes "ok w" "unat n < 2 ^ 31"
  shows "\<exists>w'. readn_loop get 0 n [] w = Some ((int (min (unat n) (length (rest w))), take (unat n) (rest w)), w') \<and>
    ok w' \<and> rest w' = drop (unat n) (rest w)"
  using readn_loop_all [OF assms(1) _ assms(2), of n 0 "[]"] by simp

end

subsection \<open>Open files\<close>

text \<open>
  \<open>file_fd fd w\<close>: the descriptor holds an open file of the server, opened for reading, that is well formed. What is
  left of it begins at its seek position.
\<close>

definition fd_slot :: "int \<Rightarrow> world \<Rightarrow> nat" where
  "fd_slot fd w = (case area w fd of Some (Srv k) \<Rightarrow> k | _ \<Rightarrow> 0)"

definition slot_ready :: "serv \<Rightarrow> nat \<Rightarrow> nat \<Rightarrow> bool" where
  "slot_ready s k f \<longleftrightarrow> openfile_lookup s (fd_file_id (o_fd s k)) = Inr k \<and> fd_ref s k > 1 \<and> o_file s k = Some f \<and>
     file_ok (sfs s) f \<and> 0 \<le> sint (fd_offset (o_fd s k))"

definition file_fd :: "int \<Rightarrow> world \<Rightarrow> bool" where
  "file_fd fd w \<longleftrightarrow> 0 \<le> fd \<and> fd < int MAXFD \<and> area w fd = Some (Srv (fd_slot fd w)) \<and>
     (let s = srv w; k = fd_slot fd w
      in slot_ready s k (the (o_file s k)) \<and> fd_dev_id (o_fd s k) = 0x66 \<and> fd_omode (o_fd s k) AND O_ACCMODE \<noteq> O_WRONLY)"

definition file_rest :: "int \<Rightarrow> world \<Rightarrow> u8 list" where
  "file_rest fd w =
     (let s = srv w; k = fd_slot fd w
      in drop (unat (fd_offset (o_fd s k))) (contents (sfs s) (the (o_file s k))))"

lemma serve_read_ready:
  fixes n :: u64
  assumes "slot_ready s k f"
  defines "off \<equiv> unat (fd_offset (o_fd s k))"
  defines "m \<equiv> min (min (unat n) 4096) (fsize (sfs s) f - off)"
  shows "serve_read (fd_file_id (o_fd s k)) n s =
    Some (\<lparr>r_val = int m, r_page = None, r_data = take m (drop off (contents (sfs s) f)), r_stat = None\<rparr>,
      s\<lparr>o_fd := (o_fd s)(k := (o_fd s k)\<lparr>fd_offset := of_nat (off + m)\<rparr>)\<rparr>)"
proof -
  let ?c = "if n < 4096 then n else 4096"
  have a: "openfile_lookup s (fd_file_id (o_fd s k)) = Inr k" "fd_ref s k > 1" "o_file s k = Some f" "file_ok (sfs s) f"
      "off < 2 ^ 31" "fd_offset (o_fd s k) = of_nat off"
    using assms(1) sint_nonneg by (auto simp: slot_ready_def off_def)
  have c: "unat ?c = min (unat n) 4096"
    by (auto simp: word_less_nat_alt min_def)
  have r: "file_read (sfs s) f ?c (fd_offset (o_fd s k)) = Some (Inr (of_nat m), take m (drop off (contents (sfs s) f)))"
    using file_read_ok [OF a(4,5), of ?c] by (simp add: a(6) c m_def)
  have "m \<le> 4096"
    by (simp add: m_def)
  then have "sint (ucast (of_nat m :: u64) :: u32) = int m" "ucast (of_nat m :: u64) = (of_nat m :: u32)"
    by (simp_all add: unsigned_of_nat take_bit_nat_eq_self sint_of_nat_small)
  then show ?thesis
    using a r by (simp add: serve_read_def)
qed

lemma file_fd_read:
  assumes "file_fd fd w"
  defines "k \<equiv> fd_slot fd w"
  shows "read (devtab others devsock) fd n w = devfile_read fd n w"
    "get_fd w fd = Some (o_fd (srv w) k)"
  using assms by (simp_all add: file_fd_def read_def with_dev_def fd_lookup_def get_fd_def dev_lookup_def devtab_def devfile_def Let_def)

lemma file_stream:
  assumes "file_fd fd w"
  shows "\<exists>k w'. read (devtab others devsock) fd n w = Some ((int k, take k (file_rest fd w)), w') \<and> file_fd fd w' \<and>
    file_rest fd w' = drop k (file_rest fd w) \<and> k \<le> unat n \<and> k \<le> length (file_rest fd w) \<and>
    (k = 0 \<longrightarrow> n = 0 \<or> file_rest fd w = [])"
proof -
  define k where "k = fd_slot fd w"
  define s where "s = srv w"
  define f where "f = the (o_file s k)"
  define off where "off = unat (fd_offset (o_fd s k))"
  define m where "m = min (min (unat n) 4096) (fsize (sfs s) f - off)"
  define s' where "s' = s\<lparr>o_fd := (o_fd s)(k := (o_fd s k)\<lparr>fd_offset := of_nat (off + m)\<rparr>)\<rparr>"
  have r: "slot_ready s k f"
    using assms by (simp add: file_fd_def Let_def k_def s_def f_def)
  have "devfile_read fd n w = Some ((int m, take m (file_rest fd w)), w\<lparr>srv := s'\<rparr>)"
    using serve_read_ready [OF r, of n, folded off_def, folded m_def, folded s'_def] file_fd_read(2) [OF assms]
    by (simp add: devfile_read_def fsipc_def serve_round_def handle_request_def s_def [symmetric] k_def [symmetric]
        file_rest_def off_def [symmetric] f_def [symmetric])
  moreover have sl: "fd_slot fd (w\<lparr>srv := s'\<rparr>) = k"
    by (simp add: fd_slot_def k_def)
  have lim: "fsize (sfs s) f \<le> 4235264" "off < 2 ^ 31"
    using r sint_nonneg by (auto simp: slot_ready_def file_ok_def off_def)
  have off': "off + m < 2 ^ 31"
    using lim by (auto simp: m_def min_def)
  then have o': "unat (of_nat (off + m) :: u32) = off + m" "sint (of_nat (off + m) :: u32) = int (off + m)"
    using sint_of_nat_small [of "off + m"] by (simp_all add: unsigned_of_nat take_bit_nat_eq_self del: of_nat_add)
  then have "slot_ready s' k f"
    using r by (simp add: slot_ready_def s'_def openfile_lookup_def del: of_nat_add)
  then have "file_fd fd (w\<lparr>srv := s'\<rparr>)"
    using assms sl by (auto simp: file_fd_def Let_def k_def s'_def s_def f_def)
  moreover have "file_rest fd (w\<lparr>srv := s'\<rparr>) = drop m (file_rest fd w)"
    unfolding file_rest_def Let_def sl using o'(1)
    by (simp add: s'_def k_def [symmetric] s_def [symmetric] off_def [symmetric] add.commute del: of_nat_add)
  moreover have "m \<le> unat n" "m \<le> length (file_rest fd w)" "m = 0 \<longrightarrow> n = 0 \<or> file_rest fd w = []"
    using unat_eq_zero [of n]
    by (auto simp: m_def file_rest_def s_def [symmetric] k_def [symmetric] f_def [symmetric] off_def [symmetric] min_def)
  ultimately show ?thesis
    using file_fd_read(1) [OF assms] by auto
qed

interpretation file_stream: stream "read (devtab others devsock) fd" "file_fd fd" "file_rest fd" for others devsock fd
  by unfold_locales (rule file_stream)

subsection \<open>Pipes whose writers are gone\<close>

definition pipe_pos :: "Pipe \<Rightarrow> nat \<Rightarrow> nat \<Rightarrow> bool" where
  "pipe_pos p r v \<longleftrightarrow> p_rpos p = of_nat r \<and> p_wpos p = of_nat v \<and> r \<le> v \<and> v < 2 ^ 31"

definition pipe_bytes :: "Pipe \<Rightarrow> u8 list" where
  "pipe_bytes p = map (\<lambda>j. p_buf p (j mod PIPEBUFSIZ)) [unat (p_rpos p)..<unat (p_wpos p)]"

definition eof_fd :: "int \<Rightarrow> world \<Rightarrow> bool" where
  "eof_fd fd w \<longleftrightarrow> 0 \<le> fd \<and> fd < int MAXFD \<and> pipe_closed w fd \<and>
     (\<exists>k j r v. area w fd = Some (Own j) \<and> fd_dev_id (own_fd w j) = 0x70 \<and> fd_omode (own_fd w j) AND O_ACCMODE \<noteq> O_WRONLY \<and>
        pipe_page w fd = Some k \<and> pipe_pos (own_pipe w k) r v)"

definition eof_rest :: "int \<Rightarrow> world \<Rightarrow> u8 list" where
  "eof_rest fd w = pipe_bytes (own_pipe w (the (pipe_page w fd)))"

lemma pipe_bytes_pos: "pipe_pos p r v \<Longrightarrow> pipe_bytes p = map (\<lambda>j. p_buf p (j mod PIPEBUFSIZ)) [r..<v]"
  by (simp add: pipe_bytes_def pipe_pos_def unsigned_of_nat take_bit_nat_eq_self)

lemma own_pipe_same [simp]:
  "area (w\<lparr>own_pipe := f\<rparr>) = area w" "pipe_page (w\<lparr>own_pipe := f\<rparr>) fd = pipe_page w fd"
  "pipe_closed (w\<lparr>own_pipe := f\<rparr>) fd = pipe_closed w fd"
proof -
  have "page_refs (w\<lparr>own_pipe := f\<rparr>) pg = page_refs w pg" for pg
    by (cases pg) simp_all
  then show "area (w\<lparr>own_pipe := f\<rparr>) = area w" "pipe_page (w\<lparr>own_pipe := f\<rparr>) fd = pipe_page w fd"
    "pipe_closed (w\<lparr>own_pipe := f\<rparr>) fd = pipe_closed w fd"
    by (simp_all add: pipe_page_def pipe_closed_def pageref_def cong: option.case_cong)
qed

lemma pipe_read_run_eof:
  assumes "pipe_page w fd = Some k" "pipe_closed w fd" "pipe_pos (own_pipe w k) r v"
  shows "\<exists>p. pipe_read_run others fd (R_test buf n) w =
      (let bs = take (n - length buf) (pipe_bytes (own_pipe w k))
       in Some ((int (length buf + length bs), buf @ bs), w\<lparr>own_pipe := (own_pipe w)(k := p)\<rparr>)) \<and>
    pipe_pos p (r + min (n - length buf) (v - r)) v \<and> p_buf p = p_buf (own_pipe w k)"
  using assms
proof (induction "v - r" arbitrary: r buf w)
  case 0
  let ?p = "own_pipe w k"
  have e: "pipe_empty ?p" "pipe_bytes ?p = []" "r = v"
    using 0 pipe_bytes_pos [of ?p r v] by (auto simp: pipe_pos_def pipe_empty_def)
  have "pipe_read_run others fd (R_test buf n) w = pipe_read_run others fd (R_ret buf) w"
    using 0 e by (subst pipe_read_run.simps) simp
  also have "\<dots> = Some ((int (length buf), buf), w)"
    by (subst pipe_read_run.simps) simp
  finally show ?case
    using 0 e by (intro exI [of _ ?p]) simp
next
  case (Suc d)
  let ?p = "own_pipe w k" and ?q = "(own_pipe w k)\<lparr>p_rpos := p_rpos (own_pipe w k) + 1\<rparr>"
  let ?w = "w\<lparr>own_pipe := (own_pipe w)(k := ?q)\<rparr>"
  have rv: "r < v" "v < 2 ^ 31" "p_rpos ?p = of_nat r" "p_wpos ?p = of_nat v"
    using Suc by (auto simp: pipe_pos_def)
  have ne: "\<not> pipe_empty ?p"
    using pipe_empty_of_nat [of r v ?p] rv by simp
  let ?b = "p_buf ?p (r mod PIPEBUFSIZ)"
  have bs: "pipe_bytes ?p = ?b # pipe_bytes ?q" "pipe_pos ?q (Suc r) v"
    using rv pipe_bytes_pos [OF Suc.prems(3)] pipe_bytes_pos [of ?q "Suc r" v]
    by (simp_all add: pipe_pos_def upt_conv_Cons add.commute)
  show ?case
  proof (cases "length buf < n")
    case True
    have "pipe_read_run others fd (R_test buf n) w = pipe_read_run others fd (R_take buf n) w"
      using Suc.prems(1) True ne by (subst pipe_read_run.simps) simp
    also have "\<dots> = pipe_read_run others fd (R_incr (buf @ [?b]) n) w"
      using Suc.prems(1) rv buf_index_of_nat [of r] by (subst pipe_read_run.simps) simp
    also have "\<dots> = pipe_read_run others fd (R_test (buf @ [?b]) n) ?w"
      using Suc.prems(1) by (subst pipe_read_run.simps) simp
    finally have run: "pipe_read_run others fd (R_test buf n) w = pipe_read_run others fd (R_test (buf @ [?b]) n) ?w" .
    have "d = v - Suc r"
      using Suc.hyps(2) by simp
    from Suc.hyps(1) [OF this, of ?w "buf @ [?b]"] Suc.prems bs(2) obtain p where
        "pipe_read_run others fd (R_test (buf @ [?b]) n) ?w =
           (let bs = take (n - Suc (length buf)) (pipe_bytes ?q)
            in Some ((int (Suc (length buf) + length bs), (buf @ [?b]) @ bs), w\<lparr>own_pipe := (own_pipe w)(k := p)\<rparr>))"
        "p_buf p = p_buf ?p" and pos: "pipe_pos p (Suc r + min (n - Suc (length buf)) (v - Suc r)) v"
      by auto
    moreover have "Suc r + min (n - Suc (length buf)) (v - Suc r) = r + min (n - length buf) (v - r)"
      using True rv(1) by (simp add: min_def) linarith
    with pos have "pipe_pos p (r + min (n - length buf) (v - r)) v"
      by (simp only:)
    moreover obtain m where "n - length buf = Suc m" "n - Suc (length buf) = m"
      using True by (metis Suc_diff_Suc)
    ultimately show ?thesis
      unfolding run by (intro exI [of _ p]) (simp add: bs(1) Let_def)
  next
    case False
    have "pipe_read_run others fd (R_test buf n) w = pipe_read_run others fd (R_ret buf) w"
      using Suc.prems(1) False by (subst pipe_read_run.simps) simp
    also have "\<dots> = Some ((int (length buf), buf), w)"
      by (subst pipe_read_run.simps) simp
    finally show ?thesis
      using Suc.prems False by (intro exI [of _ ?p]) simp
  qed
qed

lemma eof_stream:
  assumes "eof_fd fd w" "dev_id devsock \<noteq> 0x70"
  shows "\<exists>k w'. read (devtab others devsock) fd n w = Some ((int k, take k (eof_rest fd w)), w') \<and> eof_fd fd w' \<and>
    eof_rest fd w' = drop k (eof_rest fd w) \<and> k \<le> unat n \<and> k \<le> length (eof_rest fd w) \<and>
    (k = 0 \<longrightarrow> n = 0 \<or> eof_rest fd w = [])"
proof -
  obtain k j r v where a: "0 \<le> fd" "fd < int MAXFD" "pipe_closed w fd" "area w fd = Some (Own j)"
      "fd_dev_id (own_fd w j) = 0x70" "fd_omode (own_fd w j) AND O_ACCMODE \<noteq> O_WRONLY" "pipe_page w fd = Some k"
      "pipe_pos (own_pipe w k) r v"
    using assms(1) by (auto simp: eof_fd_def)
  let ?bs = "pipe_bytes (own_pipe w k)" and ?m = "min (unat n) (v - r)"
  have len: "length ?bs = v - r" and rest: "eof_rest fd w = ?bs"
    using pipe_bytes_pos [OF a(8)] a(7) by (simp_all add: eof_rest_def)
  obtain p where p: "pipe_read_run others fd (R_test [] (unat n)) w =
        Some ((int (length (take (unat n) ?bs)), take (unat n) ?bs), w\<lparr>own_pipe := (own_pipe w)(k := p)\<rparr>)"
      "pipe_pos p (r + ?m) v" "p_buf p = p_buf (own_pipe w k)"
    using pipe_read_run_eof [OF a(7,3,8), of others "[]" "unat n"] by (auto simp: Let_def)
  have tk: "take (unat n) ?bs = take ?m ?bs" "length (take ?m ?bs) = ?m"
    by (simp_all add: len min_def)
  have "read (devtab others devsock) fd n w = devpipe_read others fd n w"
    using a assms(2) by (simp add: read_def with_dev_def fd_lookup_def get_fd_def dev_lookup_def devtab_def devfile_def devpipe_def)
  moreover have "eof_fd fd (w\<lparr>own_pipe := (own_pipe w)(k := p)\<rparr>)"
    using a p(2) by (auto simp: eof_fd_def)
  moreover have "eof_rest fd (w\<lparr>own_pipe := (own_pipe w)(k := p)\<rparr>) = drop ?m ?bs"
    using a(7) pipe_bytes_pos [OF p(2)] pipe_bytes_pos [OF a(8)] p(3) by (simp add: eof_rest_def drop_map)
  ultimately show ?thesis
    using p(1) tk len rest unat_eq_zero [of n]
    by (intro exI [of _ ?m] exI [of _ "w\<lparr>own_pipe := (own_pipe w)(k := p)\<rparr>"]) (auto simp: devpipe_read_def)
qed

interpretation eof_stream: stream "read (devtab others (devsock\<lparr>dev_id := 0x73\<rparr>)) fd" "eof_fd fd" "eof_rest fd" for others devsock fd
  by unfold_locales (rule eof_stream, simp_all)

subsection \<open>All bytes are read\<close>

definition reads_all ::
  "(u64 \<Rightarrow> 'w \<Rightarrow> ((int \<times> u8 list) \<times> 'w) option) \<Rightarrow> ('w \<Rightarrow> bool) \<Rightarrow> ('w \<Rightarrow> u8 list) \<Rightarrow> u64 \<Rightarrow> 'w \<Rightarrow> bool" where
  "reads_all g ok rest n w \<longleftrightarrow>
     (\<exists>w'. g n w = Some ((int (min (unat n) (length (rest w))), take (unat n) (rest w)), w') \<and> ok w' \<and>
        rest w' = drop (unat n) (rest w))"

text \<open>
  C15. Reading \<open>n\<close> bytes of an open file with \<^verbatim>\<open>readn\<close>, through the descriptor, the requests to the file server and its
  block map, gives the bytes of the file from the seek position on, as many as there are up to \<open>n\<close>, and the next read
  goes on behind them. The same holds for a pipe whose writers are gone.
\<close>

theorem readn_complete:
  fixes others :: "world \<Rightarrow> world" and devsock :: dev and fd :: int
  assumes "unat n < 2 ^ 31"
  defines "rdn \<equiv> readn (devtab others (devsock\<lparr>dev_id := 0x73\<rparr>)) fd"
  shows "(file_fd fd w \<longrightarrow> reads_all rdn (file_fd fd) (file_rest fd) n w) \<and>
    (eof_fd fd w \<longrightarrow> reads_all rdn (eof_fd fd) (eof_rest fd) n w)"
  using file_stream.readn_all [of fd w n others "devsock\<lparr>dev_id := 0x73\<rparr>"] eof_stream.readn_all [of fd w n others devsock] assms
  by (simp add: reads_all_def readn_def)

definition example_world :: world where
  "example_world =
     \<lparr>srv = example_serv\<lparr>o_fileid := (\<lambda>_. 0)(0 := 1024), o_file := (\<lambda>_. None)(0 := Some 12288), fd_ref := (\<lambda>_. 0)(0 := 2),
        o_fd := (\<lambda>_. zero_Fd)(0 := \<lparr>fd_dev_id = 0x66, fd_offset = 1, fd_omode = 0, fd_file_id = 1024\<rparr>)\<rparr>,
      area = (\<lambda>_. None)(3 := Some (Srv 0)), own_fd = \<lambda>_. zero_Fd, own_pipe = \<lambda>_. empty_Pipe, own_ref = \<lambda>_. 0, next_own = 0,
      kern_ok = \<lambda>_. True, kern_calls = 0, cgetc = [], cputs = []\<rparr>"

theorem readn_complete_witness:
  "\<exists>w'. readn (devtab id (devcons\<lparr>dev_id := 0x73\<rparr>)) 3 100 example_world = Some ((4, [0x65, 0x6C, 0x6C, 0x6F]), w')"
proof -
  have s: "fd_slot 3 example_world = 0"
    by (simp add: fd_slot_def example_world_def)
  have ok: "file_fd 3 example_world"
    using example_fs_ok by (simp add: file_fd_def s slot_ready_def openfile_lookup_def)
      (simp add: example_world_def example_serv_def)
  have "file_rest 3 example_world = drop 1 (contents example_fs 12288)"
    unfolding file_rest_def Let_def s by (simp add: example_world_def example_serv_def)
  then have "file_rest 3 example_world = [0x65, 0x6C, 0x6C, 0x6F]"
    by (simp add: example_fs_contents)
  with ok show ?thesis
    using readn_complete [of 100 3 example_world id devcons] by (auto simp: reads_all_def)
qed

end
