(* ===== verification/Malloc.thy ===== *)
theory Malloc
  imports JOS_Prelude
begin

section \<open>The user heap\<close>

text \<open>
  \<^verbatim>\<open>lib/malloc.c\<close>. The state has the pointer \<^verbatim>\<open>mptr\<close>, the pages of the heap by their number (mapped or not, and if so whether
  the entry has \<^verbatim>\<open>PTE_CONTINUED\<close>) and the reference count in the last word of each page. Addresses are natural numbers:
  those of the heap are far from the end of the address space. The \<open>k\<close>-th \<^verbatim>\<open>sys_page_alloc\<close> succeeds if \<open>al_ok k\<close>.
  \<open>None\<close> is a failed assertion, a fault, or a search that does not end.
\<close>

definition MAXMALLOC :: nat where [simp]: "MAXMALLOC = 1024 * 1024"
definition mbegin :: nat where [simp]: "mbegin = 0x08000000"
definition mend :: nat where [simp]: "mend = 0x10000000"

abbreviation PG :: nat where "PG \<equiv> 4096"

record heap =
  mptr :: nat
  pg :: "nat \<Rightarrow> bool option"
  pref :: "nat \<Rightarrow> u32"
  al_ok :: "nat \<Rightarrow> bool"
  al_n :: nat

text \<open>\<^verbatim>\<open>isfree\<close> is called with the start of a page.\<close>

definition isfree :: "heap \<Rightarrow> nat \<Rightarrow> nat \<Rightarrow> bool" where
  "isfree h v n \<longleftrightarrow> list_all (\<lambda>i. v + i * PG < mend \<and> pg h (v div PG + i) = None) [0..<(n + PG - 1) div PG]"

function free_pages_loop :: "nat \<Rightarrow> heap \<Rightarrow> (nat \<times> heap) option" where
  "free_pages_loop c h =
     (if pg h c = Some True
      then if mbegin div PG \<le> c + 1 \<and> c + 1 < mend div PG
           then free_pages_loop (c + 1) (h\<lparr>pg := (pg h)(c := None)\<rparr>)
           else None
      else Some (c, h))"
  by auto
termination
  by (relation "measure (\<lambda>(c, h). mend div PG - c)") auto

declare free_pages_loop.simps [simp del]

definition free :: "nat \<Rightarrow> heap \<Rightarrow> heap option" where
  "free v h =
     (if v = 0 then Some h
      else if \<not> (mbegin \<le> v \<and> v < mend) then None
      else do {
        (c, h1) \<leftarrow> free_pages_loop (v div PG) h;
        (if pg h1 c = None then None
         else let h2 = h1\<lparr>pref := (pref h1)(c := pref h1 c - 1)\<rparr>
              in Some (if pref h2 c = 0 then h2\<lparr>pg := (pg h2)(c := None)\<rparr> else h2))
      })"

partial_function (option) find_space :: "heap \<Rightarrow> nat \<Rightarrow> nat \<Rightarrow> nat \<Rightarrow> (nat \<times> bool) option" where
  "find_space h p n nwrap =
     (if isfree h p (n + 4) then Some (p, True)
      else if p + PG = mend
           then if nwrap + 1 = 2 then Some (mbegin, False) else find_space h mbegin n (nwrap + 1)
           else find_space h (p + PG) n nwrap)"

text \<open>
  The allocation of the pages from number \<open>q\<close> on: the next is page \<open>i\<close> of \<open>k\<close>; all but the last are continued. If one
  cannot be had, it and those before it are unmapped.
\<close>

function alloc_pages :: "nat \<Rightarrow> nat \<Rightarrow> nat \<Rightarrow> heap \<Rightarrow> bool \<times> heap" where
  "alloc_pages q i k h =
     (if i < k
      then let h1 = h\<lparr>al_n := Suc (al_n h)\<rparr>
           in if al_ok h (al_n h) then alloc_pages q (Suc i) k (h1\<lparr>pg := (pg h1)(q + i := Some (i + 1 < k))\<rparr>)
              else (False, h1\<lparr>pg := (\<lambda>c. if q \<le> c \<and> c \<le> q + i then None else pg h1 c)\<rparr>)
      else (True, h))"
  by auto
termination
  by (relation "measure (\<lambda>(q, i, k, h). k - i)") (auto simp: Let_def)

declare alloc_pages.simps [simp del]

definition malloc_new :: "nat \<Rightarrow> heap \<Rightarrow> (nat \<times> heap) option" where
  "malloc_new n h =
     do {
       (p, found) \<leftarrow> find_space h (mptr h) n 0;
       let h1 = h\<lparr>mptr := p\<rparr>;
       (if \<not> found then Some (0, h1)
        else let k = (n + 4 + PG - 1) div PG; (ok, h2) = alloc_pages (p div PG) 0 k h1
             in if \<not> ok then Some (0, h2)
                else Some (p, h2\<lparr>pref := (pref h2)(p div PG + k - 1 := 2), mptr := p + n\<rparr>))
     }"

definition malloc :: "u64 \<Rightarrow> heap \<Rightarrow> (nat \<times> heap) option" where
  "malloc sz h =
     (let h = (if mptr h = 0 then h\<lparr>mptr := mbegin\<rparr> else h); n = unat (ROUNDUP sz 4)
      in if n \<ge> MAXMALLOC then Some (0, h)
         else if mptr h mod PG \<noteq> 0
         then let q = mptr h div PG
              in if q = (mptr h + n + 3) div PG
                 then if pg h q = None then None
                      else Some (mptr h, h\<lparr>pref := (pref h)(q := pref h q + 1), mptr := mptr h + n\<rparr>)
                 else do { h1 \<leftarrow> free (mptr h) h; malloc_new n (h1\<lparr>mptr := (q + 1) * PG\<rparr>) }
         else malloc_new n h)"

subsection \<open>Invariant\<close>

text \<open>
  \<open>blk\<close> has the blocks in use: the size by the address. The last page of a block has its reference count; the pages before
  that, if any, are marked as continued and belong to this block only.
\<close>

type_synonym blocks = "nat \<rightharpoonup> nat"

definition last_pg :: "nat \<Rightarrow> nat \<Rightarrow> nat" where
  "last_pg v n = (v + n + 3) div PG"

definition block_ok :: "heap \<Rightarrow> nat \<Rightarrow> nat \<Rightarrow> bool" where
  "block_ok h v n \<longleftrightarrow> 0 < n \<and> 4 dvd n \<and> mbegin \<le> v \<and> last_pg v n < mend div PG \<and> (v div PG < last_pg v n \<longrightarrow> v mod PG = 0) \<and>
     (\<forall>q. v div PG \<le> q \<longrightarrow> q < last_pg v n \<longrightarrow> pg h q = Some True) \<and> pg h (last_pg v n) = Some False"

definition in_page :: "blocks \<Rightarrow> nat \<Rightarrow> nat set" where
  "in_page b q = {v. \<exists>n. b v = Some n \<and> last_pg v n = q}"

definition is_cur :: "heap \<Rightarrow> nat \<Rightarrow> bool" where
  "is_cur h q \<longleftrightarrow> mptr h mod PG \<noteq> 0 \<and> mptr h div PG = q"

definition heap_inv :: "heap \<Rightarrow> blocks \<Rightarrow> bool" where
  "heap_inv h b \<longleftrightarrow> finite (dom b) \<and> (mptr h = 0 \<or> mbegin \<le> mptr h \<and> mptr h \<le> mend) \<and>
     (\<forall>v n. b v = Some n \<longrightarrow> block_ok h v n) \<and>
     (\<forall>v n v' n'. b v = Some n \<longrightarrow> b v' = Some n' \<longrightarrow> v < v' \<longrightarrow> v + n \<le> v') \<and>
     (\<forall>q. pg h q = Some False \<longrightarrow> card (in_page b q) + of_bool (is_cur h q) \<le> unat (pref h q)) \<and>
     (\<forall>q. is_cur h q \<longrightarrow> pg h q = Some False \<and> 4 dvd mptr h \<and> unat (pref h q) \<le> mptr h mod PG + 2 \<and>
        (\<forall>v n. b v = Some n \<longrightarrow> last_pg v n = q \<longrightarrow> v + n \<le> mptr h))"

lemma heap_invD:
  assumes "heap_inv h b"
  shows "finite (dom b)" "mptr h = 0 \<or> mbegin \<le> mptr h \<and> mptr h \<le> mend"
    "\<And>v n. b v = Some n \<Longrightarrow> block_ok h v n"
    "\<And>v n v' n'. b v = Some n \<Longrightarrow> b v' = Some n' \<Longrightarrow> v < v' \<Longrightarrow> v + n \<le> v'"
    "\<And>q. pg h q = Some False \<Longrightarrow> card (in_page b q) + of_bool (is_cur h q) \<le> unat (pref h q)"
    "\<And>q. is_cur h q \<Longrightarrow> pg h q = Some False \<and> 4 dvd mptr h \<and> unat (pref h q) \<le> mptr h mod PG + 2"
    "\<And>q v n. is_cur h q \<Longrightarrow> b v = Some n \<Longrightarrow> last_pg v n = q \<Longrightarrow> v + n \<le> mptr h"
  using assms by (auto simp: heap_inv_def)

lemma last_pg_bounds: "last_pg v n * PG \<le> v + n + 3" "v + n + 3 < Suc (last_pg v n) * PG" "v div PG \<le> last_pg v n"
  unfolding last_pg_def by (simp_all add: div_le_mono)

text \<open>A block covers its continued pages, so no other block has one of them.\<close>

lemma block_covers:
  assumes "block_ok h v n" "v div PG \<le> q" "q < last_pg v n"
  shows "v \<le> q * PG" "Suc q * PG \<le> v + n"
proof -
  have v: "v mod PG = 0" "4 dvd n"
    using assms by (auto simp: block_ok_def)
  then have "v = v div PG * PG"
    by (simp add: mod_eq_0_iff_dvd)
  then show "v \<le> q * PG"
    using assms(2) mult_le_mono1 by metis
  have "Suc q * PG \<le> last_pg v n * PG"
    using assms(3) by (intro mult_le_mono1) simp
  then have "Suc q * PG \<le> v + n + 3"
    using last_pg_bounds(1) [of v n] by linarith
  moreover have "4 dvd v"
    using v(1) by (intro dvd_trans [of 4 PG v]) (simp_all add: mod_eq_0_iff_dvd)
  with v(2) obtain k where "v + n = 4 * k"
    using dvd_add by blast
  moreover have "a \<le> 4 * k" if "a \<le> 4 * k + 3" "4 dvd a" for a :: nat
    using that by auto
  ultimately show "Suc q * PG \<le> v + n"
    by auto
qed

lemma cont_page_unique:
  assumes inv: "heap_inv h b" and v: "b v = Some n" "v div PG \<le> q" "q < last_pg v n"
    and v': "b v' = Some n'" "v' div PG \<le> q" "q \<le> last_pg v' n'"
  shows "v' = v"
proof -
  note ok = heap_invD(3) [OF inv v(1)] heap_invD(3) [OF inv v'(1)]
  have "pg h q = Some True"
    using ok(1) v by (simp add: block_ok_def)
  then have q: "q < last_pg v' n'"
    using ok(2) v' by (cases "q = last_pg v' n'") (auto simp: block_ok_def)
  show ?thesis
    using block_covers [OF ok(1) v(2,3)] block_covers [OF ok(2) v'(2) q] heap_invD(4) [OF inv v(1) v'(1)]
      heap_invD(4) [OF inv v'(1) v(1)] by (cases v v' rule: linorder_cases) auto
qed

lemma free_pages_loop_run:
  assumes "c \<le> l" "\<And>q. c \<le> q \<Longrightarrow> q < l \<Longrightarrow> pg h q = Some True" "pg h l \<noteq> Some True" "mbegin div PG \<le> c" "l < mend div PG"
  shows "free_pages_loop c h = Some (l, h\<lparr>pg := \<lambda>q. if c \<le> q \<and> q < l then None else pg h q\<rparr>)"
  using assms
proof (induction "l - c" arbitrary: c h)
  case 0
  then have "l = c" "(\<lambda>q. if c \<le> q \<and> q < l then None else pg h q) = pg h"
    by (auto simp: fun_eq_iff)
  with 0 show ?case
    by (subst free_pages_loop.simps) simp
next
  case (Suc d)
  let ?h = "h\<lparr>pg := (pg h)(c := None)\<rparr>"
  have c: "c < l" "pg h c = Some True" "d = l - (c + 1)"
    using Suc by auto
  have "free_pages_loop (c + 1) ?h = Some (l, ?h\<lparr>pg := \<lambda>q. if c + 1 \<le> q \<and> q < l then None else pg ?h q\<rparr>)"
    by (rule Suc.hyps(1) [OF c(3)]) (use Suc.prems c in auto)
  moreover have "(\<lambda>q. if c + 1 \<le> q \<and> q < l then None else pg ?h q) = (\<lambda>q. if c \<le> q \<and> q < l then None else pg h q)"
    using c(1) by (auto simp: fun_eq_iff)
  ultimately show ?case
    using c Suc.prems by (subst free_pages_loop.simps) simp
qed

lemma in_page_finite: "heap_inv h b \<Longrightarrow> finite (in_page b q)"
  by (rule finite_subset [OF _ heap_invD(1)]) (auto simp: in_page_def)

lemma in_page_remove: "in_page (b(v := None)) q = in_page b q - {v}"
  by (auto simp: in_page_def)

text \<open>Giving back one reference to the page \<open>l\<close>.\<close>

definition drop_ref :: "nat \<Rightarrow> heap \<Rightarrow> heap" where
  "drop_ref l h =
     (let h2 = h\<lparr>pref := (pref h)(l := pref h l - 1)\<rparr> in if pref h2 l = 0 then h2\<lparr>pg := (pg h2)(l := None)\<rparr> else h2)"

lemma drop_ref_fields:
  "mptr (drop_ref l h) = mptr h" "pref (drop_ref l h) q = (if q = l then pref h l - 1 else pref h q)"
  "pg (drop_ref l h) q = (if q = l \<and> pref h l = 1 then None else pg h q)"
  by (simp_all add: drop_ref_def Let_def)

lemma free_block_run:
  assumes inv: "heap_inv h b" and v: "b v = Some n"
  shows "free v h = Some (drop_ref (last_pg v n) (h\<lparr>pg := \<lambda>q. if v div PG \<le> q \<and> q < last_pg v n then None else pg h q\<rparr>))"
proof -
  have ok: "block_ok h v n"
    using heap_invD(3) [OF inv v] .
  then have "v div PG < mend div PG" "mbegin div PG \<le> v div PG"
    using last_pg_bounds(3) [of v n] by (auto simp: block_ok_def div_le_mono)
  then have r: "mbegin \<le> v" "v < mend"
    using ok by (simp_all add: block_ok_def less_mult_imp_div_less)
  have "free_pages_loop (v div PG) h = Some (last_pg v n, h\<lparr>pg := \<lambda>q. if v div PG \<le> q \<and> q < last_pg v n then None else pg h q\<rparr>)"
    using ok last_pg_bounds(3) [of v n] \<open>mbegin div PG \<le> v div PG\<close>
    by (intro free_pages_loop_run) (auto simp: block_ok_def)
  then show ?thesis
    using r ok by (simp add: free_def drop_ref_def Let_def block_ok_def)
qed

lemma free_block_inv:
  assumes inv: "heap_inv h b" and v: "b v = Some n" and h': "free v h = Some h'"
  shows "heap_inv h' (b(v := None))"
proof -
  let ?l = "last_pg v n" and ?b = "b(v := None)"
  let ?h = "h\<lparr>pg := \<lambda>q. if v div PG \<le> q \<and> q < ?l then None else pg h q\<rparr>"
  have h'': "h' = drop_ref ?l ?h"
    using free_block_run [OF inv v] h' by simp
  have f: "pref h' q = (if q = ?l then pref h ?l - 1 else pref h q)" "mptr h' = mptr h"
      "pg h' q = (if q = ?l \<and> pref h ?l = 1 \<or> v div PG \<le> q \<and> q < ?l then None else pg h q)" for q
    by (auto simp: h'' drop_ref_fields)
  have l: "pg h ?l = Some False"
    using heap_invD(3) [OF inv v] by (simp add: block_ok_def)
  have mem: "v \<in> in_page b q \<longleftrightarrow> q = ?l" for q
    using v by (auto simp: in_page_def)
  have card: "card (in_page ?b q) = card (in_page b q) - of_bool (q = ?l)" for q
    unfolding in_page_remove by (simp add: card_Diff_singleton_if mem)
  have ref: "card (in_page b ?l) + of_bool (is_cur h ?l) \<le> unat (pref h ?l)"
    using heap_invD(5) [OF inv l] .
  have pos: "0 < card (in_page b ?l)"
    using mem [of ?l] in_page_finite [OF inv] by (auto simp: card_gt_0_iff)
  then have m1: "unat (pref h ?l - 1) = unat (pref h ?l) - 1"
    using ref by (intro unat_minus_one) auto
  have cur: "is_cur h' q = is_cur h q" for q
    by (simp add: is_cur_def f)
  have one: "in_page b ?l = {v} \<and> \<not> is_cur h ?l" if "pref h ?l = 1"
  proof -
    have "card (in_page b ?l) = 1" "\<not> is_cur h ?l"
      using ref pos that by (auto split: if_splits)
    then show ?thesis
      using mem [of ?l] by (auto simp: card_1_singleton_iff)
  qed
  have other: "pg h' q = pg h q" if "b v' = Some n'" "v' \<noteq> v" "v' div PG \<le> q" "q \<le> last_pg v' n'" for v' n' q
  proof -
    have "\<not> (v div PG \<le> q \<and> q < ?l)"
      using cont_page_unique [OF inv v] that by blast
    moreover have "q = ?l \<Longrightarrow> pref h ?l = 1 \<Longrightarrow> q = last_pg v' n' \<Longrightarrow> False"
      using one that by (auto simp: in_page_def)
    moreover have "q = ?l \<Longrightarrow> q = last_pg v' n'"
      using heap_invD(3) [OF inv that(1)] that(3,4) l by (cases "q = last_pg v' n'") (auto simp: block_ok_def)
    ultimately show ?thesis
      by (auto simp: f)
  qed
  have "block_ok h' v' n'" if "?b v' = Some n'" for v' n'
  proof -
    have bv: "b v' = Some n'" "v' \<noteq> v"
      using that by (auto split: if_splits)
    then show ?thesis
      using heap_invD(3) [OF inv bv(1)] other [OF bv] last_pg_bounds(3) [of v' n'] by (auto simp: block_ok_def)
  qed
  moreover have "card (in_page ?b q) + of_bool (is_cur h' q) \<le> unat (pref h' q)" if "pg h' q = Some False" for q
  proof -
    have "pg h q = Some False"
      using that by (auto simp: f split: if_splits)
    then show ?thesis
      using heap_invD(5) [OF inv, of q] ref m1 pos by (cases "q = ?l") (simp_all add: card cur f)
  qed
  moreover have "pg h' q = Some False \<and> 4 dvd mptr h' \<and> unat (pref h' q) \<le> mptr h' mod PG + 2" if "is_cur h' q" for q
  proof -
    have c: "is_cur h q" "pg h q = Some False"
      using that heap_invD(6) [OF inv] by (auto simp: cur)
    have "\<not> (v div PG \<le> q \<and> q < ?l)"
      using heap_invD(3) [OF inv v] c(2) by (auto simp: block_ok_def)
    then show ?thesis
      using heap_invD(6) [OF inv c(1)] one m1 c by (auto simp: f)
  qed
  ultimately show ?thesis
    using heap_invD(1,2,4,7) [OF inv]
    by (auto simp: heap_inv_def cur f split: if_splits)
qed

lemma free_cur_inv:
  assumes inv: "heap_inv h b" and cur: "is_cur h q"
  shows "free (mptr h) h = Some (drop_ref q h) \<and> heap_inv ((drop_ref q h)\<lparr>mptr := (q + 1) * PG\<rparr>) b"
proof
  have q: "pg h q = Some False" "mptr h div PG = q" "mptr h mod PG \<noteq> 0"
    using heap_invD(6) [OF inv cur] cur by (auto simp: is_cur_def)
  then have "mptr h \<noteq> mend" "mptr h \<noteq> 0"
    by auto
  then have m: "mbegin \<le> mptr h" "mptr h < mend"
    using heap_invD(2) [OF inv] by auto
  have qe: "q < mend div PG" "mbegin div PG \<le> q"
    using m q(2) by (auto simp: less_mult_imp_div_less div_le_mono)
  show "free (mptr h) h = Some (drop_ref q h)"
    using m q free_pages_loop.simps [of q h] by (simp add: free_def drop_ref_def Let_def)
  let ?h = "(drop_ref q h)\<lparr>mptr := (q + 1) * PG\<rparr>"
  have f: "pref ?h c = (if c = q then pref h q - 1 else pref h c)" "\<not> is_cur ?h c"
      "pg ?h c = (if c = q \<and> pref h q = 1 then None else pg h c)" for c
    by (auto simp: drop_ref_fields is_cur_def)
  have ref: "card (in_page b q) + 1 \<le> unat (pref h q)"
    using heap_invD(5) [OF inv q(1)] cur by simp
  then have m1: "unat (pref h q - 1) = unat (pref h q) - 1"
    by (intro unat_minus_one) auto
  have none: "in_page b q = {}" if "pref h q = 1"
    using ref that in_page_finite [OF inv, of q] by simp
  have "block_ok ?h v n" if "b v = Some n" for v n
  proof -
    have "pg ?h c = pg h c" if "v div PG \<le> c" "c \<le> last_pg v n" for c
      using none heap_invD(3) [OF inv \<open>b v = Some n\<close>] that q(1) \<open>b v = Some n\<close>
      by (cases "c = last_pg v n") (auto simp: drop_ref_fields in_page_def block_ok_def)
    then show ?thesis
      using heap_invD(3) [OF inv that] last_pg_bounds(3) [of v n] by (auto simp: block_ok_def)
  qed
  moreover have "card (in_page b c) + of_bool (is_cur ?h c) \<le> unat (pref ?h c)" if "pg ?h c = Some False" for c
    using heap_invD(5) [OF inv, of c] that ref m1 by (cases "c = q") (auto simp: drop_ref_fields is_cur_def split: if_splits)
  moreover have "mbegin \<le> mptr ?h" "mptr ?h \<le> mend"
    using qe by simp_all
  ultimately show "heap_inv ?h b"
    using heap_invD(1,4) [OF inv] f(2) by (auto simp: heap_inv_def)
qed

lemma isfreeD:
  assumes "isfree h v m" "v mod PG = 0" "v div PG \<le> q" "q * PG < v + m"
  shows "q * PG < mend \<and> pg h q = None"
proof -
  obtain a where a: "v = PG * a"
    using assms(2) by (auto simp: mod_eq_0_iff_dvd)
  then obtain i where i: "q = a + i"
    using assms(3) le_Suc_ex by auto
  then have "i < (m + PG - 1) div PG"
    using assms(4) by (simp add: a less_eq_div_iff_mult_less_eq flip: Suc_le_eq)
  then have "v + i * PG < mend \<and> pg h (v div PG + i) = None"
    using assms(1) by (simp add: isfree_def list_all_iff)
  then show ?thesis
    by (simp add: a i algebra_simps)
qed

lemma find_space_result:
  assumes "find_space h p n w = Some r" "p mod PG = 0" "mbegin \<le> p"
  shows "fst r mod PG = 0 \<and> mbegin \<le> fst r \<and> (if snd r then isfree h (fst r) (n + 4) else fst r = mbegin)"
  using assms(2,3)
proof (induction rule: find_space.raw_induct [OF _ assms(1)])
  case (1 find_space h p n w r)
  show ?case
  proof (cases "isfree h p (n + 4)")
    case False
    have "(p + PG) mod PG = 0" "mbegin mod PG = 0"
      using 1 by simp_all
    then show ?thesis
      using 1 False by (auto split: if_splits)
  qed (use 1 in auto)
qed

lemma alloc_pages_ok:
  assumes "alloc_pages q i k h = (True, h')" "i \<le> k"
  shows "mptr h' = mptr h \<and> pref h' = pref h \<and>
    pg h' = (\<lambda>c. if q + i \<le> c \<and> c < q + k then Some (c + 1 < q + k) else pg h c)"
  using assms
proof (induction q i k h rule: alloc_pages.induct)
  case (1 q i k h)
  show ?case
  proof (cases "i < k")
    case True
    let ?h = "h\<lparr>al_n := Suc (al_n h), pg := (pg h)(q + i := Some (i + 1 < k))\<rparr>"
    have ok: "al_ok h (al_n h)" "alloc_pages q (Suc i) k ?h = (True, h')"
      using 1(2) True by (simp_all add: alloc_pages.simps [of q i] Let_def split: if_splits)
    have "mptr h' = mptr ?h \<and> pref h' = pref ?h \<and>
        pg h' = (\<lambda>c. if q + Suc i \<le> c \<and> c < q + k then Some (c + 1 < q + k) else pg ?h c)"
      using 1(1) [OF True refl ok(1)] ok True by (simp cong: if_cong)
    then show ?thesis
      using True by (auto simp: fun_eq_iff)
  qed (use 1(2,3) in \<open>auto simp: alloc_pages.simps [of q i k] alloc_pages.simps [of q k k] fun_eq_iff\<close>)
qed

lemma alloc_pages_fail:
  assumes "alloc_pages q i k h = (False, h')"
  shows "mptr h' = mptr h \<and> pref h' = pref h \<and>
    (\<exists>j. i \<le> j \<and> j < k \<and> pg h' = (\<lambda>c. if q \<le> c \<and> c \<le> q + j then None else pg h c))"
  using assms
proof (induction q i k h rule: alloc_pages.induct)
  case (1 q i k h)
  show ?case
  proof (cases "i < k \<and> al_ok h (al_n h)")
    case True
    let ?h = "h\<lparr>al_n := Suc (al_n h), pg := (pg h)(q + i := Some (i + 1 < k))\<rparr>"
    have ok: "alloc_pages q (Suc i) k ?h = (False, h')"
      using 1(2) True by (simp_all add: alloc_pages.simps [of q i] Let_def split: if_splits)
    have *: "mptr h' = mptr ?h \<and> pref h' = pref ?h \<and>
        (\<exists>j. Suc i \<le> j \<and> j < k \<and> pg h' = (\<lambda>c. if q \<le> c \<and> c \<le> q + j then None else pg ?h c))"
      using 1(1) [OF _ refl] ok True by (simp cong: if_cong)
    then obtain j where "Suc i \<le> j" "j < k" "pg h' = (\<lambda>c. if q \<le> c \<and> c \<le> q + j then None else pg ?h c)"
      by blast
    then have "pg h' = (\<lambda>c. if q \<le> c \<and> c \<le> q + j then None else pg h c)"
      by (auto simp: fun_eq_iff)
    then show ?thesis
      using * \<open>Suc i \<le> j\<close> \<open>j < k\<close> by (auto intro!: exI [of _ j])
  next
    case False
    then have "i < k" "h' = h\<lparr>al_n := Suc (al_n h), pg := \<lambda>c. if q \<le> c \<and> c \<le> q + i then None else pg h c\<rparr>"
      using 1(2) by (auto simp: alloc_pages.simps [of q i] Let_def split: if_splits cong: if_cong)
    then show ?thesis by auto
  qed
qed

text \<open>A block put into pages that no block has.\<close>

definition new_block :: "nat \<Rightarrow> nat \<Rightarrow> heap \<Rightarrow> heap \<Rightarrow> bool" where
  "new_block p n h h' \<longleftrightarrow> p mod PG = 0 \<and> mbegin \<le> p \<and> 0 < n \<and> 4 dvd n \<and> last_pg p n < mend div PG \<and>
     (\<forall>c. p div PG \<le> c \<longrightarrow> c \<le> last_pg p n \<longrightarrow> pg h c = None) \<and>
     pg h' = (\<lambda>c. if p div PG \<le> c \<and> c \<le> last_pg p n then Some (c < last_pg p n) else pg h c) \<and>
     pref h' = (pref h)(last_pg p n := 2) \<and> mptr h' = p + n"

lemma aligned_last:
  assumes "p mod PG = 0" "4 dvd n"
  shows "last_pg p n = p div PG + (n + 3) div PG" "(p + n) mod PG \<noteq> 0 \<Longrightarrow> (p + n) div PG = last_pg p n"
proof -
  obtain a where a: "p = PG * a"
    using assms(1) by (auto simp: mod_eq_0_iff_dvd)
  show "last_pg p n = p div PG + (n + 3) div PG"
    by (simp add: last_pg_def a add.assoc)
  obtain k where k: "n = 4 * k"
    using assms(2) by blast
  have "4 * k div PG = k div 1024" "(4 * k + 3) div PG = k div 1024"
    using div_mult2_eq [of "4 * k" 4 1024] div_mult2_eq [of "4 * k + 3" 4 1024] by simp_all
  then show "(p + n) div PG = last_pg p n"
    by (simp add: last_pg_def a k add.assoc)
qed

text \<open>Blocks whose pages are apart are apart.\<close>

lemma pages_apart:
  assumes "last_pg v n < v' div PG"
  shows "v + n \<le> v'"
proof -
  have "Suc (last_pg v n) * PG \<le> v' div PG * PG"
    using assms by (intro mult_le_mono1) simp
  also have "\<dots> \<le> v'"
    by (rule div_times_less_eq_dividend)
  finally show ?thesis
    using last_pg_bounds(2) [of v n] by linarith
qed

lemma mapped_pages:
  assumes "heap_inv h b" "b v = Some n" "v div PG \<le> c" "c \<le> last_pg v n"
  shows "pg h c \<noteq> None"
  using heap_invD(3) [OF assms(1,2)] assms(3,4) by (cases "c = last_pg v n") (auto simp: block_ok_def)

lemma new_block_disjoint:
  assumes inv: "heap_inv h b" and new: "new_block p n h h'" and v: "b v = Some m"
  shows "last_pg v m < p div PG \<or> last_pg p n < v div PG"
proof (rule ccontr)
  assume c: "\<not> ?thesis"
  let ?c = "max (p div PG) (v div PG)"
  have m: "v div PG \<le> ?c" "?c \<le> last_pg v m" "p div PG \<le> ?c" "?c \<le> last_pg p n"
    using c last_pg_bounds(3) [of v m] last_pg_bounds(3) [of p n] by auto
  then have "pg h ?c = None"
    using new unfolding new_block_def by blast
  with mapped_pages [OF inv v m(1,2)] show False
    by simp
qed

lemma new_block_inv:
  assumes inv: "heap_inv h b" and new: "new_block p n h h'"
  shows "heap_inv h' (b(p \<mapsto> n))"
proof -
  let ?l = "last_pg p n" and ?b = "b(p \<mapsto> n)"
  have np: "p mod PG = 0" "mbegin \<le> p" "0 < n" "4 dvd n" "?l < mend div PG" "mptr h' = p + n" "p div PG \<le> ?l"
    using new last_pg_bounds(3) by (auto simp: new_block_def)
  have f: "pg h' c = (if p div PG \<le> c \<and> c \<le> ?l then Some (c < ?l) else pg h c)"
      "pref h' c = (if c = ?l then 2 else pref h c)" for c
    using new by (auto simp: new_block_def)
  note dis = new_block_disjoint [OF inv new]
  have bp: "b p = None"
    using dis [of p] np(7) last_pg_bounds(3) [of p] by (cases "b p") (auto simp flip: not_less)
  have pm: "p = p div PG * PG"
    using np(1) by (simp add: mod_eq_0_iff_dvd)
  have cur: "is_cur h' q \<Longrightarrow> q = ?l" for q
    using aligned_last(2) [OF np(1,4)] by (simp add: is_cur_def np(6))
  have "last_pg v m \<noteq> ?l" if "b v = Some m" for v m
    using dis [OF that] last_pg_bounds(3) [of v m] np(7) by linarith
  then have empty: "in_page b ?l = {}"
    by (auto simp: in_page_def)
  have "block_ok h' v m" if "?b v = Some m" for v m
  proof (cases "v = p")
    case True
    then show ?thesis
      using np that by (auto simp: block_ok_def f)
  next
    case False
    then have v: "b v = Some m"
      using that by simp
    have "pg h' c = pg h c" if "v div PG \<le> c" "c \<le> last_pg v m" for c
      using dis [OF v] that by (auto simp: f)
    then show ?thesis
      using heap_invD(3) [OF inv v] last_pg_bounds(3) [of v m] by (auto simp: block_ok_def)
  qed
  moreover have "v + m \<le> v'" if vv: "?b v = Some m" "?b v' = Some m'" "v < v'" for v m v' m'
  proof -
    consider "v = p" "b v' = Some m'" | "v' = p" "b v = Some m" | "b v = Some m" "b v' = Some m'"
      using vv by (auto split: if_splits)
    then show ?thesis
    proof cases
      case 1
      then have "\<not> last_pg v' m' < p div PG"
        using vv(3) pages_apart [of v' m' p] by auto
      then show ?thesis
        using dis [OF 1(2)] pages_apart [of p n v'] 1 vv(1) by auto
    next
      case 2
      then have "\<not> ?l < v div PG"
        using vv(3) pages_apart [of p n v] by auto
      then show ?thesis
        using dis [OF 2(2)] pages_apart [of v m p] 2 by auto
    qed (use heap_invD(4) [OF inv] vv(3) in blast)
  qed
  moreover have "card (in_page ?b q) + of_bool (is_cur h' q) \<le> unat (pref h' q)" if "pg h' q = Some False" for q
  proof (cases "q = ?l")
    case True
    have "in_page ?b ?l = {p}"
      using empty bp by (auto simp: in_page_def split: if_splits)
    with True show ?thesis by (simp add: f)
  next
    case False
    have "in_page ?b q = in_page b q"
      using False bp by (auto simp: in_page_def split: if_splits)
    moreover have "pg h q = Some False"
      using that False by (auto simp: f split: if_splits)
    ultimately show ?thesis
      using heap_invD(5) [OF inv, of q] False cur [of q] by (auto simp: f)
  qed
  moreover have "pg h' q = Some False \<and> 4 dvd mptr h' \<and> unat (pref h' q) \<le> mptr h' mod PG + 2" if "is_cur h' q" for q
  proof -
    have "4 dvd p"
      using np(1) by (intro dvd_trans [of 4 PG p]) (simp_all add: mod_eq_0_iff_dvd)
    then show ?thesis
      using cur [OF that] np by (simp add: f)
  qed
  moreover have "v + m \<le> mptr h'" if "is_cur h' q" "?b v = Some m" "last_pg v m = q" for q v m
    using cur [OF that(1)] that(2,3) empty np(6) by (auto simp: in_page_def split: if_splits)
  moreover have "mbegin \<le> mptr h'" "mptr h' \<le> mend"
    using np last_pg_bounds(2) [of p n] by simp_all
  ultimately show ?thesis
    using heap_invD(1) [OF inv] by (simp add: heap_inv_def)
qed

lemma new_block_apart: "heap_inv h b \<Longrightarrow> new_block p n h h' \<Longrightarrow> b p = None"
  using new_block_disjoint [of h b p n h' p] last_pg_bounds(3) [of p] by (cases "b p") (auto simp flip: not_less)

lemma malloc_new_inv:
  assumes inv: "heap_inv h b" and m: "mptr h mod PG = 0" "mbegin \<le> mptr h" and n: "0 < n" "4 dvd n"
    and res: "malloc_new n h = Some (v, h')"
  shows "(v = 0 \<and> heap_inv h' b) \<or> (v \<noteq> 0 \<and> b v = None \<and> heap_inv h' (b(v \<mapsto> n)))"
proof -
  obtain p found where fs: "find_space h (mptr h) n 0 = Some (p, found)"
    using res by (auto simp: malloc_new_def split: Option.bind_splits)
  have p: "p mod PG = 0" "mbegin \<le> p" "if found then isfree h p (n + 4) else p = mbegin"
    using find_space_result [OF fs m] by auto
  let ?l = "last_pg p n" and ?k = "(n + 4 + PG - 1) div PG"
  have l: "?l = p div PG + (n + 3) div PG" "?k = (n + 3) div PG + 1"
    using aligned_last(1) [OF p(1) n(2)] by simp_all
  have same: "heap_inv g b" if "pg g = pg h" "pref g = pref h" "mptr g = p" "p \<le> mend" for g
    using inv p(1,2) that by (auto simp: heap_inv_def is_cur_def block_ok_def)
  show ?thesis
  proof (cases found)
    case True
    have un: "c < mend div PG \<and> pg h c = None" if "p div PG \<le> c" "c \<le> ?l" for c
    proof -
      have "c * PG < p + (n + 4)"
        using mult_le_mono1 [OF that(2), of PG] last_pg_bounds(1) [of p n] by linarith
      then show ?thesis
        using isfreeD [OF _ p(1) that(1), of h "n + 4"] p(3) True by auto
    qed
    obtain ok h2 where al: "alloc_pages (p div PG) 0 ?k (h\<lparr>mptr := p\<rparr>) = (ok, h2)"
      by fastforce
    have pe: "p \<le> mend"
      using un [of "p div PG"] last_pg_bounds(3) [of p n] p(1) by (auto simp: mod_eq_0_iff_dvd elim!: dvdE)
    show ?thesis
    proof (cases ok)
      case ok: True
      have r: "v = p" "h' = h2\<lparr>pref := (pref h2)(?l := 2), mptr := p + n\<rparr>"
        using res fs True al ok l by (auto simp: malloc_new_def)
      have "pg h2 = (\<lambda>c. if p div PG \<le> c \<and> c \<le> ?l then Some (c < ?l) else pg h c)" "pref h2 = pref h"
        using alloc_pages_ok [of "p div PG" 0 ?k "h\<lparr>mptr := p\<rparr>" h2] al ok l by (auto simp: fun_eq_iff less_Suc_eq_le)
      then have "new_block p n h h'"
        using p n un last_pg_bounds(3) [of p n] by (auto simp: new_block_def r)
      then show ?thesis
        using new_block_inv [OF inv] new_block_apart [OF inv] p(2) by (auto simp: r)
    next
      case False
      then have r: "v = 0" "h' = h2"
        using res fs True al by (simp_all add: malloc_new_def)
      obtain j where "j < ?k" "pg h2 = (\<lambda>c. if p div PG \<le> c \<and> c \<le> p div PG + j then None else pg h c)" "pref h2 = pref h" "mptr h2 = p"
        using alloc_pages_fail [of "p div PG" 0 ?k "h\<lparr>mptr := p\<rparr>" h2] al False by (auto cong: if_cong)
      moreover have "pg h2 = pg h"
        using un calculation(1,2) l by (auto simp: fun_eq_iff)
      ultimately show ?thesis
        using same [of h2] pe r by simp
    qed
  next
    case False
    then show ?thesis
      using res fs same [of "h\<lparr>mptr := p\<rparr>"] p by (auto simp: malloc_new_def)
  qed
qed

text \<open>A block put behind the others of the current page.\<close>

lemma cur_block_inv:
  assumes inv: "heap_inv h b" and cur: "is_cur h q" and n: "0 < n" "4 dvd n" and fit: "(mptr h + n + 3) div PG = q"
  shows "b (mptr h) = None \<and> heap_inv (h\<lparr>pref := (pref h)(q := pref h q + 1), mptr := mptr h + n\<rparr>) (b(mptr h \<mapsto> n))"
proof
  let ?v = "mptr h" and ?h = "h\<lparr>pref := (pref h)(q := pref h q + 1), mptr := mptr h + n\<rparr>"
  let ?b = "b(mptr h \<mapsto> n)"
  have q: "pg h q = Some False" "?v div PG = q" "?v mod PG \<noteq> 0" "4 dvd ?v" "unat (pref h q) \<le> ?v mod PG + 2" "last_pg ?v n = q"
    using heap_invD(6) [OF inv cur] cur fit by (auto simp: is_cur_def last_pg_def)
  have v: "mbegin \<le> ?v" "q < mend div PG"
    using heap_invD(2) [OF inv] q(2,3) by (auto simp: le_less less_mult_imp_div_less)
  have old: "last_pg w m < q \<or> w + m \<le> ?v \<and> last_pg w m = q \<or> q < w div PG" if "b w = Some m" for w m
  proof (cases "last_pg w m" q rule: linorder_cases)
    case equal
    then show ?thesis
      using heap_invD(7) [OF inv cur that] by simp
  next
    case greater
    have "\<not> w div PG \<le> q"
      using heap_invD(3) [OF inv that] greater q(1) by (auto simp: block_ok_def)
    then show ?thesis by simp
  qed simp
  have apart: "w + m \<le> ?v \<or> ?v + n \<le> w" if "b w = Some m" for w m
    using old [OF that] pages_apart [of w m ?v] pages_apart [of ?v n w] q(2,6) by auto
  show bv: "b ?v = None"
    using apart [of ?v] n(1) heap_invD(3) [OF inv, of ?v] by (cases "b ?v") (auto simp: block_ok_def)
  have room: "?v mod PG + n + 3 < PG"
  proof -
    have "?v = q * PG + ?v mod PG"
      using q(2) div_mult_mod_eq [of ?v PG] by simp
    moreover have "?v + n + 3 < Suc q * PG"
      using last_pg_bounds(2) [of ?v n] q(6) by simp
    ultimately show ?thesis by simp
  qed
  then have pos: "(?v + n) div PG = q" "(?v + n) mod PG = ?v mod PG + n"
    using q(2) div_add_within [of ?v PG n] by simp_all
  have iscur: "is_cur ?h c \<longleftrightarrow> c = q" for c
    using pos q(3) n(1) by (auto simp: is_cur_def)
  have p1: "unat (pref h q + 1) = unat (pref h q) + 1"
    using q(5) mod_less_divisor [of PG ?v] by (simp add: unat_word_ariths)
  have card: "card (in_page ?b c) = card (in_page b c) + of_bool (c = q)" for c
  proof -
    have "in_page ?b c = (if c = q then insert ?v (in_page b c) else in_page b c)"
      using bv q(6) by (auto simp: in_page_def split: if_splits)
    moreover have "?v \<notin> in_page b c"
      using bv by (simp add: in_page_def)
    ultimately show ?thesis
      using in_page_finite [OF inv, of c] by auto
  qed
  have "block_ok ?h w m" if "?b w = Some m" for w m
    using that heap_invD(3) [OF inv, of w m] n v q by (auto simp: block_ok_def split: if_splits)
  moreover have "w + m \<le> w'" if "?b w = Some m" "?b w' = Some m'" "w < w'" for w m w' m'
    using that apart [of w m] apart [of w' m'] heap_invD(4) [OF inv, of w m w' m'] n(1) by (auto split: if_splits)
  moreover have "card (in_page ?b c) + of_bool (is_cur ?h c) \<le> unat (pref ?h c)" if "pg ?h c = Some False" for c
    using heap_invD(5) [OF inv, of c] that cur p1 unfolding card iscur by (cases "c = q") auto
  moreover have "w + m \<le> mptr ?h" if "?b w = Some m" "last_pg w m = q" for w m
    using that heap_invD(7) [OF inv cur, of w m] by (auto split: if_splits)
  moreover have "unat (pref ?h q) \<le> mptr ?h mod PG + 2" "4 dvd mptr ?h" "mptr ?h \<le> mend" "mbegin \<le> mptr ?h"
    using q(4,5) p1 pos n v by (simp_all add: div_le_dividend)
  ultimately show "heap_inv ?h ?b"
    using heap_invD(1) [OF inv] q(1) iscur by (auto simp: heap_inv_def)
qed

lemma malloc_inv:
  assumes inv: "heap_inv h b" and n: "n = unat (ROUNDUP sz 4)" "0 < n" and res: "malloc sz h = Some (v, h')"
  shows "(v = 0 \<and> heap_inv h' b) \<or> (v \<noteq> 0 \<and> b v = None \<and> heap_inv h' (b(v \<mapsto> n)))"
proof -
  define g where "g = (if mptr h = 0 then h\<lparr>mptr := mbegin\<rparr> else h)"
  have g: "heap_inv g b" "mptr g \<noteq> 0" "mbegin \<le> mptr g"
    using inv heap_invD(2) [OF inv] by (auto simp: g_def heap_inv_def is_cur_def block_ok_def)
  have dv: "4 dvd n"
    using ROUNDDOWN_dvd [of 4 "sz + 4 - 1"] by (simp add: n ROUNDUP_def)
  have m: "malloc sz h = (if n \<ge> MAXMALLOC then Some (0, g)
      else if mptr g mod PG \<noteq> 0
      then let q = mptr g div PG
           in if q = (mptr g + n + 3) div PG
              then if pg g q = None then None
                   else Some (mptr g, g\<lparr>pref := (pref g)(q := pref g q + 1), mptr := mptr g + n\<rparr>)
              else do { h1 \<leftarrow> free (mptr g) g; malloc_new n (h1\<lparr>mptr := (q + 1) * PG\<rparr>) }
      else malloc_new n g)"
    unfolding malloc_def g_def [symmetric] n(1) [symmetric] Let_def ..
  consider "n \<ge> MAXMALLOC" | "n < MAXMALLOC" "mptr g mod PG = 0" | "n < MAXMALLOC" "is_cur g (mptr g div PG)"
    by (fastforce simp: is_cur_def)
  then show ?thesis
  proof cases
    case 1
    then show ?thesis
      using m res g(1) by simp
  next
    case 2
    then show ?thesis
      using malloc_new_inv [OF g(1) _ g(3) n(2) dv] m res by simp
  next
    case 3
    let ?q = "mptr g div PG"
    show ?thesis
    proof (cases "?q = (mptr g + n + 3) div PG")
      case True
      then show ?thesis
        using cur_block_inv [OF g(1) 3(2) n(2) dv] heap_invD(6) [OF g(1) 3(2)] 3 m res g(2)
        by (auto simp: is_cur_def Let_def)
    next
      case False
      note f = free_cur_inv [OF g(1) 3(2)]
      have "malloc_new n ((drop_ref ?q g)\<lparr>mptr := (?q + 1) * PG\<rparr>) = Some (v, h')"
        using m res 3 f False by (simp add: is_cur_def Let_def)
      moreover have "mbegin \<le> (?q + 1) * PG"
        using g(3) div_mult_mod_eq [of "mptr g" PG] mod_less_divisor [of PG "mptr g"] by simp
      ultimately show ?thesis
        using malloc_new_inv [OF conjunct2 [OF f] _ _ n(2) dv] by simp
    qed
  qed
qed

text \<open>A program that allocates blocks of at least one byte and gives back each block at most once.\<close>

inductive heap_reach :: "heap \<Rightarrow> blocks \<Rightarrow> bool" where
  heap_start: "mptr h = 0 \<Longrightarrow> (\<And>q. pg h q = None) \<Longrightarrow> heap_reach h Map.empty"
| heap_malloc: "heap_reach h b \<Longrightarrow> malloc sz h = Some (v, h') \<Longrightarrow> 0 < unat (ROUNDUP sz 4) \<Longrightarrow>
    heap_reach h' (if v = 0 then b else b(v \<mapsto> unat (ROUNDUP sz 4)))"
| heap_free: "heap_reach h b \<Longrightarrow> b v = Some n \<Longrightarrow> free v h = Some h' \<Longrightarrow> heap_reach h' (b(v := None))"

lemma heap_reach_inv: "heap_reach h b \<Longrightarrow> heap_inv h b"
proof (induction rule: heap_reach.induct)
  case (heap_start h)
  then show ?case by (simp add: heap_inv_def is_cur_def)
next
  case (heap_malloc h b sz v h')
  then show ?case
    using malloc_inv [OF heap_malloc.IH refl heap_malloc.hyps(3,2)] by auto
qed (rule free_block_inv)

text \<open>
  C11. Blocks of the heap never overlap: after any sequence of \<^verbatim>\<open>malloc\<close> and \<^verbatim>\<open>free\<close>, each block in use lies inside the heap on
  mapped pages, no two have a byte in common, giving one back succeeds, and the block a further \<^verbatim>\<open>malloc\<close> returns is
  apart from all of them.
\<close>

theorem malloc_blocks_disjoint:
  assumes "heap_reach h b" "b v = Some n"
  shows "mbegin \<le> v \<and> v + n \<le> mend \<and> (\<forall>a. v \<le> a \<and> a < v + n \<longrightarrow> pg h (a div PG) \<noteq> None) \<and>
    (\<forall>w m. b w = Some m \<longrightarrow> w \<noteq> v \<longrightarrow> w + m \<le> v \<or> v + n \<le> w) \<and> (\<exists>h'. free v h = Some h') \<and>
    (\<forall>sz w h'. malloc sz h = Some (w, h') \<longrightarrow> w \<noteq> 0 \<longrightarrow> 0 < unat (ROUNDUP sz 4) \<longrightarrow>
       w + unat (ROUNDUP sz 4) \<le> v \<or> v + n \<le> w)"
proof -
  note inv = heap_reach_inv [OF assms(1)]
  note ok = heap_invD(3) [OF inv assms(2)]
  have "v + n < mend" "mbegin \<le> v"
    using ok last_pg_bounds(2) [of v n] by (auto simp: block_ok_def)
  moreover have "pg h (a div PG) \<noteq> None" if "v \<le> a" "a < v + n" for a
    using mapped_pages [OF inv assms(2)] that by (simp add: div_le_mono last_pg_def)
  moreover have "w + m \<le> v \<or> v + n \<le> w" if "b w = Some m" "w \<noteq> v" for w m
    using heap_invD(4) [OF inv assms(2) that(1)] heap_invD(4) [OF inv that(1) assms(2)] that(2)
    by (cases v w rule: linorder_cases) auto
  moreover have "w + unat (ROUNDUP sz 4) \<le> v \<or> v + n \<le> w"
    if a: "malloc sz h = Some (w, h')" "w \<noteq> 0" "0 < unat (ROUNDUP sz 4)" for sz w h'
  proof -
    have new: "b w = None" "heap_inv h' (b(w \<mapsto> unat (ROUNDUP sz 4)))"
      using malloc_inv [OF inv refl a(3,1)] a(2) by auto
    then have "w \<noteq> v"
      using assms(2) by auto
    then show ?thesis
      using heap_invD(4) [OF new(2), of v n w] heap_invD(4) [OF new(2), of w _ v n] assms(2)
      by (cases v w rule: linorder_cases) auto
  qed
  ultimately show ?thesis
    using free_block_run [OF inv assms(2)] by auto
qed

definition example_heap :: heap where
  "example_heap = \<lparr>mptr = 0, pg = \<lambda>_. None, pref = \<lambda>_. 0, al_ok = \<lambda>_. True, al_n = 0\<rparr>"

lemma isfree_example: "isfree example_heap mbegin 12"
  by (simp add: isfree_def example_heap_def)

lemma malloc_first:
  "malloc 8 example_heap = Some (mbegin, example_heap\<lparr>mptr := mbegin + 8, pg := (pg example_heap)(mbegin div PG := Some False),
     pref := (pref example_heap)(mbegin div PG := 2), al_n := 1\<rparr>)"
proof -
  have r: "ROUNDUP 8 4 = 8"
    by (simp add: ROUNDUP_def ROUNDDOWN_def)
  have "find_space (example_heap\<lparr>mptr := mbegin\<rparr>) mbegin 8 0 = Some (mbegin, True)"
    using isfree_example by (subst find_space.simps) (simp add: isfree_def)
  then show ?thesis
    by (simp add: malloc_def r malloc_new_def Let_def)
      (simp add: example_heap_def alloc_pages.simps Let_def)
qed

theorem malloc_blocks_disjoint_witness:
  "\<exists>h. heap_reach h [mbegin \<mapsto> 8] \<and> pg h (mbegin div PG) \<noteq> None \<and> (\<exists>h'. free mbegin h = Some h')"
proof -
  have r: "unat (ROUNDUP 8 4) = 8"
    by (simp add: ROUNDUP_def ROUNDDOWN_def)
  have "heap_reach example_heap Map.empty"
    by (rule heap_start) (simp_all add: example_heap_def)
  from heap_malloc [OF this malloc_first] obtain h where h: "heap_reach h [mbegin \<mapsto> 8]"
    by (simp add: r)
  have "\<forall>a. mbegin \<le> a \<and> a < mbegin + 8 \<longrightarrow> pg h (a div PG) \<noteq> None" "\<exists>h'. free mbegin h = Some h'"
    using malloc_blocks_disjoint [OF h, of mbegin 8] by simp_all
  with h show ?thesis
    by (intro exI [of _ h]) (auto dest: spec [of _ mbegin])
qed

subsection \<open>What goes wrong\<close>

text \<open>The size is rounded up with wrap-around: a request for the largest sizes is taken as one for no bytes.\<close>

lemma malloc_huge: "malloc (- 1) h = malloc 0 h"
  by (simp add: malloc_def ROUNDUP_def ROUNDDOWN_def)

text \<open>Past the end of the heap the search never comes back: it looks for the end of the heap by equality.\<close>

lemma find_space_below:
  assumes "find_space h p n w = Some r"
  shows "p < mend"
proof (rule find_space.raw_induct [OF _ assms])
  fix fs h p n w r
  assume IH: "\<And>h p n w y. fs h p n w = Some y \<Longrightarrow> p < mend"
    and r: "(if isfree h p (n + 4) then Some (p, True)
       else if p + PG = mend then if w + 1 = 2 then Some (mbegin, False) else fs h mbegin n (w + 1)
       else fs h (p + PG) n w) = Some r"
  have "isfree h p (n + 4) \<Longrightarrow> p < mend"
    by (auto simp: isfree_def list_all_iff dest: bspec [of _ _ 0])
  moreover have "p < mend" if "fs h (p + PG) n w = Some r"
    using IH [OF that] by simp
  ultimately show "p < mend"
    using r by (auto split: if_splits)
qed

lemma find_space_past_end: "mend \<le> p \<Longrightarrow> find_space h p n w = None"
  using find_space_below [of h p n w] by (cases "find_space h p n w") auto



end
