(* ===== verification/Sched_Fair.thy ===== *)
theory Sched_Fair
  imports Isolation
begin

section \<open>The scheduler is fair\<close>

text \<open>
  Round robin: an environment that stays runnable is run within \<open>NENV\<close> calls of \<^verbatim>\<open>sched_yield\<close>, whatever
  happens between the calls. Its distance from the current environment, going up and round, becomes smaller with every
  call that chooses another one.
\<close>

definition chosen :: "outcome \<Rightarrow> nat option" where
  "chosen out = (case out of Switch i \<Rightarrow> Some i | EnterGuest i l \<Rightarrow> Some i | _ \<Rightarrow> None)"

definition cur_slot :: "kern \<Rightarrow> nat" where
  "cur_slot s = (case curenv s of Some c \<Rightarrow> ENVX (env_id (envs s c)) | None \<Rightarrow> 0)"

definition ring_dist :: "nat \<Rightarrow> nat \<Rightarrow> nat" where
  "ring_dist i j = (j + NENV - Suc (i mod NENV)) mod NENV"

lemma ring_dist_less: "ring_dist i j < NENV"
  by (simp add: ring_dist_def)

lemma ring_dist_reach:
  assumes "j < NENV"
  shows "j = (i + 1 + ring_dist i j) mod NENV"
proof -
  have "(i + 1 + ring_dist i j) mod NENV = (Suc (i mod NENV) + (j + NENV - Suc (i mod NENV))) mod NENV"
    unfolding ring_dist_def by (metis Suc_eq_plus1 add_Suc mod_add_left_eq mod_add_right_eq)
  also have "Suc (i mod NENV) + (j + NENV - Suc (i mod NENV)) = j + NENV"
    using mod_less_divisor [of NENV i] by simp
  finally show ?thesis
    using assms by simp
qed

lemma add_mod_inj:
  assumes "(x + d) mod n = (x + e) mod n" "d < n" "e < (n :: nat)"
  shows "d = e"
  using assms
proof (induction d e rule: linorder_wlog)
  case (le d e)
  then have "n dvd x + e - (x + d)"
    using mod_eq_dvd_iff_nat [of "x + d" "x + e" n] by simp
  then have "n dvd e - d"
    by simp
  with le show ?case
    using dvd_imp_le [of n "e - d"] by (cases "d = e") auto
qed simp

lemma ring_dist_step:
  assumes "j < NENV" "k < ring_dist i j"
  shows "ring_dist ((i + 1 + k) mod NENV) j < ring_dist i j"
proof -
  let ?i = "(i + 1 + k) mod NENV" and ?e = "ring_dist i j - Suc k"
  have "(?i + 1 + ?e) mod NENV = (i + 1 + k + (1 + ?e)) mod NENV"
    using mod_add_left_eq [of "i + 1 + k" NENV "1 + ?e"] by (simp only: add.assoc)
  also have "i + 1 + k + (1 + ?e) = i + 1 + ring_dist i j"
    using assms(2) by simp
  finally have eq: "(?i + 1 + ?e) mod NENV = (?i + 1 + ring_dist ?i j) mod NENV"
    using ring_dist_reach [OF assms(1), of i] ring_dist_reach [OF assms(1), of ?i] by (simp only:)
  have "?e < NENV"
    using ring_dist_less [of i j] by linarith
  with eq have "?e = ring_dist ?i j"
    using ring_dist_less by (rule add_mod_inj)
  with assms(2) show ?thesis by simp
qed

lemma sched_yield_chosen:
  assumes "sched_yield hw s = Some (out, s')" "chosen out = Some c" "env_status (envs s j) = ENV_RUNNABLE" "j < NENV"
  shows "sched_search NENV (cur_slot s) s = Some c"
proof (cases "sched_search NENV (cur_slot s) s")
  case None
  then have "env_status (envs s ((cur_slot s + 1 + ring_dist (cur_slot s) j) mod 1024)) \<noteq> ENV_RUNNABLE"
    using ring_dist_less by (intro sched_search_None) simp_all
  then show ?thesis
    using assms(3) ring_dist_reach [OF assms(4), of "cur_slot s"] by simp
next
  case (Some i)
  then have "chosen out = Some i"
    using assms(1,2) unfolding sched_yield_def cur_slot_def
    by (auto simp: chosen_def run_guest_def Let_def split: if_splits Option.bind_splits vmrun.splits)
  with Some assms(2) show ?thesis by simp
qed

text \<open>One call: the runnable environment is chosen, or it is nearer to the one that is.\<close>

lemma sched_yield_nearer:
  assumes "sched_yield hw s = Some (out, s')" "chosen out = Some c" "env_status (envs s j) = ENV_RUNNABLE" "j < NENV"
  shows "c = j \<or> ring_dist c j < ring_dist (cur_slot s) j"
proof -
  let ?i = "cur_slot s" and ?d = "ring_dist (cur_slot s) j"
  obtain k where k: "c = (?i + 1 + k) mod 1024" "\<forall>k' < k. env_status (envs s ((?i + 1 + k') mod 1024)) \<noteq> ENV_RUNNABLE"
    using sched_search_Some [OF sched_yield_chosen [OF assms]] by blast
  have "k \<le> ?d"
    using k(2) assms(3) ring_dist_reach [OF assms(4), of ?i] by (metis NENV_def not_less)
  then show ?thesis
    using ring_dist_step [OF assms(4), of k ?i] ring_dist_reach [OF assms(4), of ?i] k(1) by (auto simp: le_less)
qed



end
