(* ===== verification/Console_Queue.thy ===== *)
theory Console_Queue
  imports Console
begin

section \<open>The console input is a queue\<close>

text \<open>
  The ring buffer that the interrupt handlers fill and \<^verbatim>\<open>cons_getc\<close> empties implements a queue of at most 511 characters. One
  character more and the buffer, which cannot tell full from empty, has lost all of them.
\<close>

definition cons_inv :: "console \<Rightarrow> bool" where
  "cons_inv d \<longleftrightarrow> cons_rpos d < CONSBUFSIZE \<and> cons_wpos d < CONSBUFSIZE"

definition ring :: "console \<Rightarrow> nat \<Rightarrow> u8" where
  "ring d k = cbuf d ((unat (cons_rpos d) + k) mod 512)"

definition cons_count :: "console \<Rightarrow> nat" where
  "cons_count d = (unat (cons_wpos d) + 512 - unat (cons_rpos d)) mod 512"

definition cons_queue :: "console \<Rightarrow> u8 list" where
  "cons_queue d = map (ring d) [0..<cons_count d]"

text \<open>The specification: putting a character into the queue, and taking one.\<close>

definition q_put :: "u8 \<Rightarrow> u8 list \<Rightarrow> u8 list" where
  "q_put c q = (if c = 0 then q else if length q < 511 then q @ [c] else [])"

definition q_take :: "u8 list \<Rightarrow> u8 \<times> u8 list" where
  "q_take q = (case q of [] \<Rightarrow> (0, []) | c # cs \<Rightarrow> (c, cs))"

lemma cons_invD:
  assumes "cons_inv d"
  shows "unat (cons_rpos d) < 512" "unat (cons_wpos d) < 512" "cons_count d < 512"
    "(unat (cons_rpos d) + cons_count d) mod 512 = unat (cons_wpos d)"
  using assms by (auto simp: cons_inv_def word_less_nat_alt cons_count_def mod_if)

text \<open>A position moved by one with the test for the end of the buffer.\<close>

lemma advance:
  assumes "p < (CONSBUFSIZE :: u32)"
  shows "unat (if p + 1 = CONSBUFSIZE then 0 else p + 1) = (unat p + 1) mod 512"
    "(if p + 1 = CONSBUFSIZE then 0 else p + 1) < CONSBUFSIZE"
proof -
  have p: "unat p < 512"
    using assms by (simp add: word_less_nat_alt)
  then have u: "unat (p + 1) = unat p + 1"
    by (simp add: unat_word_ariths)
  have "p + 1 = CONSBUFSIZE \<longleftrightarrow> unat p + 1 = 512"
    using u by (simp add: word_unat_eq_iff)
  with p u show "unat (if p + 1 = CONSBUFSIZE then 0 else p + 1) = (unat p + 1) mod 512"
    "(if p + 1 = CONSBUFSIZE then 0 else p + 1) < CONSBUFSIZE"
    by (auto simp: word_less_nat_alt)
qed

lemma cons_store_queue:
  assumes inv: "cons_inv d"
  shows "cons_inv (cons_store c d) \<and> cons_queue (cons_store c d) = q_put c (cons_queue d)"
proof (cases "c = 0")
  case False
  let ?d = "cons_store c d" and ?n = "cons_count d"
  note u = cons_invD [OF inv]
  have w: "cons_wpos ?d = (if cons_wpos d + 1 = CONSBUFSIZE then 0 else cons_wpos d + 1)"
      "cons_rpos ?d = cons_rpos d" "cbuf ?d = (cbuf d)(unat (cons_wpos d) := c)"
    using False by (auto simp: cons_store_def Let_def)
  have i: "cons_inv ?d" "unat (cons_wpos ?d) = (unat (cons_wpos d) + 1) mod 512"
    using inv advance [of "cons_wpos d"] unfolding cons_inv_def w by simp_all
  have n: "cons_count ?d = (if ?n < 511 then ?n + 1 else 0)"
    using u i(2) by (auto simp: cons_count_def w(2) mod_if split: if_splits)
  have "ring ?d k = (if k = ?n then c else ring d k)" if "k \<le> ?n" for k
  proof -
    have "(unat (cons_rpos d) + k) mod 512 = unat (cons_wpos d) \<longleftrightarrow> k = ?n"
      using u that by (auto simp: mod_if split: if_splits)
    then show ?thesis by (simp add: ring_def w)
  qed
  then have "map (ring ?d) [0..<?n + 1] = map (ring d) [0..<?n] @ [c]"
    by simp
  then show ?thesis
    using i n False by (auto simp: cons_queue_def q_put_def)
qed (use inv in \<open>simp add: cons_store_def q_put_def\<close>)

lemma ring_count:
  assumes "r < 512" "w < (512 :: nat)" "r \<noteq> w"
  shows "(w + 512 - r) mod 512 = Suc ((w + 512 - (r + 1) mod 512) mod 512)"
proof (cases "r < w")
  case True
  then obtain k where k: "w = r + Suc k"
    using less_iff_Suc_add by auto
  then have "w + 512 - r = 512 + Suc k" "(r + 1) mod 512 = r + 1" "w + 512 - (r + 1) = 512 + k"
    using assms by simp_all
  moreover have "(512 + Suc k) mod 512 = Suc k" "(512 + k) mod 512 = k"
    using assms k by (simp_all only: mod_add_self1, simp_all)
  ultimately show ?thesis
    by (simp only:)
next
  case False
  then show ?thesis
    using assms by (cases "r = 511") simp_all
qed

lemma cons_take_queue:
  assumes inv: "cons_inv d"
  shows "cons_inv (snd (cons_take d)) \<and> q_take (cons_queue d) = (fst (cons_take d), cons_queue (snd (cons_take d)))"
proof -
  let ?d = "snd (cons_take d)" and ?n = "cons_count d"
  note u = cons_invD [OF inv]
  show ?thesis
  proof (cases "cons_rpos d = cons_wpos d")
    case True
    then have "cons_take d = (0, d)" "?n = 0"
      by (simp_all add: cons_take_def cons_count_def)
    then show ?thesis
      using inv by (simp add: cons_queue_def q_take_def)
  next
    case False
    then have r: "cons_rpos ?d = (if cons_rpos d + 1 = CONSBUFSIZE then 0 else cons_rpos d + 1)"
        "cons_wpos ?d = cons_wpos d" "cbuf ?d = cbuf d" "fst (cons_take d) = cbuf d (unat (cons_rpos d))"
      by (auto simp: cons_take_def Let_def)
    have i: "cons_inv ?d" "unat (cons_rpos ?d) = (unat (cons_rpos d) + 1) mod 512"
      using inv advance [of "cons_rpos d"] unfolding cons_inv_def r by simp_all
    have "unat (cons_rpos d) \<noteq> unat (cons_wpos d)"
      using False by (simp add: word_unat_eq_iff)
    then have n: "?n = Suc (cons_count ?d)"
      using ring_count [OF u(1,2)] by (simp add: cons_count_def r(2) i(2))
    have "ring ?d k = ring d (Suc k)" for k
      unfolding ring_def i(2) r(3) by (simp add: mod_simps)
    then have "cons_queue d = ring d 0 # cons_queue ?d"
      unfolding cons_queue_def n by (simp add: upt_conv_Cons map_Suc_upt [symmetric] del: upt_Suc)
    moreover have "ring d 0 = fst (cons_take d)"
      using u(1) by (simp add: ring_def r(4))
    ultimately show ?thesis
      using i by (simp add: q_take_def)
  qed
qed

subsection \<open>Interrupts\<close>

text \<open>The characters that a device delivers to \<^verbatim>\<open>cons_intr\<close>.\<close>

primrec intr_chars :: "nat \<Rightarrow> (console \<Rightarrow> u8 option \<times> console) \<Rightarrow> console \<Rightarrow> u8 list" where
  "intr_chars 0 proc d = []"
| "intr_chars (Suc n) proc d =
     (case proc d of (None, d1) \<Rightarrow> [] | (Some c, d1) \<Rightarrow> c # intr_chars n proc (cons_store c d1))"

definition ring_same :: "console \<Rightarrow> console \<Rightarrow> bool" where
  "ring_same d d' \<longleftrightarrow> cbuf d' = cbuf d \<and> cons_rpos d' = cons_rpos d \<and> cons_wpos d' = cons_wpos d"

lemma ring_same_queue: "ring_same d d' \<Longrightarrow> cons_queue d' = cons_queue d \<and> cons_inv d' = cons_inv d"
proof -
  assume a: "ring_same d d'"
  then have "ring d' = ring d"
    by (auto simp: ring_same_def ring_def fun_eq_iff)
  with a show ?thesis
    by (simp add: ring_same_def cons_queue_def cons_count_def cons_inv_def)
qed

lemma cons_intr_queue:
  assumes "\<And>d. ring_same d (snd (proc d))" "cons_inv d"
  shows "cons_inv (cons_intr n proc d) \<and> cons_queue (cons_intr n proc d) = fold q_put (intr_chars n proc d) (cons_queue d)"
  using assms(2)
proof (induction n arbitrary: d)
  case (Suc n)
  obtain x d1 where p: "proc d = (x, d1)"
    by fastforce
  have q: "cons_queue d1 = cons_queue d" "cons_inv d1"
    using ring_same_queue [OF assms(1) [of d]] p Suc.prems by simp_all
  show ?case
    using Suc.IH [of "cons_store c d1" for c] cons_store_queue [OF q(2)] q p by (cases x) simp_all
qed simp

lemma device_ring_same: "ring_same d (snd (serial_proc_data d))" "ring_same d (snd (kbd_proc_data d))"
proof -
  show "ring_same d (snd (serial_proc_data d))"
    by (simp add: ring_same_def serial_proc_data_def split: list.split)
  show "ring_same d (snd (kbd_proc_data d))"
    unfolding kbd_proc_data_def Let_def
    by (cases "kbd_in d") (simp_all add: ring_same_def case_prod_beta)
qed

lemma serial_chars: "length (serial_in d) < n \<Longrightarrow> intr_chars n serial_proc_data d = serial_in d"
proof (induction n arbitrary: d)
  case (Suc n)
  have s: "serial_in (cons_store c d) = serial_in d" for c d
    by (simp add: cons_store_def Let_def)
  from Suc show ?case
    by (cases "serial_in d") (simp_all add: serial_proc_data_def s)
qed simp

lemma fold_q_put: "length q + length (filter (\<lambda>c. c \<noteq> 0) cs) \<le> 511 \<Longrightarrow> fold q_put cs q = q @ filter (\<lambda>c. c \<noteq> 0) cs"
  by (induction cs arbitrary: q) (auto simp: q_put_def)

text \<open>The characters that wait in the devices when \<^verbatim>\<open>cons_getc\<close> is called: those of the serial port, then those of the keyboard.\<close>

definition cons_pending :: "console \<Rightarrow> u8 list" where
  "cons_pending d =
     filter (\<lambda>c. c \<noteq> 0) ((if serial_exists d then serial_in d else []) @
       intr_chars (Suc (length (kbd_in (serial_intr d)))) kbd_proc_data (serial_intr d))"

lemma cons_intrs_queue:
  assumes "cons_inv d" "length (cons_queue d) + length (cons_pending d) \<le> 511"
  shows "cons_inv (kbd_intr (serial_intr d)) \<and> cons_queue (kbd_intr (serial_intr d)) = cons_queue d @ cons_pending d"
proof -
  let ?ss = "if serial_exists d then serial_in d else []" and ?d = "serial_intr d"
  let ?ks = "intr_chars (Suc (length (kbd_in ?d))) kbd_proc_data ?d"
  have s: "cons_inv ?d \<and> cons_queue ?d = fold q_put ?ss (cons_queue d)"
    using cons_intr_queue [OF device_ring_same(1) assms(1), of "Suc (length (serial_in d))"] assms(1)
      serial_chars [of d "Suc (length (serial_in d))"]
    by (simp add: serial_intr_def)
  then have "cons_inv (kbd_intr ?d) \<and> cons_queue (kbd_intr ?d) = fold q_put ?ks (cons_queue ?d)"
    unfolding kbd_intr_def by (intro cons_intr_queue device_ring_same) simp
  then have "cons_inv (kbd_intr ?d) \<and> cons_queue (kbd_intr ?d) = fold q_put (?ss @ ?ks) (cons_queue d)"
    using s by simp
  then show ?thesis
    using fold_q_put [of "cons_queue d" "?ss @ ?ks"] assms(2) by (simp only: cons_pending_def)
qed

text \<open>
  C21. \<^verbatim>\<open>cons_getc\<close> is a queue: as long as at most 511 characters are unread, counting those that wait in
  the serial port and the keyboard, it returns the oldest unread character (0 if there is none) and the others are still there,
  in order, for the next calls.
\<close>

theorem cons_getc_fifo:
  assumes "cons_inv d" "length (cons_queue d) + length (cons_pending d) \<le> 511"
  shows "cons_inv (snd (cons_getc d)) \<and>
    q_take (cons_queue d @ cons_pending d) = (fst (cons_getc d), cons_queue (snd (cons_getc d)))"
  using cons_intrs_queue [OF assms] cons_take_queue [of "kbd_intr (serial_intr d)"] by (simp add: cons_getc_def)

theorem cons_getc_fifo_witness:
  "fst (cons_getc (zero_console\<lparr>serial_exists := True, serial_in := [0x61, 0, 0x62]\<rparr>)) = 0x61 \<and>
   cons_queue (snd (cons_getc (zero_console\<lparr>serial_exists := True, serial_in := [0x61, 0, 0x62]\<rparr>))) = [0x62]"
proof -
  let ?d = "zero_console\<lparr>serial_exists := True, serial_in := [0x61, 0, 0x62]\<rparr>"
  have "kbd_in (serial_intr ?d) = []"
    by (simp add: serial_intr_def serial_proc_data_def cons_store_def zero_console_def Let_def numeral_3_eq_3)
  then have "cons_pending ?d = [0x61, 0x62]"
    by (simp add: cons_pending_def kbd_proc_data_def)
  moreover have "cons_inv ?d" "cons_queue ?d = []"
    by (simp_all add: cons_inv_def cons_queue_def cons_count_def zero_console_def)
  ultimately show ?thesis
    using cons_getc_fifo [of ?d] by (simp add: q_take_def)
qed

text \<open>The character that fills the buffer empties the queue.\<close>

lemma cons_overrun: "cons_inv d \<Longrightarrow> length (cons_queue d) = 511 \<Longrightarrow> c \<noteq> 0 \<Longrightarrow> cons_queue (cons_store c d) = []"
  using cons_store_queue [of d c] by (simp add: q_put_def)

end
