(* ===== verification/Spec2Isabelle.thy ===== *)
theory Spec2Isabelle
  imports Syscall_Props Monitor_Cmd Printfmt Fd_Props Malloc Sched_Fair Console_Queue
begin

text \<open>
  \<^bold>\<open>JOS: a verification development.\<close>

  JOS is a small exokernel for x86-64 (with a VMX guest mode): the kernel under \<^verbatim>\<open>src/kern\<close>,
  the user library under \<^verbatim>\<open>src/lib\<close>, a file server under \<^verbatim>\<open>src/fs\<close> and the virtual machine
  monitor under \<^verbatim>\<open>src/vmm\<close>.

  \<^bold>\<open>Conventions.\<close> A kernel function takes the kernel state (record \<open>kern\<close> of \<open>Kern_State\<close>) and
  returns an \<open>option\<close>: \<open>None\<close> is a panic, a failed assertion or a null dereference;
  otherwise the value is the C return value and the new state.

  \<^bold>\<open>Theories.\<close>
  \<^item> \<open>JOS_Prelude\<close>: types, rounding and error codes, intrusive linked lists and the contract of
    a pool of free elements.
  \<^item> \<open>Mmu\<close>: \<^verbatim>\<open>inc/mmu.h\<close> and \<^verbatim>\<open>inc/memlayout.h\<close>.
  \<^item> \<open>Kern_State\<close>: the kernel's structures and global variables.
  \<^item> \<open>Pmap\<close>: the functions of \<^verbatim>\<open>kern/pmap.c\<close>; \<open>Page_Alloc\<close>, \<open>Page_Table\<close> and \<open>Page_Map\<close>
    prove the allocator, the page table walks and the mapping operations correct.
\<close>

end
